(* ===== verification/Prelude.thy ===== *)
theory Prelude
  imports Complex_Main
begin

text \<open>
  Shared vocabulary of the development: identifiers, clock readings and the collections of
  facts that the component theories extend, together with the few generic lemmas on lists,
  options and maps that several components use.
  UUIDs are opaque, so a UUID is a natural number; strings are HOL strings; a point in time is
  an integer number of microseconds, which is the resolution of Python's \<open>datetime\<close>.
\<close>

type_synonym uuid = nat
type_synonym micros = int

named_theorems step_defs \<open>definitions of the operations, for case analysis of one call\<close>
named_theorems inv_intros \<open>preservation of the invariants of the components\<close>

abbreviation seconds :: "int \<Rightarrow> micros" where
  "seconds n \<equiv> n * 1000000"

abbreviation minutes :: "int \<Rightarrow> micros" where
  "minutes n \<equiv> n * 60000000"

abbreviation hours :: "int \<Rightarrow> micros" where
  "hours n \<equiv> n * 3600000000"

section \<open>Options\<close>

definition truthy_str :: "string option \<Rightarrow> bool" where
  \<comment> \<open>Python's truth value of an optional string: \<open>None\<close> and the empty string are false.\<close>
  "truthy_str s = (case s of None \<Rightarrow> False | Some t \<Rightarrow> t \<noteq> [])"

lemma truthy_str_simps [simp]:
  "truthy_str None = False"
  "truthy_str (Some t) = (t \<noteq> [])"
  by (simp_all add: truthy_str_def)

section \<open>Lists\<close>

lemma filter_length_mono:
  "(\<And>x. x \<in> set xs \<Longrightarrow> P x \<Longrightarrow> Q x) \<Longrightarrow> length (filter P xs) \<le> length (filter Q xs)"
  by (induction xs) auto

lemma find_SomeD: "find P xs = Some x \<Longrightarrow> P x \<and> x \<in> set xs"
  by (auto simp: find_Some_iff)

lemma find_append: "find P (xs @ ys) = (case find P xs of None \<Rightarrow> find P ys | Some x \<Rightarrow> Some x)"
  by (induction xs) auto

lemma distinct_map_filter [simp]: "distinct (map f xs) \<Longrightarrow> distinct (map f (filter P xs))"
  by (induction xs) auto

section \<open>Maps\<close>

lemma map_upd_same_dom [simp]: "m k = Some v \<Longrightarrow> dom (m(k \<mapsto> w)) = dom m"
  by auto

section \<open>Steps that may raise and change a state\<close>

definition and_then :: "('e + 'a) \<times> 's \<Rightarrow> ('a \<Rightarrow> 's \<Rightarrow> ('e + 'b) \<times> 's) \<Rightarrow> ('e + 'b) \<times> 's" where
  "and_then step f = (case step of (Inl e, s) \<Rightarrow> (Inl e, s) | (Inr a, s) \<Rightarrow> f a s)"

lemma and_then_simps [simp]:
  "and_then (Inl e, s) f = (Inl e, s)" "and_then (Inr a, s) f = f a s"
  by (simp_all add: and_then_def)

lemma and_then_Inr: "and_then step f = (Inr b, s') \<longleftrightarrow> (\<exists>a s1. step = (Inr a, s1) \<and> f a s1 = (Inr b, s'))"
  by (auto simp: and_then_def split: prod.split sum.split)

section \<open>Rows that follow a table of transitions\<close>

text \<open>
  The contract between a transition table and the code that moves rows along it: a step of the
  row is a move of the table or leaves the status alone. Its consequences for histories are
  proved once; the estimate machine and the AI job machine interpret it.
\<close>

locale table_machine =
  fixes status :: "'row \<Rightarrow> 's" and step :: "'row \<Rightarrow> 'row \<Rightarrow> bool" and allowed :: "'s \<Rightarrow> 's \<Rightarrow> bool"
  assumes step_allowed: "step r r' \<Longrightarrow> status r' = status r \<or> allowed (status r) (status r')"
begin

lemma history_follows_table: "step\<^sup>*\<^sup>* r r' \<Longrightarrow> allowed\<^sup>*\<^sup>* (status r) (status r')"
  by (induction rule: rtranclp_induct) (auto dest: step_allowed intro: rtranclp.rtrancl_into_rtrancl)

lemma terminal_stays:
  assumes "step\<^sup>*\<^sup>* r r'" "status r = s" "\<And>t. \<not> allowed s t"
  shows "status r' = s"
  using assms by (induction rule: rtranclp_induct) (auto dest: step_allowed)

lemma arrives_via:
  \<comment> \<open>a status whose table entries all come from \<open>P\<close> is reached through a row in \<open>P\<close>\<close>
  assumes "\<And>a. allowed a s \<Longrightarrow> P a" and "step\<^sup>*\<^sup>* r r'" "status r \<noteq> s" "status r' = s"
  shows "\<exists>q. step\<^sup>*\<^sup>* r q \<and> P (status q) \<and> step\<^sup>*\<^sup>* q r'"
  using assms(2,4)
proof (induction rule: rtranclp_induct)
  case base
  with assms(3) show ?case by simp
next
  case (step y z)
  show ?case
  proof (cases "status y = s")
    case True
    with step.IH step.hyps(2) show ?thesis by (meson rtranclp.rtrancl_into_rtrancl)
  next
    case False
    with step.prems step_allowed [OF step.hyps(2)] have "P (status y)" using assms(1) by auto
    with step.hyps show ?thesis by blast
  qed
qed

lemma leaves_via:
  \<comment> \<open>a status whose table successors are all in \<open>Q\<close> is left through a row in \<open>Q\<close>\<close>
  assumes "\<And>b. allowed s b \<Longrightarrow> Q b" and "step\<^sup>*\<^sup>* r r'" "status r = s" "status r' \<noteq> s"
  shows "\<exists>q. step\<^sup>*\<^sup>* r q \<and> Q (status q) \<and> step\<^sup>*\<^sup>* q r'"
  using assms(2,3,4)
proof (induction rule: converse_rtranclp_induct)
  case base
  then show ?case by simp
next
  case (step y z)
  show ?case
  proof (cases "status z = s")
    case True
    with step show ?thesis by (meson converse_rtranclp_into_rtranclp)
  next
    case False
    with step.prems step_allowed [OF step.hyps(1)] have "Q (status z)" using assms(1) by auto
    with step.hyps show ?thesis by blast
  qed
qed

end

text \<open>
  A machine whose rows carry a content that only changes while the status is editable or on the
  way into a status of no interest (\<open>dead\<close>): what is frozen in a status is still what it was in
  the status that the row came from.
\<close>

locale frozen_machine = table_machine status step allowed
  for status :: "'row \<Rightarrow> 's" and step :: "'row \<Rightarrow> 'row \<Rightarrow> bool" and allowed :: "'s \<Rightarrow> 's \<Rightarrow> bool" +
  fixes content :: "'row \<Rightarrow> 'c" and editable :: "'s \<Rightarrow> bool" and dead :: "'s \<Rightarrow> bool"
  assumes frozen: "step r r' \<Longrightarrow> editable (status r) \<or> dead (status r') \<or> content r' = content r"
begin

lemma arrives_with_content:
  assumes from_table: "\<And>a. allowed a s \<Longrightarrow> P a \<and> \<not> editable a" and s: "\<not> editable s" "\<not> dead s"
    and run: "step\<^sup>*\<^sup>* r r'" "status r \<noteq> s" "status r' = s"
  shows "\<exists>q. step\<^sup>*\<^sup>* r q \<and> P (status q) \<and> content q = content r' \<and> step\<^sup>*\<^sup>* q r'"
  using run(1,3)
proof (induction rule: rtranclp_induct)
  case base
  with run(2) show ?case by simp
next
  case (step y z)
  show ?case
  proof (cases "status y = s")
    case True
    with step.IH obtain q where q: "step\<^sup>*\<^sup>* r q" "P (status q)" "content q = content y" "step\<^sup>*\<^sup>* q y" by blast
    have "content z = content y" using frozen [OF step.hyps(2)] s True step.prems by auto
    moreover have "step\<^sup>*\<^sup>* q z" using q(4) step.hyps(2) by (rule rtranclp.rtrancl_into_rtrancl)
    ultimately show ?thesis using q by auto
  next
    case False
    with step.prems step_allowed [OF step.hyps(2)] have y: "P (status y)" "\<not> editable (status y)" using from_table by auto
    then have "content y = content z" using frozen [OF step.hyps(2)] s step.prems by auto
    with y step.hyps show ?thesis by blast
  qed
qed

end

end
