(* ===== verification/PyNum.thy ===== *)
theory PyNum
  imports Prelude
begin

text \<open>
  The numbers the program computes with. A finite Python \<open>float\<close> and a Python \<open>Decimal\<close>
  both denote a rational number, so both are of type \<open>rat\<close>; what distinguishes them is
  how the result of an operation is rounded. \<open>rnd b p\<close> rounds to \<open>p\<close> significant digits in
  base \<open>b\<close>, ties to even: \<open>rnd 2 53\<close> is the rounding of every IEEE double operation and
  \<open>rnd 10 28\<close> that of Python's default decimal context. Overflow, infinities, NaN and the
  subnormal range (below \<open>2 ^ -1022\<close>) are outside this model.
\<close>

section \<open>Rounding to an integer\<close>

definition rhe :: "rat \<Rightarrow> int" where
  \<comment> \<open>nearest integer, ties to even\<close>
  "rhe y = (let f = \<lfloor>y\<rfloor>; r = y - of_int f in
     if r < 1/2 then f else if 1/2 < r then f + 1 else if even f then f else f + 1)"

lemma rhe_of_int [simp]: "rhe (of_int n) = n"
  by (simp add: rhe_def)

lemma rhe_0 [simp]: "rhe 0 = 0"
  using rhe_of_int [of 0] by simp

lemma rhe_bounds: "\<lfloor>y\<rfloor> \<le> rhe y" "rhe y \<le> \<lfloor>y\<rfloor> + 1"
  by (auto simp: rhe_def Let_def)

lemma rhe_mono: "x \<le> y \<Longrightarrow> rhe x \<le> rhe y"
proof -
  assume xy: "x \<le> y"
  then have "\<lfloor>x\<rfloor> \<le> \<lfloor>y\<rfloor>" by (rule floor_mono)
  then consider "\<lfloor>x\<rfloor> = \<lfloor>y\<rfloor>" | "\<lfloor>x\<rfloor> + 1 \<le> \<lfloor>y\<rfloor>" by linarith
  then show ?thesis
  proof cases
    case 1 then show ?thesis using xy by (auto simp: rhe_def Let_def)
  next
    case 2 then show ?thesis using rhe_bounds [of x] rhe_bounds [of y] by linarith
  qed
qed

lemma rhe_err: "\<bar>of_int (rhe y) - y\<bar> \<le> 1/2"
proof -
  have "of_int \<lfloor>y\<rfloor> \<le> y" "y < of_int \<lfloor>y\<rfloor> + 1" by linarith+
  then show ?thesis by (auto simp: rhe_def Let_def abs_le_iff)
qed

lemma rhe_minus: "rhe (- y) = - rhe y"
proof (cases "y = of_int \<lfloor>y\<rfloor>")
  case True
  then have "rhe (- y) = rhe (of_int (- \<lfloor>y\<rfloor>))" by simp
  also have "\<dots> = - rhe y" using True rhe_of_int [of "\<lfloor>y\<rfloor>"] by (metis rhe_of_int)
  finally show ?thesis .
next
  case False
  have "\<lfloor>- y\<rfloor> = - \<lfloor>y\<rfloor> - 1"
  proof (rule floor_unique)
    show "of_int (- \<lfloor>y\<rfloor> - 1) \<le> - y" by simp linarith
    show "- y < of_int (- \<lfloor>y\<rfloor> - 1) + 1" using False by simp linarith
  qed
  then show ?thesis by (auto simp: rhe_def Let_def)
qed


lemma powi_less_iff: "1 < (b::rat) \<Longrightarrow> b powi m < b powi n \<longleftrightarrow> m < n"
  by (metis linorder_not_less power_int_increasing power_int_strict_increasing less_imp_le)

lemma powi_le_iff: "1 < (b::rat) \<Longrightarrow> b powi m \<le> b powi n \<longleftrightarrow> m \<le> n"
  by (simp add: powi_less_iff flip: linorder_not_less)

lemma powi_pos: "2 \<le> b \<Longrightarrow> (0::rat) < of_int b powi e"
  by simp

lemma base_ge2: "2 \<le> b \<Longrightarrow> (2::rat) \<le> of_int b"
  using of_int_le_iff [of 2 b, where ?'a = rat] by simp

section \<open>Rounding to \<open>p\<close> significant digits in base \<open>b\<close>\<close>

lemma floor_half_less: "1 \<le> x \<Longrightarrow> \<lfloor>x / 2\<rfloor> < \<lfloor>x\<rfloor>" for x :: rat
proof -
  assume x: "1 \<le> x"
  then have one: "1 \<le> \<lfloor>x\<rfloor>" by (simp add: le_floor_iff)
  have "x / 2 < of_int \<lfloor>x\<rfloor>"
  proof -
    have "x < of_int \<lfloor>x\<rfloor> + 1" by linarith
    moreover have "(1::rat) \<le> of_int \<lfloor>x\<rfloor>" using one of_int_le_iff [of 1 "\<lfloor>x\<rfloor>", where ?'a = rat] by simp
    ultimately show ?thesis by linarith
  qed
  then show ?thesis by (simp add: floor_less_iff)
qed

function ilog_up :: "int \<Rightarrow> rat \<Rightarrow> nat" where
  "ilog_up b x = (if 2 \<le> b \<and> of_int b \<le> x then Suc (ilog_up b (x / of_int b)) else 0)"
  by pat_completeness auto
termination
proof (relation "measure (\<lambda>(b, x). nat \<lfloor>x\<rfloor>)", goal_cases)
  case 1 show ?case by simp
next
  case (2 b x)
  then have b: "(2::rat) \<le> of_int b" and x: "of_int b \<le> x" by (simp_all add: base_ge2)
  have "x / of_int b \<le> x / 2" by (rule divide_left_mono) (use b x in simp_all)
  then have "\<lfloor>x / of_int b\<rfloor> \<le> \<lfloor>x / 2\<rfloor>" by (rule floor_mono)
  also have "\<lfloor>x / 2\<rfloor> < \<lfloor>x\<rfloor>" by (rule floor_half_less) (use b x in linarith)
  finally show ?case using b x by simp
qed

function ilog_dn :: "int \<Rightarrow> rat \<Rightarrow> nat" where
  "ilog_dn b x = (if 2 \<le> b \<and> 0 < x \<and> x < 1 then Suc (ilog_dn b (x * of_int b)) else 0)"
  by pat_completeness auto
termination
proof (relation "measure (\<lambda>(b, x). nat \<lfloor>1 / x\<rfloor>)", goal_cases)
  case 1 show ?case by simp
next
  case (2 b x)
  then have b: "(2::rat) \<le> of_int b" and x: "0 < x" "x < 1" by (simp_all add: base_ge2)
  have "(1 / x) / of_int b \<le> (1 / x) / 2" by (rule divide_left_mono) (use b x in simp_all)
  then have "\<lfloor>(1 / x) / of_int b\<rfloor> \<le> \<lfloor>(1 / x) / 2\<rfloor>" by (rule floor_mono)
  also have "\<dots> < \<lfloor>1 / x\<rfloor>" by (rule floor_half_less) (use x in simp)
  finally have "\<lfloor>(1 / x) / of_int b\<rfloor> < \<lfloor>1 / x\<rfloor>" .
  moreover have "1 \<le> \<lfloor>1 / x\<rfloor>" using x by (simp add: le_floor_iff)
  ultimately show ?case by simp
qed

declare ilog_up.simps [simp del] ilog_dn.simps [simp del]

definition ilog :: "int \<Rightarrow> rat \<Rightarrow> int" where
  \<comment> \<open>the exponent \<open>e\<close> with \<open>b ^ e \<le> x < b ^ (e + 1)\<close>, for positive \<open>x\<close>\<close>
  "ilog b x = (if 1 \<le> x then int (ilog_up b x) else - int (ilog_dn b x))"

definition rnd :: "int \<Rightarrow> nat \<Rightarrow> rat \<Rightarrow> rat" where
  "rnd b p x = (if x = 0 then 0 else
     let u = of_int b powi (ilog b \<bar>x\<bar> - int p + 1) in of_int (rhe (x / u)) * u)"

lemma ilog_up_bounds:
  assumes "2 \<le> b" "1 \<le> x"
  shows "of_int b ^ ilog_up b x \<le> x \<and> x < of_int b ^ Suc (ilog_up b x)"
  using assms
proof (induction b x rule: ilog_up.induct)
  case (1 b x)
  have b: "(2::rat) \<le> of_int b" using "1.prems" by (simp add: base_ge2)
  show ?case
  proof (cases "of_int b \<le> x")
    case True
    then have "1 \<le> x / of_int b" using b by (simp add: le_divide_eq)
    with 1 True have "of_int b ^ ilog_up b (x / of_int b) \<le> x / of_int b \<and>
        x / of_int b < of_int b ^ Suc (ilog_up b (x / of_int b))" by blast
    then show ?thesis
      using True "1.prems" b
      by (simp add: ilog_up.simps [of b x] le_divide_eq divide_less_eq mult.commute)
  next
    case False
    then show ?thesis using "1.prems" by (simp add: ilog_up.simps [of b x])
  qed
qed

lemma ilog_dn_bounds:
  assumes "2 \<le> b" "0 < x" "x < of_int b"
  shows "1 \<le> x * of_int b ^ ilog_dn b x \<and> x * of_int b ^ ilog_dn b x < of_int b"
  using assms
proof (induction b x rule: ilog_dn.induct)
  case (1 b x)
  have b: "(2::rat) \<le> of_int b" using "1.prems" by (simp add: base_ge2)
  show ?case
  proof (cases "x < 1")
    case True
    then have "0 < x * of_int b" "x * of_int b < of_int b" using b "1.prems" by simp_all
    with 1 True have "1 \<le> x * of_int b * of_int b ^ ilog_dn b (x * of_int b) \<and>
        x * of_int b * of_int b ^ ilog_dn b (x * of_int b) < of_int b" by blast
    then show ?thesis
      using True "1.prems" by (simp add: ilog_dn.simps [of b x] mult.assoc)
  next
    case False
    then show ?thesis using "1.prems" by (simp add: ilog_dn.simps [of b x])
  qed
qed

lemma ilog_bounds:
  assumes "2 \<le> b" "0 < x"
  shows "of_int b powi ilog b x \<le> x \<and> x < of_int b powi (ilog b x + 1)"
proof -
  have b: "(2::rat) \<le> of_int b" using assms by (simp add: base_ge2)
  show ?thesis
  proof (cases "1 \<le> x")
    case True
    have "of_int b powi (int (ilog_up b x) + 1) = (of_int b :: rat) ^ Suc (ilog_up b x)"
      by (metis power_int_of_nat of_nat_Suc add.commute)
    then show ?thesis using True ilog_up_bounds [of b x] assms by (simp add: ilog_def)
  next
    case False
    let ?k = "ilog_dn b x"
    have k: "1 \<le> x * of_int b ^ ?k" "x * of_int b ^ ?k < of_int b"
      using ilog_dn_bounds [of b x] False assms b by auto
    have p: "(0::rat) < of_int b ^ ?k" using b by simp
    have "of_int b powi (- int ?k + 1) = (of_int b :: rat) / of_int b ^ ?k"
      using b by (subst power_int_add) (auto simp: power_int_minus divide_inverse mult.commute)
    then have "x < of_int b powi (- int ?k + 1)" using k p by (simp add: less_divide_eq)
    then show ?thesis using False k p
      by (simp add: ilog_def power_int_minus divide_simps)
  qed
qed

lemma ilog_unique:
  assumes "2 \<le> b" "of_int b powi e \<le> x" "x < of_int b powi (e + 1)"
  shows "ilog b x = e"
proof -
  have b: "(1::rat) < of_int b" using assms by simp
  have "(0::rat) < of_int b powi e" using b by simp
  then have "0 < x" using assms(2) by linarith
  from ilog_bounds [OF assms(1) this] have
    "of_int b powi ilog b x < (of_int b :: rat) powi (e + 1)"
    "of_int b powi e < (of_int b :: rat) powi (ilog b x + 1)"
    using assms by linarith+
  then show ?thesis using b by (simp add: powi_less_iff)
qed


lemma rnd_0 [simp]: "rnd b p 0 = 0"
  by (simp add: rnd_def)

lemma rnd_minus: "rnd b p (- x) = - rnd b p x"
  by (simp add: rnd_def Let_def rhe_minus)

lemma rnd_pos_eq:
  "0 < x \<Longrightarrow> rnd b p x =
     of_int (rhe (x / of_int b powi (ilog b x - int p + 1))) * of_int b powi (ilog b x - int p + 1)"
  by (simp add: rnd_def Let_def)

text \<open>The scaled mantissa of a positive number lies in \<open>[b ^ (p - 1), b ^ p)\<close>.\<close>

lemma mantissa_bounds:
  assumes "2 \<le> b" "0 < x" "0 < p"
  shows "of_int (b ^ (p - 1)) \<le> x / of_int b powi (ilog b x - int p + 1)"
    and "x / of_int b powi (ilog b x - int p + 1) < of_int (b ^ p)"
proof -
  let ?B = "of_int b :: rat" and ?e = "ilog b x"
  let ?u = "?B powi (?e - int p + 1)"
  have u: "0 < ?u" using assms by (simp add: powi_pos)
  have B: "?B \<noteq> 0" using assms by simp
  have "?B ^ (p - 1) * ?u = ?B powi (int (p - 1) + (?e - int p + 1))"
    using B by (subst power_int_add) auto
  also have "\<dots> = ?B powi ?e" using assms(3) by (simp add: of_nat_diff)
  finally show "of_int (b ^ (p - 1)) \<le> x / ?u"
    using ilog_bounds [OF assms(1,2)] u by (simp add: le_divide_eq)
  have "?B ^ p * ?u = ?B powi (int p + (?e - int p + 1))"
    using B by (subst power_int_add) auto
  also have "\<dots> = ?B powi (?e + 1)" by (simp add: algebra_simps)
  finally show "x / ?u < of_int (b ^ p)"
    using ilog_bounds [OF assms(1,2)] u by (simp add: divide_less_eq)
qed

lemma rnd_pos_bounds:
  assumes "2 \<le> b" "0 < x" "0 < p"
  shows "of_int b powi ilog b x \<le> rnd b p x" "rnd b p x \<le> of_int b powi (ilog b x + 1)"
proof -
  let ?B = "of_int b :: rat" and ?e = "ilog b x"
  let ?u = "?B powi (?e - int p + 1)"
  have u: "0 \<le> ?u" using assms by simp
  have B: "?B \<noteq> 0" using assms by simp
  note m = mantissa_bounds [OF assms]
  have lo: "b ^ (p - 1) \<le> rhe (x / ?u)" using rhe_mono [OF m(1)] by (simp only: rhe_of_int)
  have hi: "rhe (x / ?u) \<le> b ^ p" using rhe_mono [OF less_imp_le [OF m(2)]] by (simp only: rhe_of_int)
  have "?B powi ?e = of_int (b ^ (p - 1)) * ?u"
    using B assms(3) by (simp add: of_nat_diff flip: power_int_of_nat power_int_add)
  also have "\<dots> \<le> of_int (rhe (x / ?u)) * ?u"
    by (rule mult_right_mono [OF _ u]) (simp only: of_int_le_iff lo)
  finally show "?B powi ?e \<le> rnd b p x" using assms by (simp add: rnd_pos_eq)
  have "of_int (rhe (x / ?u)) * ?u \<le> of_int (b ^ p) * ?u"
    by (rule mult_right_mono [OF _ u]) (simp only: of_int_le_iff hi)
  also have "\<dots> = ?B powi (?e + 1)"
    using B by (simp add: algebra_simps flip: power_int_of_nat power_int_add)
  finally show "rnd b p x \<le> ?B powi (?e + 1)" using assms by (simp add: rnd_pos_eq)
qed

lemma rnd_nonneg: "2 \<le> b \<Longrightarrow> 0 < p \<Longrightarrow> 0 \<le> x \<Longrightarrow> 0 \<le> rnd b p x"
  using rnd_pos_bounds(1) [of b x p] powi_pos [of b "ilog b x"]
  by (cases "x = 0") (simp, force intro: order.trans [OF less_imp_le])

lemma rnd_mono_pos:
  assumes "2 \<le> b" "0 < p" "0 < x" "x \<le> y"
  shows "rnd b p x \<le> rnd b p y"
proof -
  have y: "0 < y" using assms by linarith
  have "of_int b powi ilog b x < (of_int b :: rat) powi (ilog b y + 1)"
    using ilog_bounds [OF assms(1,3)] ilog_bounds [OF assms(1) y] assms(4) by linarith
  then have "ilog b x \<le> ilog b y" using assms(1) by (simp add: powi_less_iff)
  then consider "ilog b x = ilog b y" | "ilog b x + 1 \<le> ilog b y" by linarith
  then show ?thesis
  proof cases
    case 1
    let ?u = "of_int b powi (ilog b y - int p + 1) :: rat"
    have "x / ?u \<le> y / ?u" using assms by (intro divide_right_mono) simp_all
    then have "of_int (rhe (x / ?u)) * ?u \<le> of_int (rhe (y / ?u)) * ?u"
      using assms(1) by (intro mult_right_mono) (simp_all add: rhe_mono)
    then show ?thesis using 1 assms y by (simp add: rnd_pos_eq)
  next
    case 2
    have "rnd b p x \<le> of_int b powi (ilog b x + 1)" by (rule rnd_pos_bounds) (use assms in auto)
    also have "\<dots> \<le> of_int b powi ilog b y" using 2 assms(1) by (simp add: powi_le_iff)
    also have "\<dots> \<le> rnd b p y" by (rule rnd_pos_bounds) (use assms y in auto)
    finally show ?thesis .
  qed
qed

lemma rnd_mono:
  assumes "2 \<le> b" "0 < p" "x \<le> y"
  shows "rnd b p x \<le> rnd b p y"
proof -
  consider "0 < x" | "x \<le> 0" "0 \<le> y" | "y < 0" by linarith
  then show ?thesis
  proof cases
    case 1 then show ?thesis using assms by (simp add: rnd_mono_pos)
  next
    case 2
    then have "0 \<le> rnd b p (- x)" "0 \<le> rnd b p y" using assms by (simp_all add: rnd_nonneg)
    then show ?thesis by (simp add: rnd_minus)
  next
    case 3
    then have "rnd b p (- y) \<le> rnd b p (- x)" using assms by (simp add: rnd_mono_pos)
    then show ?thesis by (simp add: rnd_minus)
  qed
qed


lemma rnd_exact:
  assumes b: "2 \<le> b" and p: "0 < p" and m: "\<bar>m\<bar> < b ^ p" and x: "x = of_int m * of_int b powi k"
  shows "rnd b p x = x"
proof (cases "m = 0")
  case True then show ?thesis using x by simp
next
  case False
  let ?B = "of_int b :: rat" and ?e = "ilog b \<bar>x\<bar>"
  let ?u = "?B powi (?e - int p + 1)"
  have B: "1 < ?B" using b by simp
  have pos: "0 < \<bar>x\<bar>" using False B x by simp
  have "?B powi ?e \<le> \<bar>x\<bar>" using ilog_bounds [OF b pos] by simp
  also have "\<bar>x\<bar> = of_int \<bar>m\<bar> * ?B powi k" using B x by (simp add: abs_mult)
  also have "\<dots> < of_int (b ^ p) * ?B powi k"
    using B m by (intro mult_strict_right_mono) (simp_all flip: of_int_power of_int_abs)
  also have "\<dots> = ?B powi (int p + k)" using B by (simp add: power_int_add)
  finally have "?e - int p + 1 \<le> k" using B by (simp add: powi_less_iff)
  then obtain n where n: "k = ?e - int p + 1 + int n" using zle_iff_zadd by auto
  have u: "?u \<noteq> 0" using B by simp
  have "?B powi k = ?u * ?B ^ n" by (subst n, subst power_int_add) (use B in auto)
  then have "of_int m * ?B powi k = of_int (m * b ^ n) * ?u" by (simp only: of_int_mult of_int_power ac_simps)
  then have "x = of_int (m * b ^ n) * ?u" by (simp only: x [symmetric])
  then have q: "x / ?u = of_int (m * b ^ n)" using u by (metis nonzero_mult_div_cancel_right)
  have "rnd b p x = of_int (rhe (x / ?u)) * ?u" using pos by (simp add: rnd_def Let_def)
  also have "\<dots> = x / ?u * ?u" by (simp only: q rhe_of_int)
  also have "\<dots> = x" using u by simp
  finally show ?thesis .
qed

lemma rnd_exact_le:
  assumes "2 \<le> b" "0 < p" "\<bar>m\<bar> \<le> b ^ p" "x = of_int m * of_int b powi k"
  shows "rnd b p x = x"
proof (cases "\<bar>m\<bar> < b ^ p")
  case True then show ?thesis using assms rnd_exact by blast
next
  case False
  have B: "of_int b \<noteq> (0::rat)" using assms by simp
  from False assms have m: "m = b ^ p \<or> m = - (b ^ p)" by linarith
  then have "x = of_int (sgn m) * of_int b powi (k + int p)"
    using assms B by (auto simp: power_int_add sgn_if)
  moreover have "\<bar>sgn m\<bar> < b ^ p"
    using assms(1,2) one_less_power [of b p] by (simp add: abs_sgn_eq)
  ultimately show ?thesis using assms(1,2) rnd_exact by blast
qed

lemma rnd_of_int: "2 \<le> b \<Longrightarrow> 0 < p \<Longrightarrow> \<bar>m\<bar> \<le> b ^ p \<Longrightarrow> rnd b p (of_int m) = of_int m"
  by (rule rnd_exact_le [where m = m and k = 0]) auto

lemma rnd_idem:
  assumes "2 \<le> b" "0 < p"
  shows "rnd b p (rnd b p x) = rnd b p x"
proof -
  have pos: "rnd b p (rnd b p x) = rnd b p x" if x: "0 < x" for x
  proof (rule rnd_exact_le [OF assms])
    let ?u = "of_int b powi (ilog b x - int p + 1) :: rat"
    have "0 \<le> x / ?u" using x assms by simp
    then have "0 \<le> rhe (x / ?u)" using rhe_mono [of 0] by fastforce
    moreover have "rhe (x / ?u) \<le> b ^ p"
      using rhe_mono [OF less_imp_le [OF mantissa_bounds(2) [OF assms(1) x assms(2)]]]
      by (simp only: rhe_of_int)
    ultimately show "\<bar>rhe (x / ?u)\<bar> \<le> b ^ p" by simp
    show "rnd b p x = of_int (rhe (x / ?u)) * of_int b powi (ilog b x - int p + 1)"
      using x by (rule rnd_pos_eq)
  qed
  consider "x = 0" | "0 < x" | "0 < - x" by linarith
  then show ?thesis
    by cases (use pos [of x] pos [of "- x"] in \<open>auto simp: rnd_minus\<close>)
qed

lemma rnd_err_ulp:
  assumes "2 \<le> b" "x \<noteq> 0"
  shows "\<bar>rnd b p x - x\<bar> \<le> of_int b powi (ilog b \<bar>x\<bar> - int p + 1) / 2"
proof -
  let ?u = "of_int b powi (ilog b \<bar>x\<bar> - int p + 1) :: rat"
  have u: "0 < ?u" using assms by (simp add: powi_pos)
  have "rnd b p x - x = (of_int (rhe (x / ?u)) - x / ?u) * ?u"
    using u assms by (simp add: rnd_def Let_def algebra_simps)
  then have "\<bar>rnd b p x - x\<bar> = \<bar>of_int (rhe (x / ?u)) - x / ?u\<bar> * ?u"
    using u by (simp add: abs_mult)
  also have "\<dots> \<le> 1/2 * ?u" using u by (intro mult_right_mono rhe_err) simp
  finally show ?thesis by simp
qed

lemma rnd_err:
  assumes "2 \<le> b"
  shows "\<bar>rnd b p x - x\<bar> \<le> \<bar>x\<bar> * of_int b powi (1 - int p) / 2"
proof (cases "x = 0")
  case False
  have "\<bar>rnd b p x - x\<bar> \<le> of_int b powi (ilog b \<bar>x\<bar> + (1 - int p)) / 2"
    using rnd_err_ulp [OF assms False, of p] by (simp add: algebra_simps)
  also have "\<dots> = of_int b powi ilog b \<bar>x\<bar> * of_int b powi (1 - int p) / 2"
    using assms by (subst power_int_add) auto
  also have "\<dots> \<le> \<bar>x\<bar> * of_int b powi (1 - int p) / 2"
    using assms False ilog_bounds [OF assms, of "\<bar>x\<bar>"]
    by (intro divide_right_mono mult_right_mono) auto
  finally show ?thesis .
qed simp

section \<open>Python floats, decimals and the rounding functions of the program\<close>

type_synonym pyfloat = rat
type_synonym pydec = rat

abbreviation f64 :: "rat \<Rightarrow> pyfloat" where
  "f64 \<equiv> rnd 2 53"

abbreviation dec28 :: "rat \<Rightarrow> pydec" where
  "dec28 \<equiv> rnd 10 28"

definition is_f64 :: "rat \<Rightarrow> bool" where
  "is_f64 x \<longleftrightarrow> f64 x = x"

definition fadd :: "pyfloat \<Rightarrow> pyfloat \<Rightarrow> pyfloat" where "fadd a b = f64 (a + b)"
definition fsub :: "pyfloat \<Rightarrow> pyfloat \<Rightarrow> pyfloat" where "fsub a b = f64 (a - b)"
definition fmul :: "pyfloat \<Rightarrow> pyfloat \<Rightarrow> pyfloat" where "fmul a b = f64 (a * b)"
definition fdiv :: "pyfloat \<Rightarrow> pyfloat \<Rightarrow> pyfloat" where "fdiv a b = f64 (a / b)"

text \<open>
  \<open>Decimal(str(x))\<close> is the decimal that \<open>repr\<close> prints: the one with the fewest digits after
  (or before) the point that reads back as \<open>x\<close>. \<open>dec_cand x k\<close> is \<open>x\<close> to \<open>k\<close> places; the search
  starts left of the leading digit and 17 significant digits always suffice.
\<close>

definition dec_cand :: "rat \<Rightarrow> int \<Rightarrow> rat" where
  "dec_cand x k = of_int (rhe (x * 10 powi k)) / 10 powi k"

fun repr_from :: "rat \<Rightarrow> int \<Rightarrow> nat \<Rightarrow> rat" where
  "repr_from x k 0 = x"
| "repr_from x k (Suc n) =
     (if f64 (dec_cand x k) = x then dec_cand x k else repr_from x (k + 1) n)"

definition repr_dec :: "pyfloat \<Rightarrow> pydec" where
  "repr_dec x = (if x = 0 then 0 else repr_from x (- ilog 10 \<bar>x\<bar>) 17)"

definition py_round :: "int \<Rightarrow> pyfloat \<Rightarrow> pyfloat" where
  \<comment> \<open>the built-in \<open>round(x, n)\<close>\<close>
  "py_round n x = f64 (of_int (rhe (x * 10 powi n)) / 10 powi n)"

definition half_up :: "rat \<Rightarrow> int" where
  \<comment> \<open>ROUND_HALF_UP: nearest integer, ties away from zero\<close>
  "half_up x = (if 0 \<le> x then \<lfloor>x + 1/2\<rfloor> else - \<lfloor>1/2 - x\<rfloor>)"

definition quantize :: "int \<Rightarrow> pydec \<Rightarrow> pydec" where
  \<comment> \<open>\<open>d.quantize(10 ** -n, rounding=ROUND_HALF_UP)\<close>, and the rounding of a
      Postgres \<open>NUMERIC(_, n)\<close> column on store\<close>
  "quantize n d = of_int (half_up (d * 10 powi n)) / 10 powi n"


subsection \<open>Evaluation on concrete numbers\<close>

lemma floor_rat_numeral:
  "\<lfloor>numeral a / numeral b :: rat\<rfloor> = numeral a div numeral b"
  "\<lfloor>1 / numeral b :: rat\<rfloor> = 1 div numeral b"
  "\<lfloor>- (numeral a / numeral b) :: rat\<rfloor> = - numeral a div numeral b"
  "\<lfloor>- (1 / numeral b) :: rat\<rfloor> = - 1 div numeral b"
  using floor_divide_of_int_eq [where ?'a = rat, of "numeral a" "numeral b"]
    floor_divide_of_int_eq [where ?'a = rat, of 1 "numeral b"]
    floor_divide_of_int_eq [where ?'a = rat, of "- numeral a" "numeral b"]
    floor_divide_of_int_eq [where ?'a = rat, of "- 1" "numeral b"] by simp_all

lemma repr_from_numeral:
  "repr_from x k (numeral n) =
     (if f64 (dec_cand x k) = x then dec_cand x k else repr_from x (k + 1) (pred_numeral n))"
  by (simp add: numeral_eq_Suc)

lemmas num_eval = rnd_def ilog_def ilog_up.simps ilog_dn.simps rhe_def Let_def
  dec_cand_def half_up_def floor_rat_numeral repr_from_numeral repr_dec_def
  py_round_def quantize_def fadd_def fsub_def fmul_def fdiv_def

subsection \<open>Facts about doubles\<close>

lemma f64_mono: "x \<le> y \<Longrightarrow> f64 x \<le> f64 y"
  by (simp add: rnd_mono)

lemma f64_nonneg [simp]: "0 \<le> x \<Longrightarrow> 0 \<le> f64 x"
  by (simp add: rnd_nonneg)

lemma f64_of_int: "\<bar>m\<bar> \<le> 2 ^ 53 \<Longrightarrow> f64 (of_int m) = of_int m"
  by (rule rnd_of_int) simp_all

lemma f64_numeral: "(numeral n :: int) \<le> 2 ^ 53 \<Longrightarrow> f64 (numeral n) = numeral n"
  using f64_of_int [of "numeral n"] by simp

lemma f64_1 [simp]: "f64 1 = 1"
  using f64_of_int [of 1] by simp

lemma is_f64_f64 [simp]: "is_f64 (f64 x)"
  by (simp add: is_f64_def rnd_idem)

lemma is_f64_0 [simp]: "is_f64 0"
  by (simp add: is_f64_def)

lemma f64_le_iff: "is_f64 y \<Longrightarrow> x \<le> y \<Longrightarrow> f64 x \<le> y"
  using f64_mono [of x y] by (simp add: is_f64_def)

lemma f64_ge_iff: "is_f64 y \<Longrightarrow> y \<le> x \<Longrightarrow> y \<le> f64 x"
  using f64_mono [of y x] by (simp add: is_f64_def)

lemma f64_err: "\<bar>f64 x - x\<bar> \<le> \<bar>x\<bar> / 2 ^ 53"
  using rnd_err [of 2 53 x] by (simp add: power_int_minus divide_simps)

lemma fadd_nonneg [simp]: "0 \<le> a \<Longrightarrow> 0 \<le> b \<Longrightarrow> 0 \<le> fadd a b"
  by (simp add: fadd_def)

lemma fmul_nonneg [simp]: "0 \<le> a \<Longrightarrow> 0 \<le> b \<Longrightarrow> 0 \<le> fmul a b"
  by (simp add: fmul_def)

lemma fsub_nonneg [simp]: "b \<le> a \<Longrightarrow> 0 \<le> fsub a b"
  by (simp add: fsub_def)

subsection \<open>Decimal round trip: \<open>Decimal(str(float(c)))\<close> is \<open>c\<close> for at most 15 digits\<close>

lemma rhe_near: "\<bar>y - of_int m\<bar> < 1/2 \<Longrightarrow> rhe y = m"
proof -
  assume "\<bar>y - of_int m\<bar> < 1/2"
  then have "\<bar>of_int (rhe y) - of_int m :: rat\<bar> < of_int 1"
    using rhe_err [of y] by linarith
  then have "\<bar>rhe y - m\<bar> < 1" by (simp only: of_int_less_iff flip: of_int_diff of_int_abs)
  then show ?thesis by simp
qed

lemma repr_from_f64: "is_f64 x \<Longrightarrow> f64 (repr_from x k n) = x"
proof (induction n arbitrary: k)
  case 0
  then show ?case by (simp only: is_f64_def repr_from.simps)
next
  case (Suc n)
  then have "f64 (repr_from x (k + 1) n) = x" .
  show ?case
  proof (cases "f64 (dec_cand x k) = x")
    case True
    then have "repr_from x k (Suc n) = dec_cand x k" by simp
    then show ?thesis using True by (simp only:)
  next
    case False
    then show ?thesis using \<open>f64 (repr_from x (k + 1) n) = x\<close> by (simp only: repr_from.simps if_False)
  qed
qed

lemma repr_dec_f64 [simp]: "is_f64 x \<Longrightarrow> f64 (repr_dec x) = x"
  by (simp add: repr_dec_def repr_from_f64)

lemma repr_dec_err: "is_f64 x \<Longrightarrow> \<bar>x - repr_dec x\<bar> \<le> \<bar>repr_dec x\<bar> / 2 ^ 53"
  using f64_err [of "repr_dec x"] by simp

lemma repr_from_first:
  assumes "f64 (dec_cand x k') = x" "dec_cand x k' = c" "k \<le> k'" "k' < k + int n"
    and "\<And>j. k \<le> j \<Longrightarrow> j \<le> k' \<Longrightarrow> f64 (dec_cand x j) = x \<Longrightarrow> dec_cand x j = c"
  shows "repr_from x k n = c"
  using assms
proof (induction n arbitrary: k)
  case 0
  from "0.prems"(3,4) show ?case by simp
next
  case (Suc n)
  show ?case
  proof (cases "f64 (dec_cand x k) = x")
    case True
    moreover from Suc.prems(5) [OF order_refl Suc.prems(3) True] have "dec_cand x k = c" .
    ultimately show ?thesis by simp
  next
    case False
    then have "k \<noteq> k'" using Suc.prems(1) by blast
    then have k: "k + 1 \<le> k'" "k' < k + 1 + int n" using Suc.prems(3,4) by simp_all
    have "repr_from x (k + 1) n = c"
      by (rule Suc.IH [OF Suc.prems(1,2) k]) (rule Suc.prems(5), simp_all)
    then show ?thesis using False by (simp only: repr_from.simps if_False)
  qed
qed


lemma dec_grid_unique:
  assumes "f64 c = x" "f64 c' = x" "c = of_int m / 10 powi k" "c' = of_int i / 10 powi k"
    and m: "\<bar>m\<bar> < 10 ^ 15"
  shows "c' = c"
proof -
  let ?t = "10 powi k :: rat"
  have t: "0 < ?t" by simp
  have d: "9007199254740992 * \<bar>x - c\<bar> \<le> \<bar>c\<bar>" "9007199254740992 * \<bar>x - c'\<bar> \<le> \<bar>c'\<bar>"
    using f64_err [of c] f64_err [of c'] assms(1,2) by simp_all
  have "\<bar>c'\<bar> \<le> \<bar>x - c'\<bar> + \<bar>x - c\<bar> + \<bar>c\<bar>" "\<bar>c' - c\<bar> \<le> \<bar>x - c'\<bar> + \<bar>x - c\<bar>" "0 \<le> \<bar>c\<bar>" by arith+
  with d have "9007199254740992 * \<bar>c' - c\<bar> \<le> 4 * \<bar>c\<bar>" by linarith
  moreover have "c' - c = of_int (i - m) / ?t" "c = of_int m / ?t"
    using assms(3,4) by (simp_all add: diff_divide_distrib)
  ultimately have "9007199254740992 * \<bar>of_int (i - m)\<bar> / ?t \<le> 4 * \<bar>of_int m :: rat\<bar> / ?t"
    using t by (simp only: abs_divide abs_of_pos times_divide_eq_right)
  then have "9007199254740992 * \<bar>of_int (i - m)\<bar> \<le> 4 * \<bar>of_int m :: rat\<bar>"
    using t by (simp only: divide_le_cancel)
  then have "(of_int (9007199254740992 * \<bar>i - m\<bar>) :: rat) \<le> of_int (4 * \<bar>m\<bar>)" by simp
  then have "9007199254740992 * \<bar>i - m\<bar> \<le> 4 * \<bar>m\<bar>" by (simp only: of_int_le_iff)
  moreover have "\<bar>m\<bar> < 1000000000000000" using m by simp
  moreover have "A < 1" if "9007199254740992 * A \<le> 4 * B" "B < 1000000000000000" for A B :: int
    using that by linarith
  ultimately have "\<bar>i - m\<bar> < 1" by blast
  then have "i = m" by simp
  then show ?thesis using assms(3,4) by simp
qed


lemma grid_refine:
  assumes "j \<le> k"
  shows "(of_int i :: rat) / 10 powi j = of_int (i * 10 ^ nat (k - j)) / 10 powi k"
proof -
  have "(10::rat) powi k = 10 powi j * 10 powi (k - j)" by (subst power_int_add [symmetric]) auto
  also have "(10::rat) powi (k - j) = 10 ^ nat (k - j)" using assms by (simp add: power_int_def)
  finally show ?thesis by simp
qed

theorem repr_dec_of_decimal:
  fixes m :: int and k :: int
  assumes m: "\<bar>m\<bar> < 10 ^ 15"
  defines "c \<equiv> of_int m / 10 powi k"
  shows "repr_dec (f64 c) = c"
proof (cases "m = 0")
  case True
  then show ?thesis by (simp add: c_def repr_dec_def)
next
  case False
  define x where "x = f64 c"
  define E where "E = ilog 10 \<bar>x\<bar>"
  define k' where "k' = max k (- E)"
  have err: "9007199254740992 * \<bar>x - c\<bar> \<le> \<bar>c\<bar>" using f64_err [of c] by (simp add: x_def)
  have c0: "0 < \<bar>c\<bar>" using False by (simp add: c_def)
  have x0: "0 < \<bar>x\<bar>" "\<bar>c\<bar> \<le> 2 * \<bar>x\<bar>" "\<bar>x\<bar> \<le> 2 * \<bar>c\<bar>"
  proof -
    have "\<bar>c\<bar> \<le> \<bar>x - c\<bar> + \<bar>x\<bar>" "\<bar>x\<bar> \<le> \<bar>x - c\<bar> + \<bar>c\<bar>" by arith+
    then show "0 < \<bar>x\<bar>" "\<bar>c\<bar> \<le> 2 * \<bar>x\<bar>" "\<bar>x\<bar> \<le> 2 * \<bar>c\<bar>" using err c0 by linarith+
  qed
  have E: "10 powi E \<le> \<bar>x\<bar>" "\<bar>x\<bar> < 10 powi (E + 1)"
    using ilog_bounds [of 10 "\<bar>x\<bar>"] x0 by (simp_all add: E_def)
  define m' where "m' = m * 10 ^ nat (k' - k)"
  have k': "k \<le> k'" "- E \<le> k'" by (simp_all add: k'_def)
  have cm': "c = of_int m' / 10 powi k'"
    unfolding c_def m'_def by (rule grid_refine [OF k'(1)])
  have m': "\<bar>m'\<bar> < 10 ^ 15"
  proof (cases "k' = k")
    case True then show ?thesis using m by (simp add: m'_def)
  next
    case False
    then have "k' = - E" by (simp add: k'_def)
    then have "of_int \<bar>m'\<bar> = \<bar>c\<bar> / 10 powi E" using cm' by (simp add: power_int_minus abs_mult divide_simps)
    also have "\<dots> < 2 * 10 powi (E + 1) / 10 powi E"
      using x0(2) E(2) by (intro divide_strict_right_mono) auto
    also have "\<dots> = of_int 20" by (simp add: power_int_add)
    finally have "\<bar>m'\<bar> < 20" by (simp only: of_int_less_iff)
    then show ?thesis by simp
  qed
  have hi: "k' < - E + int 17"
  proof (rule ccontr)
    assume "\<not> k' < - E + int 17"
    then have "(10::rat) powi 17 \<le> 10 powi (E + k')" by (subst powi_le_iff) simp_all
    also have "\<dots> = 10 powi E * 10 powi k'" by (simp add: power_int_add)
    also have "\<dots> \<le> 2 * \<bar>c\<bar> * 10 powi k'"
      using E(1) x0(3) by (intro mult_right_mono) auto
    also have "\<dots> = of_int (2 * \<bar>m'\<bar>)" by (simp add: cm' abs_mult)
    finally have "(of_int (10 ^ 17) :: rat) \<le> of_int (2 * \<bar>m'\<bar>)" by simp
    then have "10 ^ 17 \<le> 2 * \<bar>m'\<bar>" by (simp only: of_int_le_iff)
    then show False using m' by simp
  qed
  have cand: "dec_cand x k' = c"
  proof -
    have "9007199254740992 * \<bar>x - c\<bar> * 10 powi k' \<le> \<bar>c\<bar> * 10 powi k'"
      using err by (intro mult_right_mono) auto
    also have "\<dots> = of_int \<bar>m'\<bar>" by (simp add: cm' abs_mult)
    also have "\<dots> < of_int (10 ^ 15)" using m' by (simp only: of_int_less_iff)
    finally have "\<bar>x - c\<bar> * 10 powi k' < 1 / 2" by simp
    moreover have "\<bar>x * 10 powi k' - of_int m'\<bar> = \<bar>x - c\<bar> * 10 powi k'"
    proof -
      have "x * 10 powi k' - of_int m' = (x - c) * 10 powi k'" by (simp add: cm' left_diff_distrib)
      then show ?thesis by (simp add: abs_mult)
    qed
    ultimately have "rhe (x * 10 powi k') = m'" by (intro rhe_near) simp
    then show ?thesis by (simp add: dec_cand_def cm')
  qed
  have "repr_from x (- E) 17 = c"
  proof (rule repr_from_first [OF _ cand k'(2) hi])
    show "f64 (dec_cand x k') = x" unfolding cand by (rule x_def [symmetric])
    fix j assume j: "- E \<le> j" "j \<le> k'" and hit: "f64 (dec_cand x j) = x"
    have "dec_cand x j = of_int (rhe (x * 10 powi j) * 10 ^ nat (k' - j)) / 10 powi k'"
      unfolding dec_cand_def by (rule grid_refine [OF j(2)])
    then show "dec_cand x j = c"
      using dec_grid_unique [OF _ hit cm' _ m'] x_def by blast
  qed
  then show ?thesis using x0(1) by (simp add: repr_dec_def x_def E_def)
qed


subsection \<open>Rounding half up and quantizing\<close>

lemma half_up_near: "\<bar>x - of_int m\<bar> < 1/2 \<Longrightarrow> half_up x = m"
proof -
  assume a: "\<bar>x - of_int m\<bar> < 1/2"
  have "\<lfloor>x + 1/2\<rfloor> = m" by (rule floor_unique) (use a in arith)+
  moreover have "\<lfloor>1/2 - x\<rfloor> = - m"
    by (rule floor_unique) (use a in \<open>simp only: of_int_minus, arith\<close>)+
  ultimately show ?thesis by (simp only: half_up_def) simp
qed

lemma half_up_of_int [simp]: "half_up (of_int m) = m"
  by (rule half_up_near) simp

lemma half_up_mono: "x \<le> y \<Longrightarrow> half_up x \<le> half_up y"
proof -
  assume xy: "x \<le> y"
  consider "0 \<le> x" | "x < 0" "0 \<le> y" | "y < 0" by linarith
  then show ?thesis
  proof cases
    case 1 then show ?thesis using xy by (simp add: half_up_def floor_mono)
  next
    case 2
    then have "0 \<le> \<lfloor>1/2 - x\<rfloor>" "0 \<le> \<lfloor>y + 1/2\<rfloor>" by (simp_all add: le_floor_iff)
    then have "- \<lfloor>1/2 - x\<rfloor> \<le> \<lfloor>y + 1/2\<rfloor>" by linarith
    then show ?thesis using 2 by (simp only: half_up_def not_le [symmetric] if_True if_False)
  next
    case 3
    then have "\<lfloor>1/2 - y\<rfloor> \<le> \<lfloor>1/2 - x\<rfloor>" using xy by (intro floor_mono) simp
    then show ?thesis using 3 xy by (simp add: half_up_def)
  qed
qed

lemma half_up_err: "\<bar>of_int (half_up x) - x\<bar> \<le> 1/2"
proof (cases "0 \<le> x")
  case True
  have "of_int \<lfloor>x + 1/2\<rfloor> \<le> x + 1/2" "x + 1/2 < of_int \<lfloor>x + 1/2\<rfloor> + 1" by linarith+
  then have "\<bar>of_int \<lfloor>x + 1/2\<rfloor> - x\<bar> \<le> 1/2" by arith
  then show ?thesis using True by (simp only: half_up_def if_True)
next
  case False
  have "of_int \<lfloor>1/2 - x\<rfloor> \<le> 1/2 - x" "1/2 - x < of_int \<lfloor>1/2 - x\<rfloor> + 1" by linarith+
  then have "\<bar>of_int (- \<lfloor>1/2 - x\<rfloor>) - x\<bar> \<le> 1/2" by (simp only: of_int_minus)
  then show ?thesis using False by (simp only: half_up_def if_False)
qed

lemma half_up_nonneg: "0 \<le> x \<Longrightarrow> 0 \<le> half_up x"
  using half_up_mono [of 0 x] half_up_of_int [of 0] by simp

lemma quantize_grid: "quantize n (of_int m / 10 powi n) = of_int m / 10 powi n"
  by (simp add: quantize_def)

lemma quantize_0 [simp]: "quantize n 0 = 0"
  using quantize_grid [of n 0] by simp

lemma quantize_idem [simp]: "quantize n (quantize n d) = quantize n d"
  by (subst (2 3) quantize_def) (rule quantize_grid)

lemma quantize_nonneg [simp]: "0 \<le> d \<Longrightarrow> 0 \<le> quantize n d"
  by (simp add: quantize_def half_up_nonneg)

lemma quantize_mono: "c \<le> d \<Longrightarrow> quantize n c \<le> quantize n d"
  unfolding quantize_def by (intro divide_right_mono of_int_le_iff [THEN iffD2] half_up_mono mult_right_mono) simp_all

lemma quantize_err: "\<bar>quantize n d - d\<bar> \<le> 1 / (2 * 10 powi n)"
proof -
  have t: "(0::rat) < 10 powi n" by simp
  have "quantize n d - d = (of_int (half_up (d * 10 powi n)) - d * 10 powi n) / 10 powi n"
    using t by (simp add: quantize_def diff_divide_distrib)
  then have "\<bar>quantize n d - d\<bar> = \<bar>of_int (half_up (d * 10 powi n)) - d * 10 powi n\<bar> / 10 powi n"
    using t by (simp only: abs_divide abs_of_pos)
  also have "\<dots> \<le> (1/2) / 10 powi n" using t by (intro divide_right_mono half_up_err) simp
  finally show ?thesis by simp
qed

lemma quantize_near:
  assumes "\<bar>d - of_int m / 10 powi n\<bar> < 1 / (2 * 10 powi n)"
  shows "quantize n d = of_int m / 10 powi n"
proof -
  have t: "(0::rat) < 10 powi n" by simp
  have "\<bar>d * 10 powi n - of_int m\<bar> = \<bar>d - of_int m / 10 powi n\<bar> * 10 powi n"
  proof -
    have "d * 10 powi n - of_int m = (d - of_int m / 10 powi n) * 10 powi n"
      using t by (simp add: left_diff_distrib)
    then show ?thesis using t by (simp only: abs_mult abs_of_pos)
  qed
  also have "\<dots> < 1 / (2 * 10 powi n) * 10 powi n" using assms t by (intro mult_strict_right_mono)
  also have "\<dots> = 1 / 2" using t by simp
  finally show ?thesis by (simp add: quantize_def half_up_near)
qed

section \<open>Numeric columns\<close>

text \<open>
  \<open>on_grid s N x\<close>: \<open>x\<close> is a multiple of \<open>10 ** -s\<close> whose unscaled value is below \<open>N\<close>; a
  \<open>Numeric(12, s)\<close> column holds values with \<open>N = 10 ^ 12\<close>. Sums of such values are exact in the
  decimal context.
\<close>

definition on_grid :: "int \<Rightarrow> int \<Rightarrow> rat \<Rightarrow> bool" where
  "on_grid s N x \<longleftrightarrow> (\<exists>z. \<bar>z\<bar> < N \<and> x = of_int z / 10 powi s)"

abbreviation numeric12 :: "int \<Rightarrow> rat \<Rightarrow> bool" where
  "numeric12 s \<equiv> on_grid s (10 ^ 12)"

lemma on_grid_0 [simp]: "0 < N \<Longrightarrow> on_grid s N 0"
  by (auto simp: on_grid_def intro!: exI [of _ 0])

lemma on_grid_add: "on_grid s M x \<Longrightarrow> on_grid s N y \<Longrightarrow> on_grid s (M + N) (x + y)"
  unfolding on_grid_def by (elim exE conjE, rule_tac x = "z + za" in exI) (auto simp: add_divide_distrib)

lemma on_grid_diff: "on_grid s M x \<Longrightarrow> on_grid s N y \<Longrightarrow> on_grid s (M + N) (x - y)"
  unfolding on_grid_def by (elim exE conjE, rule_tac x = "z - za" in exI) (auto simp: diff_divide_distrib)

lemma on_grid_weaken: "on_grid s M x \<Longrightarrow> M \<le> N \<Longrightarrow> on_grid s N x"
  by (auto simp: on_grid_def)

lemma on_grid_quantize: "on_grid s N x \<Longrightarrow> quantize s x = x"
  by (auto simp: on_grid_def quantize_grid)

lemma on_grid_dec28: "on_grid s N x \<Longrightarrow> N \<le> 10 ^ 28 \<Longrightarrow> dec28 x = x"
proof -
  assume "on_grid s N x" and N: "N \<le> 10 ^ 28"
  then obtain z where z: "\<bar>z\<bar> < N" and x: "x = of_int z / 10 powi s" by (auto simp: on_grid_def)
  from z N have "\<bar>z\<bar> < 10 ^ 28" by (rule order.strict_trans2)
  with x show ?thesis
    by (intro rnd_exact [where m = z and k = "- s"]) (simp_all add: power_int_minus divide_inverse)
qed

lemma quantize_on_grid: "\<bar>x\<bar> \<le> of_int N / 10 powi s \<Longrightarrow> on_grid s (N + 1) (quantize s x)"
proof -
  assume b: "\<bar>x\<bar> \<le> of_int N / 10 powi s"
  let ?z = "half_up (x * 10 powi s)"
  have t: "(0::rat) < 10 powi s" by simp
  have "\<bar>x * 10 powi s\<bar> = \<bar>x\<bar> * 10 powi s" by (simp only: abs_mult abs_of_pos [OF t])
  also have "\<dots> \<le> of_int N / 10 powi s * 10 powi s" using b t by (intro mult_right_mono) simp_all
  also have "\<dots> = of_int N" using t by simp
  finally have "x * 10 powi s \<le> of_int N" "of_int (- N) \<le> x * 10 powi s"
    by (simp_all only: abs_le_iff of_int_minus minus_le_iff)
  then have "half_up (x * 10 powi s) \<le> half_up (of_int N)" "half_up (of_int (- N)) \<le> half_up (x * 10 powi s)"
    by (auto intro: half_up_mono simp del: half_up_of_int of_int_minus)
  then have "\<bar>?z\<bar> < N + 1" by (simp only: half_up_of_int)
  then show ?thesis unfolding on_grid_def quantize_def by blast
qed

lemma dec28_mono: "x \<le> y \<Longrightarrow> dec28 x \<le> dec28 y"
  by (simp add: rnd_mono)

lemma dec28_nonneg [simp]: "0 \<le> x \<Longrightarrow> 0 \<le> dec28 x"
  by (simp add: rnd_nonneg)

lemma repr_dec_mono:
  assumes "is_f64 x" "is_f64 y"
  shows "repr_dec x \<le> repr_dec y \<longleftrightarrow> x \<le> y"
proof
  assume "repr_dec x \<le> repr_dec y"
  then have "f64 (repr_dec x) \<le> f64 (repr_dec y)" by (rule f64_mono)
  then show "x \<le> y" using assms by simp
next
  assume xy: "x \<le> y"
  show "repr_dec x \<le> repr_dec y"
  proof (rule ccontr)
    assume "\<not> repr_dec x \<le> repr_dec y"
    then have "f64 (repr_dec y) \<le> f64 (repr_dec x)" by (intro f64_mono) simp
    then have "x = y" using assms xy by simp
    then show False using \<open>\<not> repr_dec x \<le> repr_dec y\<close> by simp
  qed
qed

lemma is_f64_dyadic: "\<bar>m\<bar> < 2 ^ 53 \<Longrightarrow> is_f64 (of_int m / 2 ^ k)"
  unfolding is_f64_def by (rule rnd_exact [where m = m and k = "- int k"]) (simp_all add: power_int_minus divide_inverse)

lemma f64_zero: "f64 x = 0 \<Longrightarrow> x = 0"
  using f64_err [of x] by (auto simp: abs_if divide_simps split: if_splits)

lemma fadd_mono: "a \<le> a' \<Longrightarrow> b \<le> b' \<Longrightarrow> fadd a b \<le> fadd a' b'"
  by (simp add: fadd_def f64_mono)

lemma fmul_mono: "0 \<le> a \<Longrightarrow> a \<le> a' \<Longrightarrow> 0 \<le> b \<Longrightarrow> b \<le> b' \<Longrightarrow> fmul a b \<le> fmul a' b'"
  by (simp add: fmul_def f64_mono mult_mono)

lemma fdiv_mono: "a \<le> a' \<Longrightarrow> 0 \<le> b \<Longrightarrow> fdiv a b \<le> fdiv a' b"
  by (simp add: fdiv_def f64_mono divide_right_mono)

lemma py_round_mono: "x \<le> y \<Longrightarrow> py_round n x \<le> py_round n y"
  unfolding py_round_def
  by (intro f64_mono divide_right_mono of_int_le_iff [THEN iffD2] rhe_mono mult_right_mono) simp_all

end
