(* ===== verification/PyValue.thy ===== *)
theory PyValue
  imports PyNum "HOL-Library.AList"
begin

text \<open>
  The dynamically typed values that reach the program as decoded JSON, and the built-ins it
  applies to them. Exceptions are values of \<open>pyerr\<close>; a computation that may raise has type
  \<open>pyerr + 'a\<close>. A dictionary is an association list in insertion order.
\<close>

datatype pyval = VNone | VBool bool | VInt int | VFloat pyfloat | VStr string
  | VList "pyval list" | VDict "(string \<times> pyval) list"

datatype pyerr = TypeError | ValueError | AttributeError | KeyError | HTTPError nat

section \<open>Exceptions\<close>

fun try_then :: "'e + 'a \<Rightarrow> ('a \<Rightarrow> 'e + 'b) \<Rightarrow> 'e + 'b" where
  "try_then (Inl e) f = Inl e"
| "try_then (Inr a) f = f a"

lemma try_then_Inr: "try_then r f = Inr b \<longleftrightarrow> (\<exists>a. r = Inr a \<and> f a = Inr b)"
  by (cases r) auto

lemma try_then_Inl: "try_then r f = Inl e \<longleftrightarrow> r = Inl e \<or> (\<exists>a. r = Inr a \<and> f a = Inl e)"
  by (cases r) auto

lemmas try_then_iff = try_then_Inr try_then_Inl

fun map_try :: "('a \<Rightarrow> 'e + 'b) \<Rightarrow> 'a list \<Rightarrow> 'e + 'b list" where
  \<comment> \<open>a list comprehension whose element expression may raise\<close>
  "map_try f [] = Inr []"
| "map_try f (x # xs) = try_then (f x) (\<lambda>y. try_then (map_try f xs) (\<lambda>ys. Inr (y # ys)))"

lemma map_try_Inr: "map_try f xs = Inr ys \<longleftrightarrow> list_all2 (\<lambda>x y. f x = Inr y) xs ys"
  by (induction xs arbitrary: ys) (auto simp: try_then_iff list_all2_Cons1)

section \<open>Dictionaries, truth values and strings\<close>

fun val_get :: "pyval \<Rightarrow> string \<Rightarrow> pyval \<Rightarrow> pyerr + pyval" where
  \<comment> \<open>\<open>v.get(k, default)\<close>\<close>
  "val_get (VDict d) k dflt = Inr (case map_of d k of None \<Rightarrow> dflt | Some v \<Rightarrow> v)"
| "val_get _ k dflt = Inl AttributeError"

fun truthy :: "pyval \<Rightarrow> bool" where
  "truthy VNone = False"
| "truthy (VBool b) = b"
| "truthy (VInt n) = (n \<noteq> 0)"
| "truthy (VFloat x) = (x \<noteq> 0)"
| "truthy (VStr s) = (s \<noteq> [])"
| "truthy (VList vs) = (vs \<noteq> [])"
| "truthy (VDict d) = (d \<noteq> [])"

definition is_space :: "char \<Rightarrow> bool" where
  "is_space c \<longleftrightarrow> c \<in> set [CHR '' '', CHR 0x09, CHR 0x0A, CHR 0x0B, CHR 0x0C, CHR 0x0D,
     CHR 0x1C, CHR 0x1D, CHR 0x1E, CHR 0x1F]"

definition strip :: "string \<Rightarrow> string" where
  "strip s = rev (dropWhile is_space (rev (dropWhile is_space s)))"

definition is_digit :: "char \<Rightarrow> bool" where
  "is_digit c \<longleftrightarrow> c \<in> set ''0123456789''"

definition digit_val :: "char \<Rightarrow> int" where
  "digit_val c = int (of_char c) - 48"

section \<open>The built-in \<open>float\<close>\<close>

text \<open>
  The decimal literal grammar of \<open>float(str)\<close>: sign, digits with single underscores between
  them, fraction, exponent. The spellings of infinities and NaN denote no number of this model
  and are rejected.
\<close>

fun digits_part :: "bool \<Rightarrow> string \<Rightarrow> int \<times> nat \<times> string" where
  \<comment> \<open>value, number of digits and rest; the flag says whether a digit came just before\<close>
  "digits_part prev [] = (0, 0, [])"
| "digits_part prev (c # cs) =
     (if is_digit c then let (v, n, r) = digits_part True cs in (digit_val c * 10 ^ n + v, Suc n, r)
      else if c = CHR ''_'' \<and> prev \<and> cs \<noteq> [] \<and> is_digit (hd cs) then digits_part False cs
      else (0, 0, c # cs))"

definition sign_part :: "string \<Rightarrow> int \<times> string" where
  "sign_part s = (case s of
     c # cs \<Rightarrow> if c = CHR ''-'' then (- 1, cs) else if c = CHR ''+'' then (1, cs) else (1, s)
   | [] \<Rightarrow> (1, s))"

definition exp_part :: "string \<Rightarrow> int option" where
  "exp_part s = (case s of [] \<Rightarrow> Some 0
   | c # cs \<Rightarrow> if c = CHR ''e'' \<or> c = CHR ''E'' then
       (let (g, r) = sign_part cs; (v, n, rest) = digits_part False r
        in if n = 0 \<or> rest \<noteq> [] then None else Some (g * v))
     else None)"

definition parse_float :: "string \<Rightarrow> pyfloat option" where
  "parse_float s =
     (let (g, r) = sign_part (strip s);
          (iv, ni, r1) = digits_part False r;
          (fv, nf, r2) = (case r1 of c # cs \<Rightarrow> if c = CHR ''.'' then digits_part False cs else (0, 0, r1)
                                   | [] \<Rightarrow> (0, 0, r1))
      in if ni + nf = 0 then None
         else map_option (\<lambda>e. f64 (of_int g * (of_int iv + of_int fv / 10 ^ nf) * 10 powi e)) (exp_part r2))"

fun py_float :: "pyval \<Rightarrow> pyerr + pyfloat" where
  "py_float (VFloat x) = Inr x"
| "py_float (VInt n) = Inr (f64 (of_int n))"
| "py_float (VBool b) = Inr (if b then 1 else 0)"
| "py_float (VStr s) = (case parse_float s of None \<Rightarrow> Inl ValueError | Some x \<Rightarrow> Inr x)"
| "py_float _ = Inl TypeError"

end
