(* ===== verification/Pricing.thy ===== *)
theory Pricing
  imports PyValue
begin

text \<open>
  The pricing engine (\<open>app/pricing/engine.py\<close>): totals of line items and estimates, and the
  validator of estimates. Amounts are floats; the engine goes through \<open>Decimal(str(x))\<close> to round
  to cents. The models below round exactly where the code does; the theorems say when that is
  invisible (amounts that are whole numbers of cents are computed exactly).
\<close>

section \<open>Rounding helpers\<close>

definition LINE_ITEM_TYPES :: "string list" where
  "LINE_ITEM_TYPES = [''labor'', ''materials'', ''fee'']"

definition to_decimal :: "pyfloat \<Rightarrow> pydec" where
  "to_decimal value = repr_dec value"

definition round_currency :: "pyfloat \<Rightarrow> pyfloat" where
  "round_currency value = f64 (quantize 2 (to_decimal value))"

definition round_currency_decimal :: "pydec \<Rightarrow> pyfloat" where
  "round_currency_decimal d = f64 (quantize 2 d)"

definition compute_line_item_total :: "pyfloat \<Rightarrow> pyfloat \<Rightarrow> pyfloat" where
  "compute_line_item_total quantity rate =
     (let q = to_decimal quantity; r = to_decimal rate in round_currency_decimal (dec28 (q * r)))"

section \<open>The built-in \<open>sum\<close>\<close>

text \<open>
  CPython 3.12's \<open>sum\<close> keeps an integer while the items are integers and switches to
  compensated (Neumaier) summation at the first float; a value of another type raises. The
  items come from a generator, so an item is a computation that may raise when it is reached.
  Integers are taken to fit in a C long.
\<close>

fun sum_float :: "pyfloat \<Rightarrow> pyfloat \<Rightarrow> (pyerr + pyval) list \<Rightarrow> pyerr + pyfloat" where
  "sum_float hi lo [] = Inr (if lo \<noteq> 0 then fadd hi lo else hi)"
| "sum_float hi lo (Inl e # vs) = Inl e"
| "sum_float hi lo (Inr (VFloat x) # vs) =
     (let t = fadd hi x;
          lo' = (if \<bar>x\<bar> \<le> \<bar>hi\<bar> then fadd lo (fadd (fsub hi t) x) else fadd lo (fadd (fsub x t) hi))
      in sum_float t lo' vs)"
| "sum_float hi lo (Inr (VInt n) # vs) = sum_float (fadd hi (f64 (of_int n))) lo vs"
| "sum_float hi lo (Inr (VBool b) # vs) = sum_float (fadd hi (if b then 1 else 0)) lo vs"
| "sum_float hi lo (Inr _ # vs) = Inl TypeError"

fun sum_int :: "int \<Rightarrow> (pyerr + pyval) list \<Rightarrow> pyerr + pyval" where
  "sum_int acc [] = Inr (VInt acc)"
| "sum_int acc (Inl e # vs) = Inl e"
| "sum_int acc (Inr (VInt n) # vs) = sum_int (acc + n) vs"
| "sum_int acc (Inr (VBool b) # vs) = sum_int (acc + (if b then 1 else 0)) vs"
| "sum_int acc (Inr (VFloat x) # vs) =
     try_then (sum_float (f64 (of_int acc)) 0 (Inr (VFloat x) # vs)) (\<lambda>r. Inr (VFloat r))"
| "sum_int acc (Inr _ # vs) = Inl TypeError"

definition py_sum :: "(pyerr + pyval) list \<Rightarrow> pyerr + pyval" where
  "py_sum vs = sum_int 0 vs"

fun round_currency_val :: "pyval \<Rightarrow> pyfloat" where
  \<comment> \<open>\<open>_round_currency\<close> of a result of \<open>sum\<close>: \<open>str\<close> of an int is that int\<close>
  "round_currency_val (VInt n) = f64 (quantize 2 (of_int n))"
| "round_currency_val (VFloat x) = round_currency x"
| "round_currency_val _ = 0"

definition compute_subtotal :: "pyval list \<Rightarrow> pyerr + pyfloat" where
  "compute_subtotal line_items =
     try_then (py_sum (map (\<lambda>item. val_get item ''total'' (VInt 0)) line_items))
       (\<lambda>s. Inr (round_currency_val s))"

definition compute_total :: "pyfloat \<Rightarrow> pyfloat \<Rightarrow> pyfloat" where
  "compute_total subtotal tax = round_currency (fadd subtotal tax)"

definition apply_markup :: "pyfloat \<Rightarrow> pyfloat \<Rightarrow> pyfloat" where
  "apply_markup v markup_percent = round_currency (fmul v (fadd 1 (fdiv markup_percent 100)))"

definition apply_rounding :: "pyfloat \<Rightarrow> string \<Rightarrow> pyfloat" where
  "apply_rounding v rule =
     (if rule = ''nearest_dollar'' then f64 (quantize 0 (to_decimal v))
      else if rule = ''30_min'' then round_currency v
      else if rule = ''15_min'' then round_currency v
      else round_currency v)"

section \<open>Recomputing an estimate\<close>

fun dict_set :: "(string \<times> pyval) list \<Rightarrow> string \<Rightarrow> pyval \<Rightarrow> (string \<times> pyval) list" where
  "dict_set d k v = AList.update k v d"

fun recompute_line_item :: "pyval \<Rightarrow> pyerr + pyval" where
  "recompute_line_item (VDict item) =
     try_then (try_then (val_get (VDict item) ''quantity'' (VInt 0)) py_float) (\<lambda>qty.
     try_then (try_then (val_get (VDict item) ''rate'' (VInt 0)) py_float) (\<lambda>rate.
       Inr (VDict (dict_set item ''total'' (VFloat (compute_line_item_total qty rate))))))"
| "recompute_line_item _ = Inl AttributeError"

fun iterate :: "pyval \<Rightarrow> pyerr + pyval list" where
  \<comment> \<open>\<open>for x in v\<close>: a string yields its characters, a dictionary its keys\<close>
  "iterate (VList vs) = Inr vs"
| "iterate (VStr s) = Inr (map (\<lambda>c. VStr [c]) s)"
| "iterate (VDict d) = Inr (map (VStr \<circ> fst) d)"
| "iterate _ = Inl TypeError"

definition recompute_estimate :: "(string \<times> pyval) list \<Rightarrow> pyerr + (string \<times> pyval) list" where
  "recompute_estimate estimate =
     try_then (val_get (VDict estimate) ''line_items'' (VList [])) (\<lambda>lis.
     try_then (iterate lis) (\<lambda>raw.
     try_then (map_try recompute_line_item raw) (\<lambda>items.
     try_then (compute_subtotal items) (\<lambda>subtotal.
     try_then (try_then (val_get (VDict estimate) ''tax'' (VInt 0)) py_float) (\<lambda>tax0.
       let tax = round_currency tax0; total = compute_total subtotal tax in
       Inr (dict_set (dict_set (dict_set estimate ''line_items'' (VList items))
              ''subtotal'' (VFloat subtotal)) ''total'' (VFloat total)))))))"

section \<open>Validation\<close>

text \<open>The messages, with the values the format strings insert.\<close>

datatype price_error =
    EName nat | EItemType nat pyval
  | EQuantityRequired nat | EQuantityNegative nat pyfloat | EQuantityNaN nat pyval
  | ERateRequired nat | ERateNegative nat pyfloat | ERateNaN nat pyval
  | ETotalMismatch nat pyval pyfloat | ETotalNaN nat pyval
  | ELineItemsNotList
  | ESubtotalMismatch pyval pyfloat | ESubtotalNaN pyval
  | EEstTotalMismatch pyval pyfloat | EEstTotalNaN pyval

definition check_name :: "nat \<Rightarrow> pyval \<Rightarrow> price_error list" where
  \<comment> \<open>\<open>str(name).strip()\<close> of a true value that is no string is never empty\<close>
  "check_name idx name =
     (if \<not> truthy name \<or> (case name of VStr s \<Rightarrow> strip s = [] | _ \<Rightarrow> False) then [EName idx] else [])"

definition check_number :: "pyval \<Rightarrow> price_error \<Rightarrow> (pyfloat \<Rightarrow> price_error) \<Rightarrow> (pyval \<Rightarrow> price_error) \<Rightarrow> price_error list" where
  \<comment> \<open>the try block that both \<open>quantity\<close> and \<open>rate\<close> go through\<close>
  "check_number v required negative nan =
     (if v = VNone then [required]
      else (case py_float v of Inr x \<Rightarrow> if x < 0 then [negative x] else [] | Inl _ \<Rightarrow> [nan v]))"

definition check_close :: "pyval \<Rightarrow> pyfloat \<Rightarrow> price_error \<Rightarrow> price_error \<Rightarrow> price_error list" where
  \<comment> \<open>\<open>abs(float(provided) - computed) > 0.02\<close> inside its try block\<close>
  "check_close provided computed mismatch nan =
     (case py_float provided of
        Inr x \<Rightarrow> if f64 (2/100) < \<bar>fsub x computed\<bar> then [mismatch] else []
      | Inl _ \<Rightarrow> [nan])"

definition validate_line_item :: "pyval \<Rightarrow> nat \<Rightarrow> pyerr + price_error list" where
  "validate_line_item item idx =
     try_then (val_get item ''name'' VNone) (\<lambda>name.
     try_then (val_get item ''item_type'' VNone) (\<lambda>item_type.
     try_then (val_get item ''quantity'' VNone) (\<lambda>quantity.
     try_then (val_get item ''rate'' VNone) (\<lambda>rate.
     let errors = check_name idx name
           @ (if item_type \<in> VStr ` set LINE_ITEM_TYPES then [] else [EItemType idx item_type])
           @ check_number quantity (EQuantityRequired idx) (EQuantityNegative idx) (EQuantityNaN idx)
           @ check_number rate (ERateRequired idx) (ERateNegative idx) (ERateNaN idx) in
     try_then (try_then (val_get item ''quantity'' (VInt 0)) py_float) (\<lambda>q.
     try_then (try_then (val_get item ''rate'' (VInt 0)) py_float) (\<lambda>r.
     let computed_total = compute_line_item_total q r in
     try_then (val_get item ''total'' (VInt 0)) (\<lambda>provided_total.
       Inr (errors @ check_close provided_total computed_total
              (ETotalMismatch idx provided_total computed_total) (ETotalNaN idx provided_total)))))))))"

fun validate_items :: "nat \<Rightarrow> pyval list \<Rightarrow> pyerr + price_error list" where
  "validate_items idx [] = Inr []"
| "validate_items idx (item # items) =
     try_then (validate_line_item item idx) (\<lambda>es.
     try_then (validate_items (Suc idx) items) (\<lambda>es'. Inr (es @ es')))"

definition validate_estimate :: "(string \<times> pyval) list \<Rightarrow> pyerr + price_error list" where
  "validate_estimate estimate =
     try_then (val_get (VDict estimate) ''line_items'' (VList [])) (\<lambda>lis.
     case lis of
       VList line_items \<Rightarrow>
         try_then (validate_items 0 line_items) (\<lambda>errors.
         try_then (compute_subtotal line_items) (\<lambda>computed_subtotal.
         try_then (val_get (VDict estimate) ''subtotal'' VNone) (\<lambda>provided_subtotal.
         let errors1 = (if provided_subtotal = VNone then []
               else check_close provided_subtotal computed_subtotal
                      (ESubtotalMismatch provided_subtotal computed_subtotal) (ESubtotalNaN provided_subtotal)) in
         try_then (try_then (val_get (VDict estimate) ''tax'' (VInt 0)) py_float) (\<lambda>tax.
         let computed_total = compute_total computed_subtotal tax in
         try_then (val_get (VDict estimate) ''total'' VNone) (\<lambda>provided_total.
         let errors2 = (if provided_total = VNone then []
               else check_close provided_total computed_total
                      (EEstTotalMismatch provided_total computed_total) (EEstTotalNaN provided_total))
         in Inr (errors @ errors1 @ errors2))))))
     | _ \<Rightarrow> Inr [ELineItemsNotList])"


section \<open>Line item totals carry no floating-point artefacts\<close>

text \<open>
  For a quantity and a rate that are decimals of at most 15 digits (whose product has at
  most 28), the line item total is the exact product rounded half up to cents, whatever the
  binary representation of the two floats.
\<close>

theorem line_item_total_exact:
  fixes m n k l :: int
  assumes m: "\<bar>m\<bar> < 10 ^ 15" and n: "\<bar>n\<bar> < 10 ^ 15" and mn: "\<bar>m * n\<bar> < 10 ^ 28"
  shows "compute_line_item_total (f64 (of_int m / 10 powi k)) (f64 (of_int n / 10 powi l)) =
           f64 (quantize 2 ((of_int m / 10 powi k) * (of_int n / 10 powi l)))"
proof -
  let ?p = "(of_int m / 10 powi k) * (of_int n / 10 powi l) :: rat"
  have "(10::rat) powi (- (k + l)) = 1 / (10 powi k * 10 powi l)"
    by (subst power_int_minus) (subst power_int_add, simp_all add: divide_inverse)
  then have "?p = of_int (m * n) * of_int 10 powi (- (k + l))" by simp
  then have "dec28 ?p = ?p" by (rule rnd_exact [where m = "m * n", rotated -1]) (use mn in simp_all)
  then show ?thesis
    by (simp add: compute_line_item_total_def to_decimal_def round_currency_decimal_def
        repr_dec_of_decimal [OF m] repr_dec_of_decimal [OF n])
qed

theorem line_item_total_exact_witness:
  "compute_line_item_total (f64 (3/2)) (f64 (9999/100)) = f64 (14999/100)"
proof -
  have "compute_line_item_total (f64 (of_int 15 / 10 powi 1)) (f64 (of_int 9999 / 10 powi 2)) =
      f64 (quantize 2 ((of_int 15 / 10 powi 1) * (of_int 9999 / 10 powi 2)))"
    by (rule line_item_total_exact) simp_all
  moreover have "quantize 2 (29997/200) = 14999/100" by (simp add: num_eval)
  ultimately show ?thesis by simp
qed


section \<open>Subtotals are exact to the cent\<close>

definition cents :: "int \<Rightarrow> pyfloat" where
  \<comment> \<open>the float of an amount of money in cents\<close>
  "cents c = f64 (of_int c / 100)"

lemma fadd_close: "\<bar>a + b\<bar> \<le> 300000000 \<Longrightarrow> \<bar>fadd a b - (a + b)\<bar> \<le> 4 / 100000000"
proof -
  assume "\<bar>a + b\<bar> \<le> 300000000"
  moreover have "9007199254740992 * \<bar>fadd a b - (a + b)\<bar> \<le> \<bar>a + b\<bar>"
    using f64_err [of "a + b"] by (simp add: fadd_def)
  ultimately have "9007199254740992 * \<bar>fadd a b - (a + b)\<bar> \<le> 300000000" by (rule order.trans [rotated])
  then show ?thesis by simp
qed

lemma fsub_close: "\<bar>a - b\<bar> \<le> 300000000 \<Longrightarrow> \<bar>fsub a b - (a - b)\<bar> \<le> 4 / 100000000"
  using fadd_close [of a "- b"] by (simp add: fadd_def fsub_def)

lemma cents_close: "\<bar>of_int c / 100\<bar> \<le> (100000000 :: rat) \<Longrightarrow> \<bar>cents c - of_int c / 100\<bar> \<le> 4 / 100000000"
  using fadd_close [of "of_int c / 100" 0] by (simp add: fadd_def cents_def)

lemma compensation_close:
  assumes hi: "\<bar>hi\<bar> \<le> 100000001" and x: "\<bar>x\<bar> \<le> 100000001" and lo: "\<bar>lo\<bar> \<le> 1"
  shows "\<bar>fadd lo (fadd (fsub hi (fadd hi x)) x)\<bar> \<le> \<bar>lo\<bar> + 2 / 10000000"
proof -
  define t where "t = fadd hi x"
  define d where "d = fsub hi t"
  define u where "u = fadd d x"
  have "\<bar>hi + x\<bar> \<le> 300000000" using hi x by arith
  then have t: "\<bar>t - (hi + x)\<bar> \<le> 4 / 100000000" unfolding t_def by (rule fadd_close)
  then have "\<bar>hi - t\<bar> \<le> 300000000" using x by arith
  then have d: "\<bar>d - (hi - t)\<bar> \<le> 4 / 100000000" unfolding d_def by (rule fsub_close)
  then have dx: "\<bar>d + x\<bar> \<le> 8 / 100000000" using t by arith
  then have "\<bar>d + x\<bar> \<le> 300000000" by arith
  then have "\<bar>u - (d + x)\<bar> \<le> 4 / 100000000" unfolding u_def by (rule fadd_close)
  then have u: "\<bar>u\<bar> \<le> 12 / 100000000" using dx by arith
  then have "\<bar>lo + u\<bar> \<le> 300000000" using lo by arith
  then have "\<bar>fadd lo u - (lo + u)\<bar> \<le> 4 / 100000000" by (rule fadd_close)
  then have "\<bar>fadd lo u\<bar> \<le> \<bar>lo\<bar> + 2 / 10000000" using u by arith
  then show ?thesis by (simp only: u_def d_def t_def)
qed

lemma sum_float_close:
  assumes "\<bar>hi - T\<bar> \<le> of_nat j * (2 / 10000000)" "\<bar>lo\<bar> \<le> of_nat j * (2 / 10000000)"
    and "\<bar>T\<bar> + (\<Sum>c\<leftarrow>cs. \<bar>of_int c / 100\<bar>) \<le> 100000000" "j + length cs \<le> 10000"
  shows "\<exists>r. sum_float hi lo (map (\<lambda>c. Inr (VFloat (cents c))) cs) = Inr r \<and>
           \<bar>r - (T + of_int (sum_list cs) / 100)\<bar> \<le> 41 / 10000"
  using assms
proof (induction cs arbitrary: hi lo T j)
  case Nil
  have "of_nat j * (2 / 10000000) \<le> (10000 * (2 / 10000000) :: rat)"
    using Nil.prems(4) by (intro mult_right_mono) simp_all
  then have b: "\<bar>hi - T\<bar> \<le> 2 / 1000" "\<bar>lo\<bar> \<le> 2 / 1000" using Nil.prems(1,2) by simp_all
  moreover have "\<bar>T\<bar> \<le> 100000000" using Nil.prems(3) by simp
  ultimately have "\<bar>hi + lo\<bar> \<le> 300000000" by arith
  then have "\<bar>fadd hi lo - (hi + lo)\<bar> \<le> 4 / 100000000" by (rule fadd_close)
  then have "\<bar>fadd hi lo - T\<bar> \<le> 41 / 10000" "\<bar>hi - T\<bar> \<le> 41 / 10000" using b by arith+
  then show ?case by simp
next
  case (Cons c cs)
  define x where "x = cents c"
  have small: "of_nat j * (2 / 10000000) \<le> (10000 * (2 / 10000000) :: rat)"
    using Cons.prems(4) by (intro mult_right_mono) simp_all
  have rest: "0 \<le> (\<Sum>c\<leftarrow>cs. \<bar>of_int c / 100 :: rat\<bar>)" by (rule sum_list_nonneg) auto
  have T: "\<bar>T\<bar> + \<bar>of_int c / 100\<bar> + (\<Sum>c\<leftarrow>cs. \<bar>of_int c / 100 :: rat\<bar>) \<le> 100000000"
    using Cons.prems(3) by simp
  then have x: "\<bar>x - of_int c / 100\<bar> \<le> 4 / 100000000" unfolding x_def using rest by (intro cents_close) linarith
  have "\<bar>hi + x\<bar> \<le> 300000000" using T rest x small Cons.prems(1) by linarith
  then have t: "\<bar>fadd hi x - (hi + x)\<bar> \<le> 4 / 100000000" by (rule fadd_close)
  have hi: "\<bar>hi\<bar> \<le> 100000001" using T rest small Cons.prems(1) by linarith
  have xb: "\<bar>x\<bar> \<le> 100000001" using T rest x by linarith
  have lo: "\<bar>lo\<bar> \<le> 1" using small Cons.prems(2) by linarith
  define lo' where "lo' = (if \<bar>x\<bar> \<le> \<bar>hi\<bar> then fadd lo (fadd (fsub hi (fadd hi x)) x)
                                       else fadd lo (fadd (fsub x (fadd hi x)) hi))"
  have "\<bar>lo'\<bar> \<le> \<bar>lo\<bar> + 2 / 10000000"
    using compensation_close [OF hi xb lo] compensation_close [OF xb hi lo]
    by (simp add: lo'_def fadd_def add.commute)
  then have lo'b: "\<bar>lo'\<bar> \<le> of_nat (Suc j) * (2 / 10000000)" using Cons.prems(2) by (simp add: algebra_simps)
  have "\<bar>fadd hi x - (T + of_int c / 100)\<bar> \<le> \<bar>hi - T\<bar> + 2 / 10000000" using t x by arith
  then have "\<bar>fadd hi x - (T + of_int c / 100)\<bar> \<le> of_nat (Suc j) * (2 / 10000000)"
    using Cons.prems(1) by (simp add: algebra_simps)
  from Cons.IH [OF this lo'b] T Cons.prems(4)
  have "\<exists>r. sum_float (fadd hi x) lo' (map (\<lambda>c. Inr (VFloat (cents c))) cs) = Inr r \<and>
      \<bar>r - (T + of_int c / 100 + of_int (sum_list cs) / 100)\<bar> \<le> 41 / 10000"
    by simp
  moreover have "sum_float hi lo (map (\<lambda>c. Inr (VFloat (cents c))) (c # cs)) =
      sum_float (fadd hi x) lo' (map (\<lambda>c. Inr (VFloat (cents c))) cs)"
    unfolding x_def lo'_def by (simp add: Let_def)
  ultimately show ?case by (simp only: sum_list.Cons of_int_add add_divide_distrib add.assoc)
qed


lemma sum_float_is_f64: "sum_float hi lo vs = Inr r \<Longrightarrow> is_f64 hi \<Longrightarrow> is_f64 r"
  by (induction hi lo vs rule: sum_float.induct) (auto simp: Let_def fadd_def split: if_splits)

definition has_total :: "pyval \<Rightarrow> int \<Rightarrow> bool" where
  "has_total item c \<longleftrightarrow> val_get item ''total'' (VInt 0) = Inr (VFloat (cents c))"

lemma round_currency_near:
  assumes r: "is_f64 r" and c: "\<bar>of_int c / 100\<bar> \<le> (100000000 :: rat)"
    and d: "\<bar>r - of_int c / 100\<bar> \<le> 41 / 10000"
  shows "round_currency r = cents c"
proof -
  have e: "9007199254740992 * \<bar>r - repr_dec r\<bar> \<le> \<bar>repr_dec r\<bar>" using repr_dec_err [OF r] by simp
  have "\<bar>repr_dec r\<bar> \<le> \<bar>r - repr_dec r\<bar> + \<bar>r\<bar>" "0 \<le> \<bar>r\<bar>" by arith+
  moreover have "A \<le> 2 * R" if "A \<le> D + R" "0 \<le> R" "9007199254740992 * D \<le> A" for A D R :: rat
    using that by linarith
  ultimately have b: "\<bar>repr_dec r\<bar> \<le> 2 * \<bar>r\<bar>" using e by blast
  then have "\<bar>repr_dec r\<bar> \<le> 300000000" using c d by arith
  then have "\<bar>r - repr_dec r\<bar> \<le> 4 / 100000000" using e by simp
  then have "\<bar>repr_dec r - of_int c / 100\<bar> < 1 / 200" using d by arith
  then have "\<bar>repr_dec r - of_int c / 10 powi 2\<bar> < 1 / (2 * 10 powi 2)" by simp
  then have "quantize 2 (repr_dec r) = of_int c / 10 powi 2" by (rule quantize_near)
  moreover have "(10::rat) powi 2 = 100" by simp
  ultimately show ?thesis by (simp only: round_currency_def to_decimal_def cents_def)
qed

lemma compute_subtotal_cents:
  assumes items: "list_all2 has_total items cs" and n: "length items \<le> 10000"
    and b: "(\<Sum>c\<leftarrow>cs. \<bar>c\<bar>) \<le> 10000000000"
  shows "compute_subtotal items = Inr (cents (sum_list cs))"
proof -
  have l: "length cs = length items" using items by (simp add: list_all2_lengthD)
  have m: "map (\<lambda>item. val_get item ''total'' (VInt 0)) items = map (\<lambda>c. Inr (VFloat (cents c))) cs"
    using items by (induction rule: list_all2_induct) (simp_all add: has_total_def)
  have s: "(\<Sum>c\<leftarrow>cs. \<bar>of_int c / 100 :: rat\<bar>) = of_int (\<Sum>c\<leftarrow>cs. \<bar>c\<bar>) / 100"
    by (induction cs) (simp_all add: add_divide_distrib)
  have "(of_int (\<Sum>c\<leftarrow>cs. \<bar>c\<bar>) :: rat) \<le> of_int 10000000000" using b by (simp only: of_int_le_iff)
  then have sb: "(\<Sum>c\<leftarrow>cs. \<bar>of_int c / 100 :: rat\<bar>) \<le> 100000000" unfolding s by simp
  show ?thesis
  proof (cases cs)
    case Nil
    then show ?thesis using l by (simp add: compute_subtotal_def py_sum_def cents_def)
  next
    case (Cons c cs')
    obtain r where r: "sum_float 0 0 (map (\<lambda>c. Inr (VFloat (cents c))) cs) = Inr r"
        and d: "\<bar>r - of_int (sum_list cs) / 100\<bar> \<le> 41 / 10000"
      using sum_float_close [of 0 0 0 0 cs] sb l n by auto
    have "\<bar>sum_list cs\<bar> \<le> (\<Sum>c\<leftarrow>cs. \<bar>c\<bar>)" by (rule sum_list_abs)
    then have "(of_int \<bar>sum_list cs\<bar> :: rat) \<le> of_int 10000000000" using b by (simp only: of_int_le_iff)
    then have "\<bar>of_int (sum_list cs) / 100\<bar> \<le> (100000000 :: rat)" by simp
    then have "round_currency r = cents (sum_list cs)"
      using round_currency_near [OF sum_float_is_f64 [OF r]] d by simp
    then show ?thesis using r Cons m by (simp add: compute_subtotal_def py_sum_def)
  qed
qed

text \<open>
  For up to ten thousand line items whose totals are whole numbers of cents (as floats) and
  add up to at most one hundred million in absolute value, the subtotal is the float of the
  exact sum of the cents: no rounding error of the float summation survives.
\<close>

theorem subtotal_exact:
  assumes "list_all2 has_total items cs" "length items \<le> 10000" "(\<Sum>c\<leftarrow>cs. \<bar>c\<bar>) \<le> 10000000000"
  shows "compute_subtotal items = Inr (cents (sum_list cs))"
  using assms by (rule compute_subtotal_cents)

theorem subtotal_exact_witness:
  "compute_subtotal [VDict [(''total'', VFloat (cents 10))], VDict [(''total'', VFloat (cents 20))]] = Inr (cents 30)"
  using subtotal_exact [of "[VDict [(''total'', VFloat (cents 10))], VDict [(''total'', VFloat (cents 20))]]" "[10, 20]"]
  by (simp add: has_total_def)

section \<open>A recomputed estimate validates\<close>

fun is_mismatch :: "price_error \<Rightarrow> bool" where
  \<comment> \<open>the messages about a total that is wrong or is no number\<close>
  "is_mismatch (ETotalMismatch _ _ _) = True"
| "is_mismatch (ETotalNaN _ _) = True"
| "is_mismatch ELineItemsNotList = True"
| "is_mismatch (ESubtotalMismatch _ _) = True"
| "is_mismatch (ESubtotalNaN _) = True"
| "is_mismatch (EEstTotalMismatch _ _) = True"
| "is_mismatch (EEstTotalNaN _) = True"
| "is_mismatch _ = False"

lemma check_close_eq [simp]: "check_close (VFloat x) x e e' = []"
  by (simp add: check_close_def fsub_def rnd_nonneg not_less)

lemma check_name_ok: "e \<in> set (check_name idx v) \<Longrightarrow> \<not> is_mismatch e"
  by (auto simp: check_name_def split: if_splits)

lemma check_number_mem:
  "e \<in> set (check_number v r n m) \<longleftrightarrow> (if v = VNone then e = r
     else (case py_float v of Inr x \<Rightarrow> x < 0 \<and> e = n x | Inl _ \<Rightarrow> e = m v))"
  by (auto simp: check_number_def split: sum.splits)

lemma check_number_ok:
  "e \<in> set (check_number v r n m) \<Longrightarrow> e = r \<or> (\<exists>x. e = n x) \<or> e = m v"
  by (auto simp: check_number_mem split: if_splits sum.splits)

lemma check_close_mem: "e \<in> set (check_close p c m n) \<Longrightarrow> e = m \<or> e = n"
  by (auto simp: check_close_def split: if_splits sum.splits)

lemma check_name_mem: "e \<in> set (check_name idx v) \<Longrightarrow> e = EName idx"
  by (auto simp: check_name_def split: if_splits)

lemma dict_set_lookup: "map_of (dict_set d k v) k' = (if k' = k then Some v else map_of d k')"
  by (simp add: update_conv')

lemma recomputed_item_validates:
  assumes "recompute_line_item item = Inr item'"
  shows "\<exists>es. validate_line_item item' idx = Inr es \<and> (\<forall>e \<in> set es. \<not> is_mismatch e)"
proof (cases item)
  case (VDict d)
  with assms obtain q r where
    q: "try_then (val_get item ''quantity'' (VInt 0)) py_float = Inr q" and
    r: "try_then (val_get item ''rate'' (VInt 0)) py_float = Inr r" and
    i: "item' = VDict (dict_set d ''total'' (VFloat (compute_line_item_total q r)))"
    by (auto simp: try_then_iff)
  show ?thesis
    using q r VDict unfolding i validate_line_item_def
    by (auto simp: dict_set_lookup try_then_iff Let_def simp del: dict_set.simps
        dest!: check_name_ok check_number_ok split: if_splits)
qed (use assms in simp_all)


lemma recomputed_items_validate:
  assumes "map_try recompute_line_item raw = Inr items"
  shows "\<exists>es. validate_items idx items = Inr es \<and> (\<forall>e \<in> set es. \<not> is_mismatch e)"
  using assms
proof (induction raw arbitrary: items idx)
  case Nil then show ?case by simp
next
  case (Cons item raw)
  then obtain i rest where i: "recompute_line_item item = Inr i" and rest: "map_try recompute_line_item raw = Inr rest"
    and eq: "items = i # rest" by (auto simp: try_then_iff)
  from recomputed_item_validates [OF i, of idx] Cons.IH [OF rest, of "Suc idx"]
  show ?case by (auto simp: eq try_then_iff)
qed

lemma f64_close: "\<bar>x\<bar> \<le> 400000000 \<Longrightarrow> \<bar>f64 x - x\<bar> \<le> 1 / 10000000"
proof -
  assume x: "\<bar>x\<bar> \<le> 400000000"
  have "9007199254740992 * \<bar>f64 x - x\<bar> \<le> \<bar>x\<bar>" using f64_err [of x] by simp
  then have "9007199254740992 * \<bar>f64 x - x\<bar> \<le> 400000000" using x by (rule order.trans)
  then show ?thesis by simp
qed

lemma round_currency_close:
  assumes r: "is_f64 r" and b: "\<bar>r\<bar> \<le> 200000001"
  shows "\<bar>round_currency r - r\<bar> \<le> 51 / 10000"
proof -
  have e: "9007199254740992 * \<bar>r - repr_dec r\<bar> \<le> \<bar>repr_dec r\<bar>" using repr_dec_err [OF r] by simp
  have "\<bar>repr_dec r\<bar> \<le> \<bar>r - repr_dec r\<bar> + \<bar>r\<bar>" "0 \<le> \<bar>r\<bar>" by arith+
  moreover have "D \<le> 1 / 10000000" if "A \<le> D + R" "R \<le> 200000001" "9007199254740992 * D \<le> A" for A D R :: rat
    using that by linarith
  ultimately have d: "\<bar>r - repr_dec r\<bar> \<le> 1 / 10000000" using e b by blast
  have q: "\<bar>quantize 2 (repr_dec r) - repr_dec r\<bar> \<le> 1 / 200" using quantize_err [of 2 "repr_dec r"] by simp
  have "\<bar>quantize 2 (repr_dec r)\<bar> \<le> 400000000" using d q b by arith
  then have "\<bar>f64 (quantize 2 (repr_dec r)) - quantize 2 (repr_dec r)\<bar> \<le> 1 / 10000000" by (rule f64_close)
  then have "\<bar>f64 (quantize 2 (repr_dec r)) - r\<bar> \<le> 51 / 10000" using d q by arith
  then show ?thesis by (simp only: round_currency_def to_decimal_def)
qed

lemma compute_total_close:
  assumes "\<bar>s\<bar> \<le> 100000000" "\<bar>t\<bar> \<le> 100000000" and t: "is_f64 t"
  shows "\<bar>fsub (compute_total s (round_currency t)) (compute_total s t)\<bar> \<le> f64 (2/100)"
proof -
  have rt: "\<bar>round_currency t - t\<bar> \<le> 51 / 10000" using assms(2) by (intro round_currency_close [OF t]) simp
  have c: "\<bar>compute_total s u - (s + u)\<bar> \<le> 52 / 10000" if u: "\<bar>u\<bar> \<le> 100000000 + 51 / 10000" for u
  proof -
    have su: "\<bar>s + u\<bar> \<le> 200000000 + 51 / 10000" using assms(1) u by arith
    then have a: "\<bar>fadd s u - (s + u)\<bar> \<le> 1 / 10000000" unfolding fadd_def by (intro f64_close) simp
    then have "\<bar>fadd s u\<bar> \<le> 200000001" using su by arith
    then have "\<bar>round_currency (fadd s u) - fadd s u\<bar> \<le> 51 / 10000"
      by (intro round_currency_close) (simp_all add: fadd_def)
    then show ?thesis using a unfolding compute_total_def by arith
  qed
  have u1: "\<bar>round_currency t\<bar> \<le> 100000000 + 51 / 10000" using assms(2) rt by arith
  have u2: "\<bar>t\<bar> \<le> 100000000 + 51 / 10000" using assms(2) by arith
  let ?d = "compute_total s (round_currency t) - compute_total s t"
  have d: "\<bar>?d\<bar> \<le> 156 / 10000" using c [OF u1] c [OF u2] rt by arith
  then have "\<bar>f64 ?d - ?d\<bar> \<le> 1 / 10000000" by (intro f64_close) arith
  then have "\<bar>f64 ?d\<bar> \<le> 157 / 10000" using d by arith
  also have "\<dots> \<le> f64 (2/100)" by (simp add: num_eval)
  finally show ?thesis by (simp only: fsub_def)
qed

text \<open>
  C38. Whatever the dictionary of an AI answer holds: when \<open>recompute_estimate\<close> succeeds, the
  estimate it returns passes every arithmetic check of \<open>validate_estimate\<close> (line totals, subtotal
  and total), so only messages about names, types and negative or missing numbers remain. The
  subtotal and the tax are at most one hundred million.
\<close>

theorem recomputed_estimate_validates:
  assumes rec: "recompute_estimate e = Inr e'"
    and tax: "try_then (val_get (VDict e) ''tax'' (VInt 0)) py_float = Inr tax" "is_f64 tax" "\<bar>tax\<bar> \<le> 100000000"
    and sub: "val_get (VDict e') ''subtotal'' VNone = Inr (VFloat s)" "\<bar>s\<bar> \<le> 100000000"
  shows "\<exists>es. validate_estimate e' = Inr es \<and> (\<forall>x \<in> set es. \<not> is_mismatch x)"
proof -
  from rec tax(1) obtain raw items sub0 where
    it: "map_try recompute_line_item raw = Inr items" and sb: "compute_subtotal items = Inr sub0" and
    e': "e' = dict_set (dict_set (dict_set e ''line_items'' (VList items)) ''subtotal'' (VFloat sub0))
               ''total'' (VFloat (compute_total sub0 (round_currency tax)))"
    by (auto simp: recompute_estimate_def try_then_iff Let_def simp del: dict_set.simps)
  from sub(1) have s: "sub0 = s" by (simp add: e' dict_set_lookup del: dict_set.simps)
  obtain es where es: "validate_items 0 items = Inr es" "\<forall>x \<in> set es. \<not> is_mismatch x"
    using recomputed_items_validate [OF it] by blast
  have "check_close (VFloat (compute_total s (round_currency tax))) (compute_total s tax) m m' = []" for m m'
    using compute_total_close [OF sub(2) tax(3,2)] by (simp add: check_close_def not_less)
  then have "validate_estimate e' = Inr es"
    using es tax(1) sb unfolding e' s
    by (simp add: validate_estimate_def dict_set_lookup Let_def del: dict_set.simps)
  then show ?thesis using es(2) by blast
qed

definition sample_estimate :: "(string \<times> pyval) list" where
  "sample_estimate =
     [(''line_items'', VList [VDict [(''name'', VStr ''Pipe''), (''item_type'', VStr ''materials''),
        (''quantity'', VInt 2), (''rate'', VFloat (3/2))]]), (''tax'', VFloat (1/4))]"

lemma f64_small: "f64 2 = 2" "f64 0 = 0" "f64 3 = 3"
  using f64_of_int [of 2] f64_of_int [of 3] by simp_all

lemma sample_total: "compute_line_item_total 2 (3/2) = 3"
proof -
  have v: "repr_dec 2 = 2" "repr_dec (3/2) = 3/2" "dec28 3 = 3" "quantize 2 3 = 3" by (simp_all add: num_eval)
  show ?thesis by (simp add: v compute_line_item_total_def to_decimal_def round_currency_decimal_def f64_small)
qed

lemma sample_round: "round_currency 3 = 3" "round_currency (1/4) = 1/4"
proof -
  have v: "repr_dec 3 = 3" "repr_dec (1/4) = 1/4" "quantize 2 3 = 3" "quantize 2 (1/4) = 1/4" "f64 (1/4) = 1/4"
    by (simp_all add: num_eval)
  show "round_currency 3 = 3" "round_currency (1/4) = 1/4"
    by (simp_all add: v round_currency_def to_decimal_def f64_small)
qed

lemma sample_add: "fadd 0 3 = 3" "fadd 0 0 = 0" "fsub 3 3 = 0" "fadd 3 (1/4) = 13/4"
  by (simp_all add: num_eval)


lemma sample_recomputed:
  "recompute_estimate sample_estimate = Inr
     [(''line_items'', VList [VDict [(''name'', VStr ''Pipe''), (''item_type'', VStr ''materials''),
        (''quantity'', VInt 2), (''rate'', VFloat (3/2)), (''total'', VFloat 3)]]),
      (''tax'', VFloat (1/4)), (''subtotal'', VFloat 3), (''total'', VFloat (13/4))]"
proof -
  have "compute_total 3 (1/4) = 13/4"
  proof -
    have v: "repr_dec (13/4) = 13/4" "quantize 2 (13/4) = 13/4" "f64 (13/4) = 13/4" by (simp_all add: num_eval)
    show ?thesis by (simp add: v compute_total_def sample_add round_currency_def to_decimal_def)
  qed
  then show ?thesis
    by (simp add: recompute_estimate_def sample_estimate_def sample_total sample_round sample_add f64_small
        compute_subtotal_def py_sum_def Let_def)
qed

theorem recomputed_estimate_validates_witness:
  "\<exists>es e'. recompute_estimate sample_estimate = Inr e' \<and> validate_estimate e' = Inr es \<and> (\<forall>x \<in> set es. \<not> is_mismatch x)"
proof -
  have "is_f64 (1/4)" by (simp add: is_f64_def num_eval)
  then show ?thesis
    using recomputed_estimate_validates [OF sample_recomputed, of "1/4" 3] sample_recomputed
    by (auto simp: sample_estimate_def)
qed

text \<open>
  The validator reports a missing quantity only when the key is absent: an explicit null
  or text that is no number makes \<open>validate_line_item\<close> raise instead of reporting, so its
  \<open>must be a number\<close> message for the quantity is never returned.
\<close>

theorem quantity_message_only_if_absent:
  assumes "validate_line_item (VDict d) idx = Inr es"
  shows "(EQuantityRequired idx \<in> set es \<longleftrightarrow> map_of d ''quantity'' = None) \<and> (\<forall>v. EQuantityNaN idx v \<notin> set es)"
proof -
  define item_type where "item_type = (case map_of d ''item_type'' of None \<Rightarrow> VNone | Some v \<Rightarrow> v)"
  define quantity where "quantity = (case map_of d ''quantity'' of None \<Rightarrow> VNone | Some v \<Rightarrow> v)"
  obtain q name rate pt ct where q: "try_then (val_get (VDict d) ''quantity'' (VInt 0)) py_float = Inr q" and
    es: "es = check_name idx name @ (if item_type \<in> VStr ` set LINE_ITEM_TYPES then [] else [EItemType idx item_type])
      @ check_number quantity (EQuantityRequired idx) (EQuantityNegative idx) (EQuantityNaN idx)
      @ check_number rate (ERateRequired idx) (ERateNegative idx) (ERateNaN idx)
      @ check_close pt ct (ETotalMismatch idx pt ct) (ETotalNaN idx pt)"
    using assms unfolding validate_line_item_def try_then_iff Let_def item_type_def quantity_def
    by (simp only: val_get.simps sum.inject append_assoc) blast
  have "EQuantityRequired idx \<in> set es \<longleftrightarrow> quantity = VNone"
    unfolding es by (auto simp: check_number_mem dest!: check_name_mem check_close_mem split: if_splits sum.splits)
  moreover have "EQuantityNaN idx v \<notin> set es" for v
    using q unfolding es quantity_def
    by (auto simp: check_number_mem try_then_iff dest!: check_name_mem check_close_mem split: if_splits sum.splits option.splits)
  moreover have "quantity = VNone \<longleftrightarrow> map_of d ''quantity'' = None"
    using q by (auto simp: quantity_def try_then_iff split: option.splits)
  ultimately show ?thesis by blast
qed

theorem quantity_message_only_if_absent_witness:
  "EQuantityRequired 0 \<in> set [EName 0, EItemType 0 VNone, EQuantityRequired 0, ERateRequired 0]"
proof -
  have "quantize 2 0 = 0" "dec28 0 = 0" by simp_all
  then have "validate_line_item (VDict []) 0 = Inr [EName 0, EItemType 0 VNone, EQuantityRequired 0, ERateRequired 0]"
    by (simp add: validate_line_item_def check_name_def check_number_def check_close_def LINE_ITEM_TYPES_def
        compute_line_item_total_def to_decimal_def round_currency_decimal_def repr_dec_def fsub_def not_less)
  then show ?thesis using quantity_message_only_if_absent [of "[]" 0] by simp
qed

end
