(* ===== verification/Plans.thy ===== *)
theory Plans
  imports PyNum
begin

text \<open>
  Plans, cost estimates and the two deciders that read them: \<open>app/billing/cost_estimator.py\<close>,
  \<open>policy_engine.py\<close> and \<open>routing_engine.py\<close>. The reason of a decision is a formatted string in
  the code; here it is a constructor that holds the values the string shows.
\<close>

section \<open>Plan tiers\<close>

record plan_tier =
  quota_acu :: pyfloat
  max_cost_per_job :: pyfloat
  max_daily_cost_usd :: pyfloat
  routing :: string
  concurrency_limit :: int
  price_monthly :: pyfloat

definition ACU_TO_USD :: pyfloat where
  "ACU_TO_USD = f64 (1/100)"

definition free_tier :: plan_tier where
  "free_tier = \<lparr>quota_acu = 15, max_cost_per_job = f64 (1/100), max_daily_cost_usd = f64 (5/100),
     routing = ''local'', concurrency_limit = 1, price_monthly = 0\<rparr>"

definition PLAN_TIERS :: "(string \<times> plan_tier) list" where
  "PLAN_TIERS = [
     (''free'', free_tier),
     (''starter'', \<lparr>quota_acu = 200, max_cost_per_job = f64 (3/100), max_daily_cost_usd = f64 (1/2),
        routing = ''hybrid'', concurrency_limit = 2, price_monthly = 19\<rparr>),
     (''pro'', \<lparr>quota_acu = 600, max_cost_per_job = f64 (5/100), max_daily_cost_usd = 2,
        routing = ''cloud'', concurrency_limit = 5, price_monthly = 49\<rparr>),
     (''business'', \<lparr>quota_acu = 2500, max_cost_per_job = f64 (10/100), max_daily_cost_usd = 10,
        routing = ''cloud'', concurrency_limit = 10, price_monthly = 149\<rparr>),
     (''enterprise'', \<lparr>quota_acu = 10000, max_cost_per_job = f64 (1/2), max_daily_cost_usd = 50,
        routing = ''cloud'', concurrency_limit = 20, price_monthly = 500\<rparr>)]"

definition tier_of :: "string \<Rightarrow> plan_tier" where
  \<comment> \<open>\<open>PLAN_TIERS.get(plan, PLAN_TIERS["free"])\<close>\<close>
  "tier_of plan = (case map_of PLAN_TIERS plan of Some t \<Rightarrow> t | None \<Rightarrow> free_tier)"

lemma tier_of_free [simp]: "tier_of ''free'' = free_tier"
  by (simp add: tier_of_def PLAN_TIERS_def)

lemma tier_of_cases:
  "tier_of plan = free_tier \<or> plan \<in> {''starter'', ''pro'', ''business'', ''enterprise''}"
  by (auto simp: tier_of_def PLAN_TIERS_def)

section \<open>Cost of a job\<close>

record job_cost =
  text_cost :: pyfloat
  vision_cost :: pyfloat
  audio_cost :: pyfloat
  total_cost :: pyfloat
  total_acu :: pyfloat

definition raw_text_cost :: "int \<Rightarrow> pyfloat" where
  "raw_text_cost text_tokens =
     (let base = f64 (2/1000) in
      if 2000 < text_tokens
      then fadd base (fmul (f64 (1/1000)) (f64 (of_int (text_tokens - 2000) / 1000)))
      else base)"

definition raw_vision_cost :: "int \<Rightarrow> pyfloat" where
  "raw_vision_cost image_count = fmul (f64 (of_int image_count)) (f64 (1/100))"

definition raw_audio_cost :: "bool \<Rightarrow> pyfloat" where
  "raw_audio_cost has_audio = (if has_audio then f64 (8/1000) else 0)"

definition raw_total :: "int \<Rightarrow> bool \<Rightarrow> int \<Rightarrow> pyfloat" where
  "raw_total image_count has_audio text_tokens =
     fmul (fadd (fadd (raw_text_cost text_tokens) (raw_vision_cost image_count)) (raw_audio_cost has_audio)) (f64 (12/10))"

definition estimate_job_cost :: "int \<Rightarrow> bool \<Rightarrow> int \<Rightarrow> job_cost" where
  "estimate_job_cost image_count has_audio text_tokens =
     (let total = raw_total image_count has_audio text_tokens in
      \<lparr>text_cost = py_round 6 (raw_text_cost text_tokens),
       vision_cost = py_round 6 (raw_vision_cost image_count),
       audio_cost = py_round 6 (raw_audio_cost has_audio),
       total_cost = py_round 6 total,
       total_acu = py_round 4 (fdiv total ACU_TO_USD)\<rparr>)"

subsection \<open>Monotonicity of the float operations\<close>

lemma raw_costs_nonneg [simp]:
  "0 \<le> raw_text_cost t" "0 \<le> n \<Longrightarrow> 0 \<le> raw_vision_cost n" "0 \<le> raw_audio_cost a"
  by (simp_all add: raw_text_cost_def raw_vision_cost_def raw_audio_cost_def Let_def)

lemma raw_text_cost_mono: "t \<le> t' \<Longrightarrow> raw_text_cost t \<le> raw_text_cost t'"
proof -
  assume t: "t \<le> t'"
  have base: "f64 (2/1000) \<le> raw_text_cost t" for t
  proof -
    have "f64 (2/1000) = fadd (f64 (2/1000)) 0" by (simp add: fadd_def rnd_idem)
    also have "\<dots> \<le> raw_text_cost t" if "2000 < t"
      using that by (simp add: raw_text_cost_def Let_def fadd_mono)
    finally show ?thesis by (cases "2000 < t") (simp_all add: raw_text_cost_def Let_def)
  qed
  show ?thesis
  proof (cases "2000 < t")
    case True
    with t show ?thesis
      by (auto simp: raw_text_cost_def Let_def intro!: fadd_mono fmul_mono f64_mono divide_right_mono)
  next
    case False
    then have "raw_text_cost t = f64 (2/1000)" by (simp add: raw_text_cost_def Let_def)
    then show ?thesis using base [of t'] by simp
  qed
qed

lemma raw_total_mono:
  assumes "0 \<le> n" "n \<le> n'" "a \<longrightarrow> a'" "t \<le> t'"
  shows "raw_total n a t \<le> raw_total n' a' t'"
proof -
  have "raw_vision_cost n \<le> raw_vision_cost n'"
    unfolding raw_vision_cost_def using assms by (intro fmul_mono f64_mono) simp_all
  moreover have "raw_audio_cost a \<le> raw_audio_cost a'" using assms by (simp add: raw_audio_cost_def)
  ultimately show ?thesis
    unfolding raw_total_def using assms raw_text_cost_mono by (intro fmul_mono fadd_mono) simp_all
qed

text \<open>
  The estimate never goes down when a job gains an image, an audio track or text: the total
  in dollars and the total in ACU are monotone in all three inputs, rounding included.
\<close>

theorem estimate_monotone:
  assumes "0 \<le> n" "n \<le> n'" "a \<longrightarrow> a'" "t \<le> t'"
  shows "total_cost (estimate_job_cost n a t) \<le> total_cost (estimate_job_cost n' a' t') \<and>
         total_acu (estimate_job_cost n a t) \<le> total_acu (estimate_job_cost n' a' t')"
  using raw_total_mono [OF assms]
  by (simp add: estimate_job_cost_def Let_def py_round_mono fdiv_mono ACU_TO_USD_def)

theorem estimate_monotone_witness:
  "total_cost (estimate_job_cost 1 False 100) \<le> total_cost (estimate_job_cost 2 True 5000)"
  using estimate_monotone [of 1 2 False True 100 5000] by simp

section \<open>The policy engine\<close>

datatype policy_decision = ALLOW | REJECT | DEGRADE_TO_LOCAL | SKIP_VISION | SKIP_AUDIO | REDUCE_MODEL

datatype policy_reason = Exceeds_twice pyfloat pyfloat | Skipping_vision pyfloat pyfloat
  | Skipping_audio pyfloat pyfloat | Reducing_model pyfloat pyfloat | Free_local_only
  | High_system_load int | Within_limits string

record policy_result =
  decision :: policy_decision
  reason :: policy_reason
  routing_override :: string

definition evaluate_policy :: "string \<Rightarrow> pyfloat \<Rightarrow> bool \<Rightarrow> bool \<Rightarrow> int \<Rightarrow> policy_result" where
  "evaluate_policy plan cost has_vision has_audio system_load =
     (let tier = tier_of plan; max_cost = max_cost_per_job tier in
      if fmul max_cost 2 < cost then
        \<lparr>decision = REJECT, reason = Exceeds_twice cost max_cost, routing_override = []\<rparr>
      else if max_cost < cost then
        (if has_vision \<and> fmul max_cost (f64 (3/2)) < cost then
           \<lparr>decision = SKIP_VISION, reason = Skipping_vision cost max_cost, routing_override = ''local''\<rparr>
         else if has_audio then
           \<lparr>decision = SKIP_AUDIO, reason = Skipping_audio cost max_cost, routing_override = ''local''\<rparr>
         else
           \<lparr>decision = REDUCE_MODEL, reason = Reducing_model cost max_cost, routing_override = ''local''\<rparr>)
      else if plan = ''free'' then
        \<lparr>decision = DEGRADE_TO_LOCAL, reason = Free_local_only, routing_override = ''local''\<rparr>
      else if 20 < system_load then
        \<lparr>decision = ALLOW, reason = High_system_load system_load, routing_override = ''cloud''\<rparr>
      else
        \<lparr>decision = ALLOW, reason = Within_limits (routing tier), routing_override = routing tier\<rparr>)"

section \<open>The routing engine\<close>

datatype routing_reason = Free_tier_local | Starter_load_and_cost | Starter_low_cost | Starter_hybrid pyfloat
  | Plan_priority string | Plan_default string | Plan_cloud_first string | Default_local
  | Cost_skips_vision pyfloat pyfloat | Cost_skips_audio | Within_tier_limits

record routing_decision =
  target :: string
  model_quality :: string
  skip_vision :: bool
  skip_audio :: bool
  routing_reason :: routing_reason

text \<open>
  What the client of the queue broker sees: no connection (\<open>_get_redis\<close> returns \<open>None\<close>), an
  exception on the way, or the length of each queue.
\<close>

datatype queue_view = No_redis | Redis_raises | Queue_lengths "string \<Rightarrow> int"

fun get_system_load :: "queue_view \<Rightarrow> int" where
  "get_system_load No_redis = 0"
| "get_system_load Redis_raises = 999"
| "get_system_load (Queue_lengths llen) =
     fold (\<lambda>q total. total + llen q) [''default'', ''ai_text'', ''ai_audio'', ''ai_image''] 0"

definition route_ai_job :: "queue_view \<Rightarrow> string \<Rightarrow> pyfloat \<Rightarrow> bool \<Rightarrow> bool \<Rightarrow> routing_decision" where
  "route_ai_job redis plan cost has_vision has_audio =
     (let routing_pref = routing (tier_of plan);
          system_loaded = 10 < get_system_load redis;
          decide = (\<lambda>t q r. \<lparr>target = t, model_quality = q, skip_vision = False, skip_audio = False,
                              routing_reason = r\<rparr>)
      in if plan = ''free'' then
           \<lparr>target = ''local'', model_quality = ''low'', skip_vision = has_vision, skip_audio = False,
             routing_reason = Free_tier_local\<rparr>
         else if plan = ''starter'' then
           (if system_loaded \<and> f64 (1/100) < cost then decide ''cloud'' ''medium'' Starter_load_and_cost
            else if cost < f64 (5/1000) then decide ''local'' ''low'' Starter_low_cost
            else decide (if f64 (1/100) < cost then ''cloud'' else ''local'') ''medium'' (Starter_hybrid cost))
         else if plan \<in> set [''pro'', ''business'', ''enterprise''] then
           (if system_loaded then decide ''cloud'' ''high'' (Plan_priority plan)
            else if routing_pref = ''cloud'' then decide ''cloud'' ''high'' (Plan_default plan)
            else decide ''cloud'' ''high'' (Plan_cloud_first plan))
         else decide ''local'' ''low'' Default_local)"

definition should_downgrade_job :: "string \<Rightarrow> pyfloat \<Rightarrow> bool \<Rightarrow> bool \<Rightarrow> routing_decision" where
  "should_downgrade_job plan cost has_vision has_audio =
     (let max_cost = max_cost_per_job (tier_of plan);
          fits = \<lparr>target = (if plan = ''free'' then ''local'' else ''cloud''),
                    model_quality = (if plan = ''free'' then ''low'' else ''medium''),
                    skip_vision = False, skip_audio = False, routing_reason = Within_tier_limits\<rparr>
      in if max_cost < cost then
           (if has_vision \<and> max_cost < cost then
              \<lparr>target = ''local'', model_quality = ''low'', skip_vision = True, skip_audio = False,
                routing_reason = Cost_skips_vision cost max_cost\<rparr>
            else if has_audio then
              \<lparr>target = ''local'', model_quality = ''low'', skip_vision = has_vision, skip_audio = True,
                routing_reason = Cost_skips_audio\<rparr>
            else fits)
         else fits)"

subsection \<open>What the deciders guarantee\<close>

text \<open>The tier maxima are positive, so the bands of the policy are nested.\<close>

lemma max_cost_pos: "0 < max_cost_per_job (tier_of plan)"
proof -
  have "0 < f64 (1/100)" "0 < f64 (3/100)" "0 < f64 (5/100)" "0 < f64 (10/100)" "0 < f64 (1/2)"
    by (simp_all add: num_eval)
  then show ?thesis by (auto simp: tier_of_def PLAN_TIERS_def free_tier_def split: option.splits)
qed

lemma is_f64_max_cost: "is_f64 (max_cost_per_job (tier_of plan))"
  by (auto simp: tier_of_def PLAN_TIERS_def free_tier_def split: option.splits)

lemma band_nested: "max_cost_per_job (tier_of plan) \<le> fmul (max_cost_per_job (tier_of plan)) 2"
proof -
  let ?m = "max_cost_per_job (tier_of plan)"
  have "?m = f64 ?m" using is_f64_max_cost [of plan] by (simp add: is_f64_def)
  also have "\<dots> \<le> f64 (?m * 2)" using max_cost_pos [of plan] by (intro f64_mono) simp
  finally show ?thesis by (simp add: fmul_def)
qed

lemma routing_free_tier [simp]: "routing free_tier = ''local''"
  by (simp add: free_tier_def)

text \<open>
  The policy's cost bands. A job is rejected exactly above twice the tier's maximum; it is
  let through unchanged (ALLOW or local-only) exactly up to the maximum; in between something is
  dropped, and only what the job has: vision is skipped only for a job with images and audio
  only for one with audio. Whatever is not ALLOW is never overridden to the cloud.
\<close>

theorem policy_bands:
  "let m = max_cost_per_job (tier_of plan); r = evaluate_policy plan cost v a load in
   (decision r = REJECT \<longleftrightarrow> fmul m 2 < cost) \<and>
   (decision r \<in> {ALLOW, DEGRADE_TO_LOCAL} \<longleftrightarrow> cost \<le> m) \<and>
   (decision r = DEGRADE_TO_LOCAL \<longleftrightarrow> cost \<le> m \<and> plan = ''free'') \<and>
   (decision r = SKIP_VISION \<longrightarrow> v) \<and> (decision r = SKIP_AUDIO \<longrightarrow> a) \<and>
   (routing_override r \<notin> {[], ''local''} \<longrightarrow> decision r = ALLOW)"
  using band_nested [of plan]
  by (simp add: evaluate_policy_def Let_def not_less)

theorem policy_bands_witness:
  "decision (evaluate_policy ''free'' 0 True False 0) = DEGRADE_TO_LOCAL"
  using policy_bands [of "''free''" 0 True False 0] max_cost_pos [of "''free''"]
  by (simp add: Let_def less_imp_le)

text \<open>
  Free-plan jobs stay off the paid backends: no decider ever names the cloud for the plan
  \<open>free\<close>, for any cost, media and load, and a plan that is not in the table is routed locally.
\<close>

theorem free_plan_stays_local:
  "routing_override (evaluate_policy ''free'' cost v a load) \<in> {[], ''local''} \<and>
   target (route_ai_job redis ''free'' cost v a) = ''local'' \<and>
   target (should_downgrade_job ''free'' cost v a) = ''local'' \<and>
   (map_of PLAN_TIERS plan = None \<longrightarrow> target (route_ai_job redis plan cost v a) = ''local'')"
  by (auto simp: evaluate_policy_def route_ai_job_def should_downgrade_job_def Let_def PLAN_TIERS_def)

theorem free_plan_stays_local_witness:
  "target (route_ai_job Redis_raises ''basic'' 1 True True) = ''local''"
  using free_plan_stays_local [of 1 True True 0 Redis_raises "''basic''"] by (simp add: PLAN_TIERS_def)

text \<open>
  A job without images or audio is not downgraded: \<open>should_downgrade_job\<close> answers that the
  job is within the tier's limits, for any cost. For the plans other than \<open>free\<close> it names the cloud as its target.
\<close>

theorem downgrade_needs_media:
  "routing_reason (should_downgrade_job plan cost v a) = Within_tier_limits \<longleftrightarrow>
     cost \<le> max_cost_per_job (tier_of plan) \<or> \<not> v \<and> \<not> a"
  by (auto simp: should_downgrade_job_def Let_def)

subsection \<open>A job with an image costs more than the free plan allows\<close>

lemma image_job_cost: "1 \<le> n \<Longrightarrow> f64 (1/100) < total_cost (estimate_job_cost n a t)"
proof -
  assume n: "1 \<le> n"
  have d: "is_f64 (1 / 1024)" "is_f64 (5 / 512)" "is_f64 (11 / 1024)" "is_f64 (41 / 4096)" "is_f64 (42 / 4096)"
    using is_f64_dyadic [of 1 10] is_f64_dyadic [of 5 9] is_f64_dyadic [of 11 10] is_f64_dyadic [of 41 12]
      is_f64_dyadic [of 42 12] by simp_all
  have t: "1 / 1024 \<le> raw_text_cost t"
    using raw_text_cost_mono [of "min t 0" t] f64_ge_iff [OF d(1), of "2/1000"]
    by (simp add: raw_text_cost_def Let_def)
  have "fmul 1 (5 / 512) \<le> raw_vision_cost n"
    unfolding raw_vision_cost_def using n f64_of_int [of 1]
    by (intro fmul_mono f64_ge_iff [OF d(2)]) (use f64_mono [of 1 "of_int n"] in simp_all)
  then have v: "5 / 512 \<le> raw_vision_cost n" using d(2) by (simp add: fmul_def is_f64_def)
  have "fadd (1 / 1024) (5 / 512) \<le> fadd (raw_text_cost t) (raw_vision_cost n)"
    using t v by (rule fadd_mono)
  then have s: "11 / 1024 \<le> fadd (raw_text_cost t) (raw_vision_cost n)" using d(3) by (simp add: fadd_def is_f64_def)
  have "fadd (11 / 1024) 0 \<le> fadd (fadd (raw_text_cost t) (raw_vision_cost n)) (raw_audio_cost a)"
    using s by (rule fadd_mono) simp
  then have s: "11 / 1024 \<le> fadd (fadd (raw_text_cost t) (raw_vision_cost n)) (raw_audio_cost a)"
    using d(3) by (simp add: fadd_def is_f64_def)
  have "1 \<le> f64 (12/10)" using f64_mono [of 1 "12/10"] by simp
  then have "fmul (11 / 1024) 1 \<le> raw_total n a t" unfolding raw_total_def using s by (intro fmul_mono) simp_all
  then have "11 / 1024 \<le> raw_total n a t" using d(3) by (simp add: fmul_def is_f64_def)
  then have "py_round 6 (11 / 1024) \<le> total_cost (estimate_job_cost n a t)"
    by (simp add: estimate_job_cost_def Let_def py_round_mono)
  moreover have "rhe (171875 / 16) = 10742" by (simp add: rhe_def Let_def floor_rat_numeral)
  then have "py_round 6 (11 / 1024) = f64 (10742 / 1000000)" by (simp add: py_round_def)
  moreover have "42 / 4096 \<le> f64 (10742 / 1000000)" by (rule f64_ge_iff [OF d(5)]) simp
  moreover have "f64 (1/100) \<le> 41 / 4096" by (rule f64_le_iff [OF d(4)]) simp
  moreover have "(41 / 4096 :: rat) < 42 / 4096" by simp
  ultimately show ?thesis by linarith
qed
lemma is_f64_total_cost: "is_f64 (total_cost (estimate_job_cost n a t))"
  by (simp add: estimate_job_cost_def Let_def py_round_def)

end
