(* ===== verification/DataModel.thy ===== *)
theory DataModel
  imports PyNum
begin

text \<open>
  The tables of the program: one record per SQLAlchemy class of \<open>app/jobs/models.py\<close>,
  \<open>app/billing/models.py\<close>, \<open>user_quota.py\<close>, \<open>idempotency.py\<close> and \<open>dead_letter.py\<close>, one field
  per column, in the order of the columns, prefixed with the table's initials. A nullable column
  without a default is an \<open>option\<close>; a column with a default holds a value. A \<open>Numeric\<close> column
  is a rational, which every write passes through \<open>quantize\<close> with the column's scale. A table is
  the list of its rows in insertion order; the unique constraints are the predicate \<open>wf_db\<close>.
\<close>

section \<open>Users, customers and jobs\<close>

datatype user_role = Owner | Dispatcher | Technician | Admin
datatype job_status = Pending | In_progress | Completed | Cancelled
datatype ai_state = S_none | S_queued | S_reserved | S_processing | S_completed | S_failed | S_compensated

fun ai_state_value :: "ai_state \<Rightarrow> string" where
  "ai_state_value S_none = ''none''"
| "ai_state_value S_queued = ''queued''"
| "ai_state_value S_reserved = ''reserved''"
| "ai_state_value S_processing = ''processing''"
| "ai_state_value S_completed = ''completed''"
| "ai_state_value S_failed = ''failed''"
| "ai_state_value S_compensated = ''compensated''"

record company =
  co_id :: uuid
  co_name :: string
  co_subscription_plan :: string
  co_trade_type :: string
  co_stripe_customer_id :: "string option"
  co_stripe_subscription_id :: "string option"
  co_created_at :: micros
  co_updated_at :: micros

record user =
  us_id :: string
  us_user_uuid :: uuid
  us_clerk_user_id :: "string option"
  us_company_id :: uuid
  us_email :: string
  us_name :: string
  us_encrypted_email :: "string option"
  us_encrypted_name :: "string option"
  us_role :: string
  us_is_active :: bool
  us_token_version :: int
  us_is_deleted :: bool
  us_deleted_at :: "micros option"
  us_created_at :: micros
  us_updated_at :: micros

record customer =
  cu_id :: uuid
  cu_company_id :: uuid
  cu_name :: string
  cu_email :: "string option"
  cu_phone :: "string option"
  cu_address :: "string option"
  cu_encrypted_email :: "string option"
  cu_encrypted_phone :: "string option"
  cu_encrypted_name :: "string option"
  cu_is_deleted :: bool
  cu_deleted_at :: "micros option"
  cu_created_at :: micros
  cu_updated_at :: micros

record job =
  job_id :: uuid
  job_company_id :: uuid
  job_customer_id :: uuid
  job_technician_id :: string
  job_status :: string
  job_ai_state :: "ai_state option"
  job_ai_updated_at :: "micros option"
  job_retry_count :: "int option"
  job_compensation_attempts :: "int option"
  job_cycle_counter :: "int option"
  job_cycle_reset_at :: "micros option"
  job_scheduled_time :: "micros option"
  job_description :: "string option"
  job_address :: "string option"
  job_is_deleted :: bool
  job_deleted_at :: "micros option"
  job_created_at :: micros
  job_updated_at :: micros

record job_media =
  jm_id :: uuid
  jm_job_id :: uuid
  jm_company_id :: uuid
  jm_type :: string
  jm_storage_url :: string
  jm_storage_key :: "string option"
  jm_thumbnail_url :: "string option"
  jm_mime_type :: "string option"
  jm_file_size :: "pyfloat option"
  jm_ai_processed :: bool
  jm_upload_signature :: "string option"
  jm_content_hash :: "string option"
  jm_created_at :: micros

record ai_output =
  ao_id :: uuid
  ao_job_id :: uuid
  ao_company_id :: uuid
  ao_output_type :: string
  ao_json_result :: string
  ao_confidence_score :: "pyfloat option"
  ao_model_used :: "string option"
  ao_created_at :: micros

record job_audit_log =
  jal_id :: uuid
  jal_job_id :: uuid
  jal_company_id :: uuid
  jal_changed_by_user_id :: string
  jal_field_name :: string
  jal_old_value :: "string option"
  jal_new_value :: "string option"
  jal_created_at :: micros

section \<open>Billing\<close>

record billing_account =
  ba_id :: uuid
  ba_company_id :: uuid
  ba_is_deleted :: bool
  ba_deleted_at :: "micros option"
  ba_plan :: string
  ba_monthly_quota_acu :: rat
  ba_used_acu :: rat
  ba_reserved_acu :: rat
  ba_acu_debt :: rat
  ba_max_acu_debt :: rat
  ba_overage_enabled :: bool
  ba_ai_disabled :: bool
  ba_ai_disabled_reason :: "string option"
  ba_risk_score :: int
  ba_temp_quota_multiplier :: rat
  ba_stripe_subscription_id :: "string option"
  ba_reservation_heartbeat_at :: "micros option"
  ba_billing_period_start :: "micros option"
  ba_billing_period_end :: "micros option"
  ba_reset_at :: "micros option"
  ba_last_reconciled :: "micros option"
  ba_created_at :: micros
  ba_updated_at :: micros
  ba_storage_quota_bytes :: int
  ba_used_storage_bytes :: int
  ba_version :: int

record usage_ledger =
  ul_id :: uuid
  ul_company_id :: uuid
  ul_job_id :: "uuid option"
  ul_text_units :: int
  ul_vision_units :: int
  ul_audio_units :: int
  ul_cost_usd :: rat
  ul_estimated_cost_usd :: rat
  ul_model_used :: "string option"
  ul_execution_time_ms :: "int option"
  ul_is_credit :: bool
  ul_credit_reason :: "string option"
  ul_original_job_id :: "uuid option"
  ul_user_id :: "string option"
  ul_billing_period :: "string option"
  ul_created_at :: micros

record ai_job_estimate =
  je_id :: uuid
  je_company_id :: uuid
  je_job_id :: "uuid option"
  je_text_cost :: rat
  je_vision_cost :: rat
  je_audio_cost :: rat
  je_total_cost :: rat
  je_approved :: bool
  je_rejected_reason :: "string option"
  je_billing_period :: "string option"
  je_created_at :: micros

record user_daily_usage =
  ud_id :: uuid
  ud_user_id :: string
  ud_company_id :: uuid
  ud_date :: string
  ud_acu_used :: rat
  ud_job_count :: rat

record idempotency_key =
  ik_id :: uuid
  ik_company_id :: uuid
  ik_user_id :: string
  ik_key :: string
  ik_request_hash :: string
  ik_response_json :: "string option"
  ik_status :: string
  ik_created_at :: micros

record dead_letter_job =
  dl_id :: uuid
  dl_job_id :: uuid
  dl_company_id :: uuid
  dl_user_id :: "string option"
  dl_task_name :: string
  dl_error_message :: "string option"
  dl_failure_category :: "string option"
  dl_last_state :: "string option"
  dl_retry_count :: int
  dl_trace_id :: "string option"
  dl_created_at :: micros
  dl_expires_at :: "micros option"

subsection \<open>Rows with the column defaults\<close>

definition default_account :: "uuid \<Rightarrow> uuid \<Rightarrow> micros \<Rightarrow> billing_account" where
  "default_account i company now = \<lparr>ba_id = i, ba_company_id = company, ba_is_deleted = False, ba_deleted_at = None,
     ba_plan = ''free'', ba_monthly_quota_acu = 15, ba_used_acu = 0, ba_reserved_acu = 0, ba_acu_debt = 0,
     ba_max_acu_debt = 500, ba_overage_enabled = False, ba_ai_disabled = False, ba_ai_disabled_reason = None,
     ba_risk_score = 0, ba_temp_quota_multiplier = 1, ba_stripe_subscription_id = None,
     ba_reservation_heartbeat_at = None, ba_billing_period_start = None, ba_billing_period_end = None,
     ba_reset_at = None, ba_last_reconciled = None, ba_created_at = now, ba_updated_at = now,
     ba_storage_quota_bytes = 5 * 1024 ^ 3, ba_used_storage_bytes = 0, ba_version = 0\<rparr>"

definition default_job :: "uuid \<Rightarrow> uuid \<Rightarrow> uuid \<Rightarrow> string \<Rightarrow> micros \<Rightarrow> job" where
  "default_job i company customer technician now = \<lparr>job_id = i, job_company_id = company, job_customer_id = customer,
     job_technician_id = technician, job_status = ''pending'', job_ai_state = Some S_none, job_ai_updated_at = None,
     job_retry_count = Some 0, job_compensation_attempts = Some 0, job_cycle_counter = Some 0,
     job_cycle_reset_at = None, job_scheduled_time = None, job_description = None, job_address = None,
     job_is_deleted = False, job_deleted_at = None, job_created_at = now, job_updated_at = now\<rparr>"

section \<open>The database\<close>

record database =
  db_accounts :: "billing_account list"
  db_ledger :: "usage_ledger list"
  db_job_estimates :: "ai_job_estimate list"
  db_user_usage :: "user_daily_usage list"
  db_idempotency :: "idempotency_key list"
  db_dead_letters :: "dead_letter_job list"
  db_jobs :: "job list"
  db_ai_outputs :: "ai_output list"
  db_job_audit :: "job_audit_log list"
  db_customers :: "customer list"
  db_users :: "user list"
  db_media :: "job_media list"

definition empty_db :: database where
  "empty_db = \<lparr>db_accounts = [], db_ledger = [], db_job_estimates = [], db_user_usage = [],
     db_idempotency = [], db_dead_letters = [], db_jobs = [], db_ai_outputs = [], db_job_audit = [],
     db_customers = [], db_users = [], db_media = []\<rparr>"

subsection \<open>Rows and tables\<close>

definition update_where :: "('r \<Rightarrow> bool) \<Rightarrow> ('r \<Rightarrow> 'r) \<Rightarrow> 'r list \<Rightarrow> 'r list" where
  \<comment> \<open>\<open>UPDATE t SET f WHERE P\<close>, and the flush of changes to the attributes of selected rows\<close>
  "update_where P f rows = map (\<lambda>r. if P r then f r else r) rows"

definition row_count :: "('r \<Rightarrow> bool) \<Rightarrow> 'r list \<Rightarrow> nat" where
  "row_count P rows = length (filter P rows)"

definition insert_unless :: "('r \<Rightarrow> bool) \<Rightarrow> 'r \<Rightarrow> 'r list \<Rightarrow> 'r list" where
  \<comment> \<open>\<open>INSERT ... ON CONFLICT DO NOTHING\<close>, the conflict being a row that satisfies the predicate\<close>
  "insert_unless conflict r rows = (if list_ex conflict rows then rows else rows @ [r])"

definition unique_on :: "('r \<Rightarrow> 'k) \<Rightarrow> 'r list \<Rightarrow> bool" where
  "unique_on k rows \<longleftrightarrow> distinct (map k rows)"

lemma unique_on_Nil [simp]: "unique_on k []"
  by (simp add: unique_on_def)

lemma update_where_Nil [simp]: "update_where P f [] = []"
  by (simp add: update_where_def)

lemma length_update_where [simp]: "length (update_where P f rows) = length rows"
  by (simp add: update_where_def)

lemma set_update_where: "set (update_where P f rows) = (\<lambda>r. if P r then f r else r) ` set rows"
  by (simp add: update_where_def)

lemma map_update_where [simp]:
  "(\<And>r. k (f r) = k r) \<Longrightarrow> map k (update_where P f rows) = map k rows"
  by (simp add: update_where_def if_distrib [of k] cong: if_cong)

lemma unique_on_update_where [simp]:
  "(\<And>r. k (f r) = k r) \<Longrightarrow> unique_on k (update_where P f rows) = unique_on k rows"
  by (simp add: unique_on_def)

lemma unique_on_insert_unless:
  "unique_on k rows \<Longrightarrow> (\<And>x. x \<in> set rows \<Longrightarrow> k x = k r \<Longrightarrow> c x) \<Longrightarrow> unique_on k (insert_unless c r rows)"
  by (auto simp: unique_on_def insert_unless_def list_ex_iff image_def)

lemma update_where_ident [simp]: "update_where P (\<lambda>r. r) rows = rows"
  by (simp add: update_where_def)

lemma update_where_none: "(\<And>r. r \<in> set rows \<Longrightarrow> \<not> P r) \<Longrightarrow> update_where P f rows = rows"
  by (induction rows) (auto simp: update_where_def)

text \<open>Reading one row by a unique key.\<close>

definition row_by :: "('r \<Rightarrow> 'k) \<Rightarrow> 'k \<Rightarrow> 'r list \<Rightarrow> 'r option" where
  \<comment> \<open>\<open>select(T).where(T.key == k)\<close> and \<open>scalar_one_or_none\<close>\<close>
  "row_by key k rows = find (\<lambda>r. key r = k) rows"

definition modify_by :: "('r \<Rightarrow> 'k) \<Rightarrow> 'k \<Rightarrow> ('r \<Rightarrow> 'r) \<Rightarrow> 'r list \<Rightarrow> 'r list" where
  "modify_by key k f rows = update_where (\<lambda>r. key r = k) f rows"

lemma row_by_Nil [simp]: "row_by key k [] = None"
  by (simp add: row_by_def)

lemma row_by_Cons: "row_by key k (r # rs) = (if key r = k then Some r else row_by key k rs)"
  by (simp add: row_by_def)

lemma row_by_append: "row_by key k (xs @ ys) = (case row_by key k xs of Some r \<Rightarrow> Some r | None \<Rightarrow> row_by key k ys)"
  by (induction xs) (auto simp: row_by_Cons)

lemma row_by_key: "row_by key k rows = Some r \<Longrightarrow> key r = k"
  by (auto simp: row_by_def find_Some_iff)

lemma row_by_mem: "row_by key k rows = Some r \<Longrightarrow> r \<in> set rows"
  by (auto simp: row_by_def find_Some_iff)

lemma row_by_None: "row_by key k rows = None \<longleftrightarrow> (\<forall>r \<in> set rows. key r \<noteq> k)"
  by (auto simp: row_by_def find_None_iff)

lemma row_by_unique: "unique_on key rows \<Longrightarrow> r \<in> set rows \<Longrightarrow> row_by key (key r) rows = Some r"
  by (induction rows) (auto simp: row_by_Cons unique_on_def rev_image_eqI)

lemma row_by_map: "(\<And>r. key (g r) = key r) \<Longrightarrow> row_by key k (map g rows) = map_option g (row_by key k rows)"
  by (induction rows) (simp_all add: row_by_Cons)

lemma row_by_update_where:
  assumes "\<And>r. key (f r) = key r"
  shows "row_by key k (update_where P f rows) =
           map_option (\<lambda>r. if P r then f r else r) (row_by key k rows)"
  using assms by (induction rows) (auto simp: row_by_Cons update_where_def)

lemma row_by_modify_by:
  assumes "\<And>r. key (f r) = key r"
  shows "row_by key k (modify_by key k' f rows) =
           (if k = k' then map_option f (row_by key k rows) else row_by key k rows)"
  using row_by_key [of key k rows]
  by (cases "row_by key k rows") (auto simp: modify_by_def row_by_update_where assms)

lemma unique_on_modify_by [simp]:
  "(\<And>r. key' (f r) = key' r) \<Longrightarrow> unique_on key' (modify_by key k f rows) = unique_on key' rows"
  by (simp add: modify_by_def)

lemma length_modify_by [simp]: "length (modify_by key k f rows) = length rows"
  by (simp add: modify_by_def)

text \<open>
  The interface of a table with a unique key, which the account, job and usage tables provide:
  a change of one row is seen under its key and nowhere else.
\<close>

locale keyed_table =
  fixes fetch :: "'db \<Rightarrow> 'k \<Rightarrow> 'r option"
    and change :: "'k \<Rightarrow> ('r \<Rightarrow> 'r) \<Rightarrow> 'db \<Rightarrow> 'db"
    and ok :: "('r \<Rightarrow> 'r) \<Rightarrow> bool"
  assumes fetch_change: "ok f \<Longrightarrow> fetch (change k f d) k' = (if k' = k then map_option f (fetch d k') else fetch d k')"
begin

lemma fetch_same: "ok f \<Longrightarrow> fetch (change k f d) k = map_option f (fetch d k)"
  by (simp add: fetch_change)

lemma fetch_other: "ok f \<Longrightarrow> k' \<noteq> k \<Longrightarrow> fetch (change k f d) k' = fetch d k'"
  by (simp add: fetch_change)

lemma fetch_exists: "ok f \<Longrightarrow> (fetch (change k f d) k' = None) = (fetch d k' = None)"
  by (simp add: fetch_change)

lemma fetch_change_all:
  \<comment> \<open>a condition that the change keeps holds of every row afterwards\<close>
  "ok f \<Longrightarrow> (\<And>r. Q r \<Longrightarrow> Q (f r)) \<Longrightarrow> (\<And>k r. fetch d k = Some r \<Longrightarrow> Q r) \<Longrightarrow>
   fetch (change k f d) k' = Some r' \<Longrightarrow> Q r'"
  by (auto simp: fetch_change split: if_splits)

end

definition account_of :: "database \<Rightarrow> uuid \<Rightarrow> billing_account option" where
  "account_of d c = row_by ba_company_id c (db_accounts d)"

definition change_account :: "uuid \<Rightarrow> (billing_account \<Rightarrow> billing_account) \<Rightarrow> database \<Rightarrow> database" where
  "change_account c f d = d\<lparr>db_accounts := modify_by ba_company_id c f (db_accounts d)\<rparr>"

definition job_row :: "database \<Rightarrow> uuid \<Rightarrow> job option" where
  "job_row d j = row_by job_id j (db_jobs d)"

definition job_of :: "database \<Rightarrow> uuid \<Rightarrow> uuid \<Rightarrow> job option" where
  \<comment> \<open>\<open>select(Job).where(Job.id == j, Job.company_id == c)\<close>\<close>
  "job_of d j c = (case job_row d j of Some r \<Rightarrow> if job_company_id r = c then Some r else None | None \<Rightarrow> None)"

definition change_job :: "uuid \<Rightarrow> (job \<Rightarrow> job) \<Rightarrow> database \<Rightarrow> database" where
  "change_job j f d = d\<lparr>db_jobs := modify_by job_id j f (db_jobs d)\<rparr>"

definition keeps_account_key :: "(billing_account \<Rightarrow> billing_account) \<Rightarrow> bool" where
  "keeps_account_key f \<longleftrightarrow> (\<forall>r. ba_company_id (f r) = ba_company_id r)"

definition keeps_job_key :: "(job \<Rightarrow> job) \<Rightarrow> bool" where
  "keeps_job_key f \<longleftrightarrow> (\<forall>r. job_id (f r) = job_id r \<and> job_company_id (f r) = job_company_id r)"

lemma keeps_account_keyI [intro]: "(\<And>r. ba_company_id (f r) = ba_company_id r) \<Longrightarrow> keeps_account_key f"
  by (simp add: keeps_account_key_def)

lemma keeps_job_keyI [intro]:
  "(\<And>r. job_id (f r) = job_id r) \<Longrightarrow> (\<And>r. job_company_id (f r) = job_company_id r) \<Longrightarrow> keeps_job_key f"
  by (simp add: keeps_job_key_def)

interpretation acct: keyed_table account_of change_account keeps_account_key
  by unfold_locales (auto simp: account_of_def change_account_def keeps_account_key_def row_by_modify_by)

interpretation jobs: keyed_table job_row change_job keeps_job_key
  by unfold_locales (auto simp: job_row_def change_job_def keeps_job_key_def row_by_modify_by)

lemma account_of_company: "account_of d c = Some a \<Longrightarrow> ba_company_id a = c"
  by (auto simp: account_of_def dest: row_by_key)

lemma job_of_change_job:
  assumes "keeps_job_key f"
  shows "job_of (change_job j f d) j' c = (if j' = j then map_option f (job_of d j' c) else job_of d j' c)"
  using assms by (auto simp: job_of_def jobs.fetch_change keeps_job_key_def split: option.splits)

lemma job_of_key: "job_of d j c = Some r \<Longrightarrow> job_id r = j \<and> job_company_id r = c"
  by (auto simp: job_of_def job_row_def dest: row_by_key split: option.splits if_splits)

lemma job_of_change_account [simp]: "job_of (change_account c f d) j c' = job_of d j c'"
  by (simp add: job_of_def job_row_def change_account_def)

lemma account_of_change_job [simp]: "account_of (change_job j f d) c = account_of d c"
  by (simp add: account_of_def change_job_def)

lemma db_jobs_change_account [simp]: "db_jobs (change_account c f d) = db_jobs d"
  by (simp add: change_account_def)

lemma db_accounts_change_job [simp]: "db_accounts (change_job j f d) = db_accounts d"
  by (simp add: change_job_def)

subsection \<open>The unique constraints\<close>

definition ledger_key :: "usage_ledger \<Rightarrow> uuid \<times> uuid" where
  "ledger_key r = (the (ul_job_id r), ul_company_id r)"

definition wf_db :: "database \<Rightarrow> bool" where
  "wf_db d \<longleftrightarrow>
     unique_on ba_company_id (db_accounts d) \<and>
     unique_on ledger_key (filter (\<lambda>r. ul_job_id r \<noteq> None) (db_ledger d)) \<and>
     unique_on (\<lambda>r. (ud_user_id r, ud_company_id r, ud_date r)) (db_user_usage d) \<and>
     unique_on (\<lambda>r. (ik_company_id r, ik_user_id r, ik_key r)) (db_idempotency d) \<and>
     unique_on job_id (db_jobs d) \<and>
     unique_on (\<lambda>r. (ao_job_id r, ao_output_type r, ao_company_id r)) (db_ai_outputs d)"

lemma wf_db_change_account [inv_intros]:
  "wf_db d \<Longrightarrow> keeps_account_key f \<Longrightarrow> wf_db (change_account c f d)"
  by (simp add: wf_db_def change_account_def keeps_account_key_def)

lemma wf_db_change_job [inv_intros]:
  "wf_db d \<Longrightarrow> keeps_job_key f \<Longrightarrow> wf_db (change_job j f d)"
  by (simp add: wf_db_def change_job_def keeps_job_key_def)

end
