(* ===== verification/EstimateFlow.thy ===== *)
theory EstimateFlow
  imports DataModel PyValue
begin

text \<open>
  Estimates: the tables of \<open>app/estimates/models.py\<close> that the code below writes, the status
  machine of \<open>estimates/state_machine.py\<close>, and the audit snapshots of \<open>estimates/audit.py\<close> with
  the difference of two snapshots.
\<close>

section \<open>Tables\<close>

datatype estimate_status = AI_pending | Draft | In_review | Approved | Sent | Accepted | Rejected

fun status_value :: "estimate_status \<Rightarrow> string" where
  "status_value AI_pending = ''ai_pending''"
| "status_value Draft = ''draft''"
| "status_value In_review = ''in_review''"
| "status_value Approved = ''approved''"
| "status_value Sent = ''sent''"
| "status_value Accepted = ''accepted''"
| "status_value Rejected = ''rejected''"

definition all_statuses :: "estimate_status list" where
  "all_statuses = [AI_pending, Draft, In_review, Approved, Sent, Accepted, Rejected]"

definition status_of :: "string \<Rightarrow> estimate_status option" where
  \<comment> \<open>the constructor call \<open>EstimateStatus(s)\<close>, which raises \<open>ValueError\<close> on any other string\<close>
  "status_of s = find (\<lambda>st. status_value st = s) all_statuses"

lemma status_of_value [simp]: "status_of (status_value st) = Some st"
  by (cases st) (simp_all add: status_of_def all_statuses_def)

lemma status_value_of: "status_of s = Some st \<Longrightarrow> s = status_value st"
  by (auto simp: status_of_def dest: find_SomeD)

record estimate =
  es_id :: uuid
  es_company_id :: uuid
  es_job_id :: "uuid option"
  es_customer_id :: "uuid option"
  es_status :: string
  es_title :: "string option"
  es_description :: "string option"
  es_subtotal :: rat
  es_tax :: rat
  es_total :: rat
  es_confidence_score :: pyfloat
  es_assumptions :: pyval
  es_notes :: "string option"
  es_ai_generated :: bool
  es_approved_at :: "micros option"
  es_sent_at :: "micros option"
  es_is_deleted :: bool
  es_deleted_at :: "micros option"
  es_created_at :: micros
  es_updated_at :: micros

record estimate_line_item =
  li_id :: uuid
  li_estimate_id :: uuid
  li_company_id :: uuid
  li_name :: string
  li_item_type :: string
  li_quantity :: pyfloat
  li_rate :: pyfloat
  li_total :: pyfloat
  li_sort_order :: int
  li_ai_quantity :: "pyfloat option"
  li_ai_rate :: "pyfloat option"
  li_ai_total :: "pyfloat option"
  li_override_reason :: "string option"
  li_created_at :: micros
  li_updated_at :: micros

section \<open>The status machine\<close>

fun allowed_statuses :: "estimate_status \<Rightarrow> estimate_status list" where
  "allowed_statuses AI_pending = [Draft]"
| "allowed_statuses Draft = [In_review, Approved]"
| "allowed_statuses In_review = [Approved, Draft]"
| "allowed_statuses Approved = [Sent, In_review]"
| "allowed_statuses Sent = [Accepted, Rejected]"
| "allowed_statuses Accepted = []"
| "allowed_statuses Rejected = [Draft]"

definition validate_transition :: "estimate_status \<Rightarrow> estimate_status \<Rightarrow> bool" where
  "validate_transition current target = (target \<in> set (allowed_statuses current))"

definition set_status :: "estimate_status \<Rightarrow> micros \<Rightarrow> estimate \<Rightarrow> estimate" where
  "set_status target now e =
     (let e' = e\<lparr>es_status := status_value target\<rparr>
      in if target = Approved then e'\<lparr>es_approved_at := Some now\<rparr>
         else if target = Sent then e'\<lparr>es_sent_at := Some now\<rparr>
         else e')"

definition estimate_of :: "estimate list \<Rightarrow> uuid \<Rightarrow> uuid \<Rightarrow> estimate option" where
  "estimate_of tbl i c =
     (case row_by es_id i tbl of Some e \<Rightarrow> if es_company_id e = c then Some e else None | None \<Rightarrow> None)"

definition transition_estimate ::
    "estimate list \<Rightarrow> uuid \<Rightarrow> uuid \<Rightarrow> estimate_status \<Rightarrow> micros \<Rightarrow> pyerr + bool \<times> estimate list" where
  "transition_estimate tbl estimate_id company_id target now =
     (case estimate_of tbl estimate_id company_id of
        None \<Rightarrow> Inr (False, tbl)
      | Some e \<Rightarrow>
          (case status_of (es_status e) of
             None \<Rightarrow> Inl ValueError
           | Some current \<Rightarrow>
               if validate_transition current target
               then Inr (True, modify_by es_id estimate_id (set_status target now) tbl)
               else Inr (False, tbl)))"

lemma set_status_simps [simp]:
  "es_id (set_status t now e) = es_id e"
  "es_company_id (set_status t now e) = es_company_id e"
  "es_status (set_status t now e) = status_value t"
  "es_approved_at (set_status t now e) = (if t = Approved then Some now else es_approved_at e)"
  "es_sent_at (set_status t now e) = (if t = Sent then Some now else es_sent_at e)"
  by (simp_all add: set_status_def Let_def)

subsection \<open>Histories of one estimate\<close>

inductive estimate_step :: "estimate \<Rightarrow> estimate \<Rightarrow> bool" where
  transition: "status_of (es_status e) = Some current \<Longrightarrow> validate_transition current target \<Longrightarrow>
    estimate_step e (set_status target now e)"

inductive_cases estimate_stepE: "estimate_step e e'"

definition new_estimate :: "estimate \<Rightarrow> bool" where
  "new_estimate e \<longleftrightarrow> es_status e \<in> {status_value AI_pending, status_value Draft}"

definition dates_ok :: "estimate \<Rightarrow> bool" where
  \<comment> \<open>the dates that the status promises are there\<close>
  "dates_ok e \<longleftrightarrow>
     (es_status e \<in> {status_value Approved, status_value Sent, status_value Accepted, status_value Rejected}
        \<longrightarrow> es_approved_at e \<noteq> None) \<and>
     (es_status e \<in> {status_value Sent, status_value Accepted, status_value Rejected} \<longrightarrow> es_sent_at e \<noteq> None)"

lemma validate_cases:
  "validate_transition c t \<Longrightarrow>
   (c, t) \<in> {(AI_pending, Draft), (Draft, In_review), (Draft, Approved), (In_review, Approved), (In_review, Draft),
             (Approved, Sent), (Approved, In_review), (Sent, Accepted), (Sent, Rejected), (Rejected, Draft)}"
  by (cases c) (auto simp: validate_transition_def)

lemma status_value_inject [simp]: "status_value a = status_value b \<longleftrightarrow> a = b"
  by (cases a; cases b; simp)

lemma dates_ok_status:
  "es_status e = status_value s \<Longrightarrow>
   dates_ok e \<longleftrightarrow> (s \<in> {Approved, Sent, Accepted, Rejected} \<longrightarrow> es_approved_at e \<noteq> None) \<and>
                 (s \<in> {Sent, Accepted, Rejected} \<longrightarrow> es_sent_at e \<noteq> None)"
  by (simp add: dates_ok_def del: status_value.simps)

lemma dates_ok_new [inv_intros]: "new_estimate e \<Longrightarrow> dates_ok e"
  by (auto simp: new_estimate_def dates_ok_status simp del: status_value.simps)

lemma dates_ok_step [inv_intros]:
  assumes "estimate_step e e'" "dates_ok e"
  shows "dates_ok e'"
  using assms(1)
proof (rule estimate_stepE)
  fix current target now
  assume "e' = set_status target now e" "status_of (es_status e) = Some current" "validate_transition current target"
  moreover from this(2) have "es_status e = status_value current" by (rule status_value_of)
  moreover have "es_status (set_status target now e) = status_value target" by simp
  ultimately show ?thesis
    using assms(2) validate_cases [of current target] by (fastforce simp: dates_ok_status simp del: status_value.simps)
qed

lemma dates_ok_reachable: "estimate_step\<^sup>*\<^sup>* e e' \<Longrightarrow> dates_ok e \<Longrightarrow> dates_ok e'"
  by (induction rule: rtranclp_induct) (auto intro: dates_ok_step)

lemma transition_is_step:
  "transition_estimate tbl i c target now = Inr (True, tbl') \<Longrightarrow>
   \<exists>e. estimate_of tbl i c = Some e \<and> estimate_step e (set_status target now e) \<and>
       estimate_of tbl' i c = Some (set_status target now e)"
  by (auto simp: transition_estimate_def estimate_of_def row_by_modify_by intro!: estimate_step.transition
      split: option.splits if_splits)

text \<open>
  What a status promises about an estimate's past: along any sequence of transitions from a
  new (drafted or AI-generated) estimate, an estimate that is sent, accepted or rejected has both
  its approval date and its sending date, and an approved one has its approval date.
\<close>

theorem reachable_estimate_dates:
  assumes "new_estimate e" "estimate_step\<^sup>*\<^sup>* e e'"
  shows "dates_ok e'"
  using assms by (auto intro: dates_ok_new dates_ok_reachable)

definition draft_estimate :: estimate where
  "draft_estimate = \<lparr>es_id = 1, es_company_id = 7, es_job_id = None, es_customer_id = None,
     es_status = ''draft'', es_title = None, es_description = None, es_subtotal = 0, es_tax = 0, es_total = 0,
     es_confidence_score = 0, es_assumptions = VList [], es_notes = None, es_ai_generated = True,
     es_approved_at = None, es_sent_at = None, es_is_deleted = False, es_deleted_at = None,
     es_created_at = 0, es_updated_at = 0\<rparr>"

theorem reachable_estimate_dates_witness:
  "dates_ok (set_status Sent 9 (set_status Approved 5 draft_estimate))"
proof -
  have "estimate_step draft_estimate (set_status Approved 5 draft_estimate)"
    by (rule estimate_step.transition [of _ Draft])
       (simp_all add: draft_estimate_def validate_transition_def status_of_def all_statuses_def)
  moreover have "estimate_step (set_status Approved 5 draft_estimate)
      (set_status Sent 9 (set_status Approved 5 draft_estimate))"
    by (rule estimate_step.transition [of _ Approved])
       (simp_all add: validate_transition_def status_of_def all_statuses_def)
  ultimately have "estimate_step\<^sup>*\<^sup>* draft_estimate (set_status Sent 9 (set_status Approved 5 draft_estimate))"
    by (meson rtranclp.rtrancl_into_rtrancl rtranclp.rtrancl_refl)
  with reachable_estimate_dates [of draft_estimate] show ?thesis
    by (simp add: new_estimate_def draft_estimate_def)
qed

text \<open>
  \<open>transition_estimate\<close> in full: it answers true exactly when the company owns the estimate
  and the machine allows the change; only that row changes, in its status and the date of the new
  status; refused calls change nothing; an accepted estimate never changes again; and another
  company's call is refused whatever it asks.
\<close>

theorem transition_estimate_spec:
  "case transition_estimate tbl i c target now of
     Inl err \<Rightarrow> err = ValueError \<and> (\<exists>e. estimate_of tbl i c = Some e \<and> status_of (es_status e) = None)
   | Inr (done, tbl') \<Rightarrow>
       (done \<longleftrightarrow> (\<exists>e s. estimate_of tbl i c = Some e \<and> status_of (es_status e) = Some s \<and> target \<in> set (allowed_statuses s))) \<and>
       (\<forall>j. row_by es_id j tbl' =
              (if done \<and> j = i then map_option (set_status target now) (row_by es_id j tbl) else row_by es_id j tbl)) \<and>
       (done \<longrightarrow> (\<exists>e. estimate_of tbl i c = Some e \<and> es_status e \<noteq> ''accepted'' \<and> es_company_id e = c))"
proof -
  have acc: "status_of ''accepted'' = Some Accepted" by (simp add: status_of_def all_statuses_def)
  have own: "es_company_id e = c" if "estimate_of tbl i c = Some e" for e
    using that by (auto simp: estimate_of_def split: option.splits if_splits)
  show ?thesis
    by (auto simp: transition_estimate_def validate_transition_def row_by_modify_by acc dest: own split: option.splits)
qed

theorem transition_estimate_spec_witness:
  "fst (projr (transition_estimate [draft_estimate] 1 8 Approved 5)) = False"
proof -
  have "estimate_of [draft_estimate] 1 8 = None"
    by (simp add: estimate_of_def row_by_Cons draft_estimate_def)
  with transition_estimate_spec [of "[draft_estimate]" 1 8 Approved 5] show ?thesis
    by (auto split: sum.splits)
qed

end
