(* ===== verification/EstimateAudit.thy ===== *)
theory EstimateAudit
  imports EstimateFlow
begin

text \<open>
  The audit trail of an estimate, \<open>app/estimates/audit.py\<close>: the snapshot of an estimate with its
  line items, the snapshot rows, and the difference of two snapshots. A snapshot always has the
  keys of \<open>build_estimate_snapshot\<close>, so it is a record; a difference is a dictionary (an association
  list in insertion order). An amount is a \<open>Decimal\<close> when it was read from its \<open>NUMERIC\<close> column and a
  float when a request has assigned it; Python compares the two by their exact values.
\<close>

section \<open>Snapshots\<close>

datatype number = Flt pyfloat | Dec pydec

primrec number_value :: "number \<Rightarrow> rat" where
  "number_value (Flt x) = x"
| "number_value (Dec x) = x"

primrec is_decimal :: "number \<Rightarrow> bool" where
  "is_decimal (Flt x) = False"
| "is_decimal (Dec x) = True"

record item_snapshot =
  it_name :: string
  it_item_type :: string
  it_quantity :: pyfloat
  it_rate :: pyfloat
  it_total :: pyfloat
  it_sort_order :: int
  it_ai_quantity :: "pyfloat option"
  it_ai_rate :: "pyfloat option"
  it_ai_total :: "pyfloat option"
  it_override_reason :: "string option"

record snapshot =
  sn_status :: string
  sn_title :: "string option"
  sn_description :: "string option"
  sn_subtotal :: number
  sn_tax :: number
  sn_total :: number
  sn_confidence_score :: pyfloat
  sn_assumptions :: pyval
  sn_notes :: "string option"
  sn_ai_generated :: bool
  sn_line_items :: "item_snapshot list"

record amounts =
  \<comment> \<open>what the three amount attributes of an estimate object hold in a session\<close>
  am_subtotal :: number
  am_tax :: number
  am_total :: number

definition loaded_amounts :: "estimate \<Rightarrow> amounts" where
  "loaded_amounts e = \<lparr>am_subtotal = Dec (es_subtotal e), am_tax = Dec (es_tax e), am_total = Dec (es_total e)\<rparr>"

definition item_snapshot_of :: "estimate_line_item \<Rightarrow> item_snapshot" where
  "item_snapshot_of li =
     \<lparr>it_name = li_name li, it_item_type = li_item_type li, it_quantity = li_quantity li, it_rate = li_rate li,
      it_total = li_total li, it_sort_order = li_sort_order li, it_ai_quantity = li_ai_quantity li,
      it_ai_rate = li_ai_rate li, it_ai_total = li_ai_total li, it_override_reason = li_override_reason li\<rparr>"

definition build_estimate_snapshot :: "amounts \<Rightarrow> estimate \<Rightarrow> estimate_line_item list \<Rightarrow> snapshot" where
  "build_estimate_snapshot am e line_items =
     \<lparr>sn_status = es_status e, sn_title = es_title e, sn_description = es_description e,
      sn_subtotal = am_subtotal am, sn_tax = am_tax am, sn_total = am_total am,
      sn_confidence_score = es_confidence_score e, sn_assumptions = es_assumptions e, sn_notes = es_notes e,
      sn_ai_generated = es_ai_generated e, sn_line_items = map item_snapshot_of line_items\<rparr>"

section \<open>Differences\<close>

datatype scalar = Null | Text string | Num rat

definition opt_text :: "string option \<Rightarrow> scalar" where
  "opt_text s = (case s of None \<Rightarrow> Null | Some t \<Rightarrow> Text t)"

definition scalar_fields :: "(string \<times> (snapshot \<Rightarrow> scalar)) list" where
  "scalar_fields =
     [(''title'', \<lambda>s. opt_text (sn_title s)), (''description'', \<lambda>s. opt_text (sn_description s)),
      (''subtotal'', \<lambda>s. Num (number_value (sn_subtotal s))), (''tax'', \<lambda>s. Num (number_value (sn_tax s))),
      (''total'', \<lambda>s. Num (number_value (sn_total s))), (''confidence_score'', \<lambda>s. Num (sn_confidence_score s)),
      (''notes'', \<lambda>s. opt_text (sn_notes s)), (''status'', \<lambda>s. Text (sn_status s))]"

definition item_fields :: "(string \<times> (item_snapshot \<Rightarrow> scalar)) list" where
  "item_fields =
     [(''name'', \<lambda>i. Text (it_name i)), (''item_type'', \<lambda>i. Text (it_item_type i)),
      (''quantity'', \<lambda>i. Num (it_quantity i)), (''rate'', \<lambda>i. Num (it_rate i)), (''total'', \<lambda>i. Num (it_total i))]"

definition changed :: "(string \<times> ('s \<Rightarrow> scalar)) list \<Rightarrow> 's \<Rightarrow> 's \<Rightarrow> (string \<times> scalar \<times> scalar) list" where
  "changed fs p c = [(f, get p, get c). (f, get) \<leftarrow> fs, get p \<noteq> get c]"

datatype item_change = Changes "(string \<times> scalar \<times> scalar) list" | Removed item_snapshot | Added item_snapshot

datatype diff_value = From_to scalar scalar | Flag_from_to bool bool | Items "(int \<times> item_change) list"

definition by_sort_order :: "item_snapshot list \<Rightarrow> int \<rightharpoonup> item_snapshot" where
  \<comment> \<open>\<open>{li["sort_order"]: li for li in items}\<close>: a later item replaces an earlier one\<close>
  "by_sort_order items = map_of (rev (map (\<lambda>li. (it_sort_order li, li)) items))"

definition all_keys :: "snapshot \<Rightarrow> snapshot \<Rightarrow> int list" where
  "all_keys p c = sort (remdups (map it_sort_order (sn_line_items p) @ map it_sort_order (sn_line_items c)))"

definition item_diff :: "item_snapshot option \<Rightarrow> item_snapshot option \<Rightarrow> item_change option" where
  "item_diff p c =
     (case (p, c) of
        (Some p, Some c) \<Rightarrow> (let ch = changed item_fields p c in if ch = [] then None else Some (Changes ch))
      | (Some p, None) \<Rightarrow> Some (Removed p)
      | (None, Some c) \<Rightarrow> Some (Added c)
      | (None, None) \<Rightarrow> None)"

definition item_diffs :: "snapshot \<Rightarrow> snapshot \<Rightarrow> (int \<times> item_change) list" where
  "item_diffs p c =
     List.map_filter (\<lambda>k. map_option (Pair k)
       (item_diff (by_sort_order (sn_line_items p) k) (by_sort_order (sn_line_items c) k))) (all_keys p c)"

definition compute_snapshot_diff :: "snapshot \<Rightarrow> snapshot \<Rightarrow> (string \<times> diff_value) list" where
  "compute_snapshot_diff previous current =
     map (\<lambda>(f, a, b). (f, From_to a b)) (changed scalar_fields previous current) @
     (let ids = item_diffs previous current in if ids = [] then [] else [(''line_items'', Items ids)]) @
     (if sn_ai_generated previous \<noteq> sn_ai_generated current
      then [(''ai_generated'', Flag_from_to (sn_ai_generated previous) (sn_ai_generated current))] else [])"

section \<open>What a difference says\<close>

definition same_item :: "item_snapshot option \<Rightarrow> item_snapshot option \<Rightarrow> bool" where
  \<comment> \<open>equal in the fields that a difference tracks\<close>
  "same_item p c = rel_option (\<lambda>p c. \<forall>(f, get) \<in> set item_fields. get p = get c) p c"

definition new_item_field :: "(int \<times> item_change) list \<Rightarrow> snapshot \<Rightarrow> int \<Rightarrow> string \<times> (item_snapshot \<Rightarrow> scalar) \<Rightarrow> scalar option" where
  \<comment> \<open>the field of the item at a place, read from the previous snapshot and the difference\<close>
  "new_item_field ids p k = (\<lambda>(f, get).
     (case map_of ids k of
        Some (Added i) \<Rightarrow> Some (get i)
      | Some (Removed i) \<Rightarrow> None
      | Some (Changes ch) \<Rightarrow> (case map_of ch f of Some (a, b) \<Rightarrow> Some b
                             | None \<Rightarrow> map_option get (by_sort_order (sn_line_items p) k))
      | None \<Rightarrow> map_option get (by_sort_order (sn_line_items p) k)))"

definition diff_items :: "(string \<times> diff_value) list \<Rightarrow> (int \<times> item_change) list" where
  "diff_items df = (case map_of df ''line_items'' of Some (Items ids) \<Rightarrow> ids | _ \<Rightarrow> [])"

definition new_scalar :: "(string \<times> diff_value) list \<Rightarrow> snapshot \<Rightarrow> string \<times> (snapshot \<Rightarrow> scalar) \<Rightarrow> scalar" where
  "new_scalar df p = (\<lambda>(f, get). case map_of df f of Some (From_to a b) \<Rightarrow> b | _ \<Rightarrow> get p)"

lemma map_of_changed:
  "distinct (map fst fs) \<Longrightarrow> (f, get) \<in> set fs \<Longrightarrow>
   map_of (changed fs p c) f = (if get p \<noteq> get c then Some (get p, get c) else None)"
proof (induction fs)
  case (Cons x xs)
  have "map_of (changed xs p c) f = None" if "f \<notin> fst ` set xs"
    using that by (auto simp: changed_def map_of_eq_None_iff image_iff split: if_splits)
  with Cons show ?case by (cases x) (force simp: changed_def)
qed simp

lemma changed_Nil: "changed fs p c = [] \<longleftrightarrow> (\<forall>(f, get) \<in> set fs. get p = get c)"
  by (induction fs) (auto simp: changed_def split: if_splits)

lemma by_sort_order_dom: "by_sort_order items k = None \<longleftrightarrow> k \<notin> it_sort_order ` set items"
  by (simp add: by_sort_order_def map_of_eq_None_iff image_image)

lemma map_of_map_filter:
  "map_of (List.map_filter (\<lambda>k. map_option (Pair k) (g k)) ks) k = (if k \<in> set ks then g k else None)"
  by (induction ks) (auto simp: List.map_filter_def split: option.splits)

lemma map_of_item_diffs:
  "map_of (item_diffs p c) k = item_diff (by_sort_order (sn_line_items p) k) (by_sort_order (sn_line_items c) k)"
proof -
  have "k \<in> set (all_keys p c) \<longleftrightarrow> k \<in> it_sort_order ` set (sn_line_items p) \<union> it_sort_order ` set (sn_line_items c)"
    by (simp add: all_keys_def)
  then show ?thesis
    by (auto simp: item_diffs_def map_of_map_filter item_diff_def by_sort_order_dom [symmetric])
qed

lemma item_diff_None: "item_diff p c = None \<longleftrightarrow> same_item p c"
  by (cases p; cases c) (simp_all add: item_diff_def same_item_def changed_Nil Let_def)

lemma map_filter_Nil: "List.map_filter g ks = [] \<longleftrightarrow> (\<forall>k \<in> set ks. g k = None)"
  by (induction ks) (auto simp: List.map_filter_def split: option.splits)

lemma item_diffs_Nil:
  "item_diffs p c = [] \<longleftrightarrow> (\<forall>k. same_item (by_sort_order (sn_line_items p) k) (by_sort_order (sn_line_items c) k))"
  (is "?l \<longleftrightarrow> ?r")
proof
  assume ?l
  then have "map_of (item_diffs p c) k = None" for k by simp
  then show ?r by (simp add: map_of_item_diffs item_diff_None)
next
  assume ?r
  then show ?l by (simp add: item_diffs_def map_filter_Nil item_diff_None)
qed

lemma map_of_diff:
  "map_of (compute_snapshot_diff p c) f =
     (if f = ''line_items'' then (if item_diffs p c = [] then None else Some (Items (item_diffs p c)))
      else if f = ''ai_generated'' then
        (if sn_ai_generated p = sn_ai_generated c then None
         else Some (Flag_from_to (sn_ai_generated p) (sn_ai_generated c)))
      else map_option (\<lambda>(a, b). From_to a b) (map_of (changed scalar_fields p c) f))"
proof -
  have "fst ` set (changed scalar_fields p c) \<subseteq> fst ` set scalar_fields"
    by (force simp: changed_def split: if_splits)
  then have "f \<in> {''line_items'', ''ai_generated''} \<Longrightarrow> f \<notin> fst ` set (changed scalar_fields p c)"
    by (auto simp: scalar_fields_def)
  then have none: "f \<in> {''line_items'', ''ai_generated''} \<Longrightarrow> map_of (changed scalar_fields p c) f = None"
    by (simp add: map_of_eq_None_iff)
  have pairs: "map (\<lambda>(f, a, b). (f, From_to a b)) xs = map (\<lambda>(k, v). (k, (\<lambda>(a, b). From_to a b) v)) xs" for xs
    by (simp add: case_prod_beta)
  show ?thesis
    unfolding compute_snapshot_diff_def pairs map_of_append map_of_map Let_def
    using none by (cases "map_of (changed scalar_fields p c) f") (auto simp: map_add_def comp_def)
qed

lemma distinct_scalar_fields: "distinct (map fst scalar_fields)"
  by (simp add: scalar_fields_def)

lemma distinct_item_fields: "distinct (map fst item_fields)"
  by (simp add: item_fields_def)

lemma new_scalar_exact:
  assumes "fld \<in> set scalar_fields"
  shows "new_scalar (compute_snapshot_diff p c) p fld = snd fld c"
proof -
  obtain f get where fld: "fld = (f, get)" by force
  have "f \<notin> {''line_items'', ''ai_generated''}" using assms by (auto simp: fld scalar_fields_def)
  then show ?thesis
    using map_of_changed [OF distinct_scalar_fields, of f get p c] assms
    by (simp add: fld new_scalar_def map_of_diff)
qed

lemma new_item_field_exact:
  assumes "fld \<in> set item_fields"
  shows "new_item_field (item_diffs p c) p k fld = map_option (snd fld) (by_sort_order (sn_line_items c) k)"
proof -
  obtain f get where fld: "fld = (f, get)" by force
  note ch = map_of_changed [OF distinct_item_fields assms [unfolded fld]]
  show ?thesis
  proof (cases "item_diff (by_sort_order (sn_line_items p) k) (by_sort_order (sn_line_items c) k)")
    case None
    then have "same_item (by_sort_order (sn_line_items p) k) (by_sort_order (sn_line_items c) k)" by (simp add: item_diff_None)
    then have "map_option get (by_sort_order (sn_line_items p) k) = map_option get (by_sort_order (sn_line_items c) k)"
      using assms unfolding same_item_def fld by (cases rule: option.rel_cases) auto
    with None show ?thesis by (simp add: fld new_item_field_def map_of_item_diffs)
  next
    case (Some d)
    then show ?thesis
      by (auto simp: fld new_item_field_def map_of_item_diffs item_diff_def Let_def ch split: option.splits if_splits)
  qed
qed

text \<open>
  C34. A difference loses nothing that it tracks: from the previous snapshot and the difference alone, every
  tracked field of the current snapshot (title, description, amounts, confidence, notes, status)
  and every tracked field of the line item at each place (removed and added items included) can
  be read back; and the difference is empty exactly when nothing tracked has changed.
\<close>

theorem snapshot_diff_exact:
  "let df = compute_snapshot_diff p c in
   map (new_scalar df p) scalar_fields = map (\<lambda>fld. snd fld c) scalar_fields \<and>
   (\<forall>k. map (new_item_field (diff_items df) p k) item_fields =
         map (\<lambda>fld. map_option (snd fld) (by_sort_order (sn_line_items c) k)) item_fields) \<and>
   (df = [] \<longleftrightarrow> map (\<lambda>fld. snd fld p) scalar_fields = map (\<lambda>fld. snd fld c) scalar_fields \<and>
      sn_ai_generated p = sn_ai_generated c \<and>
      (\<forall>k. same_item (by_sort_order (sn_line_items p) k) (by_sort_order (sn_line_items c) k)))"
proof -
  have "diff_items (compute_snapshot_diff p c) = item_diffs p c"
    by (simp add: diff_items_def map_of_diff)
  moreover have "compute_snapshot_diff p c = [] \<longleftrightarrow>
      changed scalar_fields p c = [] \<and> item_diffs p c = [] \<and> sn_ai_generated p = sn_ai_generated c"
    by (auto simp: compute_snapshot_diff_def Let_def)
  ultimately show ?thesis
    by (simp add: Let_def new_scalar_exact new_item_field_exact item_diffs_Nil changed_Nil case_prod_beta conj_ac)
qed

end
