(* ===== verification/EstimateRoutes.thy ===== *)
theory EstimateRoutes
  imports EstimateAudit Pricing
begin

text \<open>
  The routes of \<open>app/estimates/router.py\<close> that move an estimate through its life (review, edit,
  approve, send, reopen, delete) and read it (list, get, audit trail), the request checks of
  \<open>estimates/schemas.py\<close> and the role gate of \<open>auth/authorize.py\<close>. A call that raises is rolled back
  by \<open>get_db\<close>, so an error carries no state. How a JSON column stores a snapshot belongs to
  SQLAlchemy: \<open>cx_json\<close> gives what is read back after a write, or \<open>None\<close> when encoding raises
  \<open>TypeError\<close>. The analytics events (\<open>log_event\<close>) are left out.
\<close>

section \<open>Requests\<close>

record line_item_create =
  lc_name :: string
  lc_item_type :: string
  lc_quantity :: pyfloat
  lc_rate :: pyfloat
  lc_total :: pyfloat
  lc_sort_order :: int
  lc_override_reason :: "string option"

record update_request =
  ur_title :: "string option"
  ur_description :: "string option"
  ur_notes :: "string option"
  ur_subtotal :: "pyfloat option"
  ur_tax :: "pyfloat option"
  ur_total :: "pyfloat option"
  ur_line_items :: "line_item_create list option"

definition far_apart :: "pyfloat \<Rightarrow> pyfloat \<Rightarrow> bool" where
  "far_apart a b = (f64 (2/100) < \<bar>fsub a b\<bar>)"

definition line_item_accepted :: "line_item_create \<Rightarrow> bool" where
  "line_item_accepted li \<longleftrightarrow>
     lc_item_type li \<in> set LINE_ITEM_TYPES \<and> \<not> lc_quantity li < 0 \<and> \<not> lc_rate li < 0 \<and>
     \<not> far_apart (lc_total li) (compute_line_item_total (lc_quantity li) (lc_rate li))"

definition model_dump :: "line_item_create \<Rightarrow> pyval" where
  "model_dump li = VDict
     [(''name'', VStr (lc_name li)), (''item_type'', VStr (lc_item_type li)), (''quantity'', VFloat (lc_quantity li)),
      (''rate'', VFloat (lc_rate li)), (''total'', VFloat (lc_total li)), (''sort_order'', VInt (lc_sort_order li)),
      (''override_reason'', (case lc_override_reason li of None \<Rightarrow> VNone | Some s \<Rightarrow> VStr s))]"

definition update_accepted :: "update_request \<Rightarrow> bool" where
  "update_accepted r \<longleftrightarrow>
     (case ur_line_items r of None \<Rightarrow> True | Some ls \<Rightarrow> list_all line_item_accepted ls) \<and>
     (case ur_subtotal r of None \<Rightarrow> True | Some s \<Rightarrow> \<not> s < 0) \<and>
     (case ur_tax r of None \<Rightarrow> True | Some t \<Rightarrow> \<not> t < 0) \<and>
     (case (ur_line_items r, ur_subtotal r) of
        (Some (l # ls), Some s) \<Rightarrow>
          (case compute_subtotal (map model_dump (l # ls)) of
             Inr c \<Rightarrow> \<not> far_apart s c
           | Inl _ \<Rightarrow> False)
      | _ \<Rightarrow> True) \<and>
     (case (ur_subtotal r, ur_tax r, ur_total r) of
        (Some s, Some t, Some u) \<Rightarrow> \<not> far_apart u (compute_total s t)
      | _ \<Rightarrow> True)"

section \<open>State and context\<close>

record audit_row =
  au_id :: uuid
  au_estimate_id :: uuid
  au_company_id :: uuid
  au_event_type :: string
  au_user_id :: string
  au_snapshot_data :: snapshot
  au_previous_snapshot_id :: "uuid option"
  au_diff_data :: "(string \<times> diff_value) list option"
  au_created_at :: micros

record estimate_store =
  st_estimates :: "estimate list"
  st_items :: "estimate_line_item list"
  st_snapshots :: "audit_row list"

datatype route_error = Http nat | Json_type_error | Unknown_status | Sum_error pyerr | Numeric_overflow

record caller =
  \<comment> \<open>who calls, when, the identifiers that \<open>uuid4\<close> hands out, and the JSON column type\<close>
  cx_company :: uuid
  cx_user :: string
  cx_role :: string
  cx_now :: micros
  cx_later :: micros
  cx_item_ids :: "nat \<Rightarrow> uuid"
  cx_snapshot_id :: uuid
  cx_json :: "snapshot \<Rightarrow> snapshot option"

definition json_dumps :: "snapshot \<Rightarrow> snapshot option" where
  \<comment> \<open>the standard library's encoder, which SQLAlchemy uses when the engine is given no other:
    floats and text come back as they were, a \<open>Decimal\<close> raises\<close>
  "json_dumps s =
     (if is_decimal (sn_subtotal s) \<or> is_decimal (sn_tax s) \<or> is_decimal (sn_total s) then None else Some s)"

definition require_roles :: "string list \<Rightarrow> string \<Rightarrow> route_error option" where
  "require_roles roles role = (if role \<in> set roles then None else Some (Http 403))"

definition staff_roles :: "string list" where "staff_roles = [''admin'', ''owner'', ''dispatcher'']"
definition admin_roles :: "string list" where "admin_roles = [''admin'', ''owner'']"

definition items_of :: "estimate_store \<Rightarrow> uuid \<Rightarrow> estimate_line_item list" where
  "items_of st i = sort_key li_sort_order (filter (\<lambda>li. li_estimate_id li = i) (st_items st))"

definition record_snapshot ::
    "caller \<Rightarrow> uuid \<Rightarrow> string \<Rightarrow> snapshot \<Rightarrow> uuid option \<Rightarrow> (string \<times> diff_value) list option \<Rightarrow> estimate_store
     \<Rightarrow> route_error + estimate_store" where
  "record_snapshot cx i event_type data prev df st =
     (case cx_json cx data of
        None \<Rightarrow> Inl Json_type_error
      | Some stored \<Rightarrow>
          Inr (st\<lparr>st_snapshots := st_snapshots st @
            [\<lparr>au_id = cx_snapshot_id cx, au_estimate_id = i, au_company_id = cx_company cx, au_event_type = event_type,
              au_user_id = cx_user cx, au_snapshot_data = stored, au_previous_snapshot_id = prev, au_diff_data = df,
              au_created_at = cx_later cx\<rparr>]\<rparr>))"

definition snapshots_of :: "estimate_store \<Rightarrow> uuid \<Rightarrow> uuid \<Rightarrow> audit_row list" where
  \<comment> \<open>oldest first; rows of equal time in the order of their insertion\<close>
  "snapshots_of st i c = sort_key au_created_at (filter (\<lambda>r. au_estimate_id r = i \<and> au_company_id r = c) (st_snapshots st))"

definition get_snapshots :: "estimate_store \<Rightarrow> uuid \<Rightarrow> uuid \<Rightarrow> nat \<Rightarrow> audit_row list" where
  "get_snapshots st i c cap = take cap (snapshots_of st i c)"

definition get_latest_snapshot :: "estimate_store \<Rightarrow> uuid \<Rightarrow> uuid \<Rightarrow> audit_row option" where
  "get_latest_snapshot st i c = (case rev (snapshots_of st i c) of [] \<Rightarrow> None | r # _ \<Rightarrow> Some r)"

section \<open>The routes\<close>

definition finish :: "caller \<Rightarrow> uuid \<Rightarrow> string \<Rightarrow> estimate_store \<Rightarrow> route_error + estimate_store" where
  \<comment> \<open>reload the row and its items, and record the snapshot\<close>
  "finish cx i event_type st =
     (case estimate_of (st_estimates st) i (cx_company cx) of
        None \<Rightarrow> Inl (Http 404)
      | Some e \<Rightarrow> record_snapshot cx i event_type
          (build_estimate_snapshot (loaded_amounts e) e (items_of st i)) None None st)"

definition move_estimate :: "caller \<Rightarrow> uuid \<Rightarrow> estimate_status \<Rightarrow> string \<Rightarrow> estimate_store \<Rightarrow> route_error + estimate_store" where
  "move_estimate cx i target event_type st =
     (case transition_estimate (st_estimates st) i (cx_company cx) target (cx_now cx) of
        Inl _ \<Rightarrow> Inl Unknown_status
      | Inr (done, tbl) \<Rightarrow> if done then finish cx i event_type (st\<lparr>st_estimates := tbl\<rparr>) else Inl (Http 400))"

definition review_ai_estimate :: "caller \<Rightarrow> uuid \<Rightarrow> estimate_store \<Rightarrow> route_error + estimate_store" where
  "review_ai_estimate cx i st =
     (case estimate_of (st_estimates st) i (cx_company cx) of
        None \<Rightarrow> Inl (Http 404)
      | Some e \<Rightarrow>
          if es_status e \<noteq> ''ai_pending'' then Inl (Http 400)
          else if \<not> es_ai_generated e then Inl (Http 400)
          else move_estimate cx i Draft ''human_reviewed'' st)"

definition approve_estimate :: "caller \<Rightarrow> uuid \<Rightarrow> estimate_store \<Rightarrow> route_error + estimate_store" where
  "approve_estimate cx i st =
     (case estimate_of (st_estimates st) i (cx_company cx) of
        None \<Rightarrow> Inl (Http 404)
      | Some e \<Rightarrow> move_estimate cx i Approved ''approved'' st)"

definition send_estimate :: "caller \<Rightarrow> uuid \<Rightarrow> estimate_store \<Rightarrow> route_error + estimate_store" where
  "send_estimate cx i st =
     (case estimate_of (st_estimates st) i (cx_company cx) of
        None \<Rightarrow> Inl (Http 404)
      | Some e \<Rightarrow> if es_status e \<noteq> ''approved'' then Inl (Http 400) else move_estimate cx i Sent ''sent'' st)"

definition reopen_estimate :: "caller \<Rightarrow> uuid \<Rightarrow> estimate_store \<Rightarrow> route_error + estimate_store" where
  "reopen_estimate cx i st =
     (case estimate_of (st_estimates st) i (cx_company cx) of
        None \<Rightarrow> Inl (Http 404)
      | Some e \<Rightarrow>
          if es_status e \<noteq> ''sent'' \<and> es_status e \<noteq> ''rejected'' then Inl (Http 400)
          else finish cx i ''reopened''
            (st\<lparr>st_estimates := modify_by es_id i (\<lambda>e. e\<lparr>es_status := ''in_review''\<rparr>) (st_estimates st)\<rparr>))"

definition delete_estimate :: "caller \<Rightarrow> uuid \<Rightarrow> estimate_store \<Rightarrow> route_error + estimate_store" where
  \<comment> \<open>the line items and the snapshots go with the row (\<open>delete-orphan\<close>, \<open>ON DELETE CASCADE\<close>)\<close>
  "delete_estimate cx i st =
     (case estimate_of (st_estimates st) i (cx_company cx) of
        None \<Rightarrow> Inl (Http 404)
      | Some e \<Rightarrow> Inr
          \<lparr>st_estimates = filter (\<lambda>e. es_id e \<noteq> i) (st_estimates st),
           st_items = filter (\<lambda>li. li_estimate_id li \<noteq> i) (st_items st),
           st_snapshots = filter (\<lambda>r. au_estimate_id r \<noteq> i) (st_snapshots st)\<rparr>)"

subsection \<open>Editing\<close>

definition canonical_item :: "line_item_create \<Rightarrow> line_item_create" where
  \<comment> \<open>\<open>recompute_line_item(item_data.model_dump())\<close>\<close>
  "canonical_item li = li\<lparr>lc_total := compute_line_item_total (lc_quantity li) (lc_rate li)\<rparr>"

lemma recompute_model_dump: "recompute_line_item (model_dump li) = Inr (model_dump (canonical_item li))"
  by (simp add: model_dump_def canonical_item_def)

definition new_item :: "caller \<Rightarrow> uuid \<Rightarrow> nat \<times> line_item_create \<Rightarrow> estimate_line_item" where
  "new_item cx i = (\<lambda>(n, li).
     \<lparr>li_id = cx_item_ids cx n, li_estimate_id = i, li_company_id = cx_company cx, li_name = lc_name li,
      li_item_type = lc_item_type li, li_quantity = lc_quantity li, li_rate = lc_rate li, li_total = lc_total li,
      li_sort_order = int n, li_ai_quantity = None, li_ai_rate = None, li_ai_total = None,
      li_override_reason = lc_override_reason li, li_created_at = cx_now cx, li_updated_at = cx_now cx\<rparr>)"

definition assigned :: "pyfloat option \<Rightarrow> rat \<Rightarrow> number" where
  "assigned r column = (case r of None \<Rightarrow> Dec column | Some x \<Rightarrow> Flt x)"

definition edited_amounts :: "update_request \<Rightarrow> estimate \<Rightarrow> route_error + amounts" where
  "edited_amounts r e =
     (case ur_line_items r of
        None \<Rightarrow> Inr \<lparr>am_subtotal = assigned (ur_subtotal r) (es_subtotal e), am_tax = assigned (ur_tax r) (es_tax e),
                     am_total = assigned (ur_total r) (es_total e)\<rparr>
      | Some ls \<Rightarrow>
          (case compute_subtotal (map (model_dump \<circ> canonical_item) ls) of
             Inl err \<Rightarrow> Inl (Sum_error err)
           | Inr subtotal \<Rightarrow>
               let tax = round_currency (case ur_tax r of Some t \<Rightarrow> t | None \<Rightarrow> f64 (es_tax e)) in
               Inr \<lparr>am_subtotal = Flt subtotal, am_tax = Flt tax, am_total = Flt (compute_total subtotal tax)\<rparr>))"

definition edited_items :: "caller \<Rightarrow> update_request \<Rightarrow> uuid \<Rightarrow> estimate_line_item list \<Rightarrow> estimate_line_item list" where
  "edited_items cx r i tbl =
     (case ur_line_items r of
        None \<Rightarrow> tbl
      | Some ls \<Rightarrow> filter (\<lambda>li. li_estimate_id li \<noteq> i) tbl @ map (new_item cx i) (enumerate 0 (map canonical_item ls)))"

definition stored :: "number \<Rightarrow> rat" where
  \<comment> \<open>what the \<open>NUMERIC(12, 2)\<close> column keeps of an assigned value: the driver sends a float as \<open>Decimal(x)\<close>, exactly\<close>
  "stored n = (case n of Dec d \<Rightarrow> d | Flt x \<Rightarrow> quantize 2 x)"

definition fits :: "amounts \<Rightarrow> bool" where
  "fits am \<longleftrightarrow> (\<forall>n \<in> {am_subtotal am, am_tax am, am_total am}. \<bar>stored n\<bar> < 10 ^ 10)"

definition edited_row :: "update_request \<Rightarrow> amounts \<Rightarrow> estimate \<Rightarrow> estimate" where
  "edited_row r am e =
     e\<lparr>es_title := (case ur_title r of None \<Rightarrow> es_title e | t \<Rightarrow> t),
       es_description := (case ur_description r of None \<Rightarrow> es_description e | t \<Rightarrow> t),
       es_notes := (case ur_notes r of None \<Rightarrow> es_notes e | t \<Rightarrow> t),
       es_subtotal := stored (am_subtotal am), es_tax := stored (am_tax am), es_total := stored (am_total am),
       es_ai_generated := False,
       es_status := (if es_status e = ''draft'' then ''in_review'' else es_status e)\<rparr>"

definition update_estimate :: "caller \<Rightarrow> update_request \<Rightarrow> uuid \<Rightarrow> estimate_store \<Rightarrow> route_error + estimate_store" where
  "update_estimate cx r i st =
     (case estimate_of (st_estimates st) i (cx_company cx) of
        None \<Rightarrow> Inl (Http 404)
      | Some e \<Rightarrow>
          if es_status e \<noteq> ''draft'' \<and> es_status e \<noteq> ''in_review'' then Inl (Http 400)
          else try_then (edited_amounts r e) (\<lambda>am.
            if \<not> fits am then Inl Numeric_overflow
            else
              let st' = st\<lparr>st_estimates := modify_by es_id i (edited_row r am) (st_estimates st),
                           st_items := edited_items cx r i (st_items st)\<rparr>;
                  snap = build_estimate_snapshot am (edited_row r am e) (items_of st' i)
              in case get_latest_snapshot st' i (cx_company cx) of
                   None \<Rightarrow> record_snapshot cx i ''edited'' snap None (Some []) st'
                 | Some p \<Rightarrow> record_snapshot cx i ''edited'' snap (Some (au_id p))
                     (Some (compute_snapshot_diff (au_snapshot_data p) snap)) st'))"

subsection \<open>All life-cycle routes\<close>

datatype route = Review | Edit update_request | Approve | Send | Reopen | Delete

fun needed_roles :: "route \<Rightarrow> string list" where
  "needed_roles Delete = admin_roles"
| "needed_roles _ = staff_roles"

definition handle :: "caller \<Rightarrow> route \<Rightarrow> uuid \<Rightarrow> estimate_store \<Rightarrow> route_error + estimate_store" where
  "handle cx rt i st =
     (case require_roles (needed_roles rt) (cx_role cx) of
        Some err \<Rightarrow> Inl err
      | None \<Rightarrow>
          (case rt of
             Review \<Rightarrow> review_ai_estimate cx i st
           | Edit r \<Rightarrow> if update_accepted r then update_estimate cx r i st else Inl (Http 422)
           | Approve \<Rightarrow> approve_estimate cx i st
           | Send \<Rightarrow> send_estimate cx i st
           | Reopen \<Rightarrow> reopen_estimate cx i st
           | Delete \<Rightarrow> delete_estimate cx i st))"

subsection \<open>Reading\<close>

definition list_estimates ::
    "estimate_store \<Rightarrow> uuid \<Rightarrow> string option \<Rightarrow> nat \<Rightarrow> nat \<Rightarrow> estimate list \<times> nat" where
  "list_estimates st c status page page_size =
     (let rows = filter (\<lambda>e. es_company_id e = c \<and> (truthy_str status \<longrightarrow> Some (es_status e) = status)) (st_estimates st)
      in (take page_size (drop ((page - 1) * page_size) (sort_key (\<lambda>e. - es_created_at e) rows)), length rows))"

definition estimate_to_response :: "estimate_store \<Rightarrow> uuid \<Rightarrow> uuid \<Rightarrow> route_error + estimate \<times> estimate_line_item list" where
  "estimate_to_response st i c =
     (case estimate_of (st_estimates st) i c of
        None \<Rightarrow> Inl (Http 404)
      | Some e \<Rightarrow> Inr (e, items_of st i))"

definition get_estimate_audit_trail :: "estimate_store \<Rightarrow> uuid \<Rightarrow> uuid \<Rightarrow> audit_row list \<times> nat" where
  "get_estimate_audit_trail st i c = (let rows = get_snapshots st i c 100 in (rows, length rows))"

section \<open>What a route does to an estimate\<close>

text \<open>
  The contract of the routes, estimate by estimate: a status and a content that the customer sees
  (amounts, texts and line items), moved by six kinds of steps.
\<close>

type_synonym content = "rat \<times> rat \<times> rat \<times> string option \<times> string option \<times> string option \<times> estimate_line_item list"

definition content_of :: "estimate_store \<Rightarrow> estimate \<Rightarrow> content" where
  "content_of st e = (es_subtotal e, es_tax e, es_total e, es_title e, es_description e, es_notes e, items_of st (es_id e))"

definition abstract :: "uuid \<Rightarrow> estimate_store \<Rightarrow> (string \<times> content) option" where
  "abstract i st = map_option (\<lambda>e. (es_status e, content_of st e)) (row_by es_id i (st_estimates st))"

inductive abstract_step :: "(string \<times> content) option \<Rightarrow> (string \<times> content) option \<Rightarrow> bool" where
  review: "abstract_step (Some (''ai_pending'', c)) (Some (''draft'', c))"
| edit: "s \<in> {''draft'', ''in_review''} \<Longrightarrow> abstract_step (Some (s, c)) (Some (''in_review'', c'))"
| approve: "s \<in> {''draft'', ''in_review''} \<Longrightarrow> abstract_step (Some (s, c)) (Some (''approved'', c))"
| send: "abstract_step (Some (''approved'', c)) (Some (''sent'', c))"
| reopen: "s \<in> {''sent'', ''rejected''} \<Longrightarrow> abstract_step (Some (s, c)) (Some (''in_review'', c))"
| delete: "abstract_step (Some x) None"

inductive_cases abstract_stepE: "abstract_step x y"

lemma record_snapshot_rest:
  "record_snapshot cx i ev data prev df st = Inr st' \<Longrightarrow> st_estimates st' = st_estimates st \<and> st_items st' = st_items st"
  by (auto simp: record_snapshot_def split: option.splits)

lemma finish_rest:
  "finish cx i ev st = Inr st' \<Longrightarrow> st_estimates st' = st_estimates st \<and> st_items st' = st_items st"
  by (auto simp: finish_def split: option.splits dest!: record_snapshot_rest)

lemma abstract_cong:
  "st_estimates st' = st_estimates st \<Longrightarrow> st_items st' = st_items st \<Longrightarrow> abstract i st' = abstract i st"
  by (simp add: abstract_def content_of_def items_of_def)

lemma abstract_modify:
  assumes "\<And>e. es_id (f e) = es_id e" "\<And>st e. content_of st (f e) = content_of st e"
  shows "abstract j (st\<lparr>st_estimates := modify_by es_id i f (st_estimates st)\<rparr>) =
    (if j = i then map_option (\<lambda>e. (es_status (f e), content_of st e)) (row_by es_id i (st_estimates st)) else abstract j st)"
proof -
  have "content_of (st\<lparr>st_estimates := x\<rparr>) = content_of st" for x by (simp add: content_of_def items_of_def fun_eq_iff)
  then show ?thesis
    by (cases "row_by es_id j (st_estimates st)") (auto simp: abstract_def row_by_modify_by assms option.map_comp comp_def)
qed

lemma content_set_status: "content_of st (set_status t now e) = content_of st e"
  by (simp add: content_of_def set_status_def Let_def)

lemma move_estimate_abstract:
  assumes "move_estimate cx i target ev st = Inr st'"
  obtains e current where "row_by es_id i (st_estimates st) = Some e" "es_status e = status_value current"
    "target \<in> set (allowed_statuses current)" "abstract i st' = Some (status_value target, content_of st e)"
    "\<And>j. j \<noteq> i \<Longrightarrow> abstract j st' = abstract j st"
proof -
  from assms obtain tbl where t: "transition_estimate (st_estimates st) i (cx_company cx) target (cx_now cx) = Inr (True, tbl)"
    and f: "finish cx i ev (st\<lparr>st_estimates := tbl\<rparr>) = Inr st'"
    by (auto simp: move_estimate_def split: sum.splits if_splits)
  from t obtain e current where e: "row_by es_id i (st_estimates st) = Some e" and c: "status_of (es_status e) = Some current"
    and v: "validate_transition current target"
    and tbl: "tbl = modify_by es_id i (set_status target (cx_now cx)) (st_estimates st)"
    by (auto simp: transition_estimate_def estimate_of_def split: option.splits if_splits)
  have a: "abstract j st' = (if j = i then map_option (\<lambda>e. (status_value target, content_of st e)) (row_by es_id i (st_estimates st))
      else abstract j st)" for j
    using abstract_cong [OF conjunct1 [OF finish_rest [OF f]] conjunct2 [OF finish_rest [OF f]], of j]
    by (simp add: tbl abstract_modify content_set_status)
  show thesis
    by (rule that [OF e status_value_of [OF c]]) (use v a e in \<open>simp_all add: validate_transition_def\<close>)
qed

lemma edited_items_others:
  "j \<noteq> i \<Longrightarrow> filter (\<lambda>li. li_estimate_id li = j) (edited_items cx r i tbl) = filter (\<lambda>li. li_estimate_id li = j) tbl"
  by (auto simp: edited_items_def new_item_def filter_map comp_def case_prod_beta conj_ac split: option.split
      intro!: filter_cong)

lemma update_estimate_abstract:
  assumes "update_estimate cx r i st = Inr st'"
  obtains e am where "row_by es_id i (st_estimates st) = Some e" "es_status e \<in> {''draft'', ''in_review''}"
    "es_company_id e = cx_company cx" "edited_amounts r e = Inr am" "fits am"
    "st_estimates st' = modify_by es_id i (edited_row r am) (st_estimates st)"
    "st_items st' = edited_items cx r i (st_items st)"
proof -
  from assms obtain e am where
    "row_by es_id i (st_estimates st) = Some e" "es_status e \<in> {''draft'', ''in_review''}" "es_company_id e = cx_company cx"
    "edited_amounts r e = Inr am" "fits am"
    "st_estimates st' = modify_by es_id i (edited_row r am) (st_estimates st)" "st_items st' = edited_items cx r i (st_items st)"
    by (auto simp: update_estimate_def estimate_of_def try_then_iff Let_def split: option.splits if_splits
        dest!: record_snapshot_rest)
  then show thesis by (rule that)
qed

lemma edited_row_simps [simp]:
  "es_id (edited_row r am e) = es_id e" "es_company_id (edited_row r am e) = es_company_id e"
  "es_status (edited_row r am e) = (if es_status e = ''draft'' then ''in_review'' else es_status e)"
  "es_approved_at (edited_row r am e) = es_approved_at e" "es_sent_at (edited_row r am e) = es_sent_at e"
  by (simp_all add: edited_row_def)

lemma delete_abstract:
  assumes "delete_estimate cx i st = Inr st'"
  shows "abstract j st' = (if j = i then None else abstract j st)"
proof -
  have st': "st_estimates st' = filter (\<lambda>e. es_id e \<noteq> i) (st_estimates st)"
    "st_items st' = filter (\<lambda>li. li_estimate_id li \<noteq> i) (st_items st)"
    using assms by (auto simp: delete_estimate_def split: option.splits)
  have row: "row_by es_id j (filter (\<lambda>e. es_id e \<noteq> i) es) = (if j = i then None else row_by es_id j es)" for es
    by (induction es) (auto simp: row_by_Cons)
  have items: "items_of st' j = items_of st j" if "j \<noteq> i"
    unfolding items_of_def st' filter_filter using that by (intro arg_cong2 [of _ _ _ _ sort_key] filter_cong) auto
  show ?thesis
    using row_by_key [of es_id j "st_estimates st"] items
    by (cases "row_by es_id j (st_estimates st)") (auto simp: abstract_def st'(1) row content_of_def)
qed

lemma handle_refines:
  assumes "handle cx rt i st = Inr st'"
  shows "abstract_step (abstract i st) (abstract i st') \<and> (\<forall>j. j = i \<or> abstract j st' = abstract j st)"
proof -
  have move: "abstract_step (abstract i st) (abstract i st') \<and> (\<forall>j. j = i \<or> abstract j st' = abstract j st)"
    if m: "move_estimate cx i target ev st = Inr st'" and t: "target \<in> {Draft, Approved, Sent}"
      and s: "target = Draft \<longrightarrow> (\<exists>e. row_by es_id i (st_estimates st) = Some e \<and> es_status e = ''ai_pending'')"
    for target ev
  proof -
    from m obtain e current where e: "row_by es_id i (st_estimates st) = Some e" "es_status e = status_value current"
      and v: "target \<in> set (allowed_statuses current)" and a: "abstract i st' = Some (status_value target, content_of st e)"
        "\<And>j. j \<noteq> i \<Longrightarrow> abstract j st' = abstract j st"
      by (rule move_estimate_abstract) blast
    have b: "abstract i st = Some (status_value current, content_of st e)" by (simp add: abstract_def e)
    have "abstract_step (abstract i st) (abstract i st')"
      unfolding a(1) b using t v s e by (cases current) (auto intro: abstract_step.intros)
    with a(2) show ?thesis by blast
  qed
  show ?thesis
  proof (cases rt)
    case Review
    with assms obtain e where "row_by es_id i (st_estimates st) = Some e" "es_status e = ''ai_pending''"
      and m: "move_estimate cx i Draft ''human_reviewed'' st = Inr st'"
      by (auto simp: handle_def review_ai_estimate_def estimate_of_def split: option.splits if_splits)
    then show ?thesis by (intro move [OF m]) simp_all
  next
    case (Edit r)
    with assms have "update_estimate cx r i st = Inr st'" by (auto simp: handle_def split: option.splits if_splits)
    then obtain e am where e: "row_by es_id i (st_estimates st) = Some e" "es_status e \<in> {''draft'', ''in_review''}"
      and st': "st_estimates st' = modify_by es_id i (edited_row r am) (st_estimates st)"
        "st_items st' = edited_items cx r i (st_items st)"
      by (rule update_estimate_abstract) blast
    have "abstract j st' = abstract j st" if "j \<noteq> i" for j
      using that
      by (cases "row_by es_id j (st_estimates st)")
        (auto simp: abstract_def st' row_by_modify_by content_of_def items_of_def edited_items_others dest: row_by_key)
    moreover have "abstract i st' = Some (''in_review'', content_of st' (edited_row r am e))"
      using e by (auto simp: abstract_def st' row_by_modify_by)
    ultimately show ?thesis using e by (auto simp: abstract_def intro: abstract_step.edit)
  next
    case Approve
    with assms have m: "move_estimate cx i Approved ''approved'' st = Inr st'"
      by (auto simp: handle_def approve_estimate_def split: option.splits if_splits)
    show ?thesis by (intro move [OF m]) simp_all
  next
    case Send
    with assms have m: "move_estimate cx i Sent ''sent'' st = Inr st'"
      by (auto simp: handle_def send_estimate_def split: option.splits if_splits)
    show ?thesis by (intro move [OF m]) simp_all
  next
    case Reopen
    then obtain e where e: "row_by es_id i (st_estimates st) = Some e" "es_status e \<in> {''sent'', ''rejected''}"
      and f: "finish cx i ''reopened''
        (st\<lparr>st_estimates := modify_by es_id i (\<lambda>e. e\<lparr>es_status := ''in_review''\<rparr>) (st_estimates st)\<rparr>) = Inr st'"
      using assms by (auto simp: handle_def reopen_estimate_def estimate_of_def split: option.splits if_splits)
    have "abstract j st' = (if j = i then Some (''in_review'', content_of st e) else abstract j st)" for j
      using abstract_cong [OF conjunct1 [OF finish_rest [OF f]] conjunct2 [OF finish_rest [OF f]], of j] e
      by (simp add: abstract_modify content_of_def)
    with e show ?thesis by (auto simp: abstract_def intro: abstract_step.reopen)
  next
    case Delete
    then have d: "delete_estimate cx i st = Inr st'" using assms by (auto simp: handle_def split: option.splits)
    then obtain e where "row_by es_id i (st_estimates st) = Some e"
      by (auto simp: delete_estimate_def estimate_of_def split: option.splits if_splits)
    then show ?thesis using delete_abstract [OF d] by (auto simp: abstract_def intro: abstract_step.delete)
  qed
qed

text \<open>
  C16. The routes refine the abstract life cycle: a successful call on an estimate makes one of the
  six abstract steps on that estimate and leaves every other estimate, with its line items, as it
  was; in particular only an edit (of a draft or an estimate in review) and a delete change what
  the customer sees.
\<close>

theorem routes_refine_life_cycle:
  assumes "handle cx rt i st = Inr st'"
  shows "abstract_step (abstract i st) (abstract i st') \<and> (\<forall>j. j = i \<or> abstract j st' = abstract j st)"
  using assms by (rule handle_refines)

definition sample_item :: line_item_create where
  "sample_item = \<lparr>lc_name = ''Labor'', lc_item_type = ''labor'', lc_quantity = 2, lc_rate = 3/2, lc_total = 3,
     lc_sort_order = 0, lc_override_reason = None\<rparr>"

definition sample_edit :: update_request where
  "sample_edit = \<lparr>ur_title = Some ''Pump'', ur_description = None, ur_notes = None, ur_subtotal = None, ur_tax = Some (1/4),
     ur_total = None, ur_line_items = Some [sample_item]\<rparr>"

definition sample_caller :: "(snapshot \<Rightarrow> snapshot option) \<Rightarrow> caller" where
  "sample_caller js = \<lparr>cx_company = 7, cx_user = ''u'', cx_role = ''dispatcher'', cx_now = 5, cx_later = 6,
     cx_item_ids = (\<lambda>n. 100 + n), cx_snapshot_id = 11, cx_json = js\<rparr>"

definition sample_store :: "string \<Rightarrow> estimate_store" where
  "sample_store s = \<lparr>st_estimates = [draft_estimate\<lparr>es_status := s\<rparr>], st_items = [], st_snapshots = []\<rparr>"

lemma sample_send:
  "\<exists>st'. handle (sample_caller Some) Send 1 (sample_store ''approved'') = Inr st'"
  by (simp add: handle_def sample_caller_def sample_store_def require_roles_def staff_roles_def send_estimate_def
      estimate_of_def row_by_Cons draft_estimate_def move_estimate_def transition_estimate_def status_of_def
      all_statuses_def validate_transition_def finish_def row_by_modify_by record_snapshot_def)

theorem routes_refine_life_cycle_witness:
  "\<exists>st'. abstract_step (abstract 1 (sample_store ''approved'')) (abstract 1 st')"
  using sample_send routes_refine_life_cycle by blast

section \<open>What was approved is what is sent\<close>

inductive call_step :: "estimate_store \<Rightarrow> estimate_store \<Rightarrow> bool" where
  call: "handle cx rt i st = Inr st' \<Longrightarrow> call_step st st'"

inductive_simps call_step_iff: "call_step st st'"

definition status_at :: "uuid \<Rightarrow> estimate_store \<Rightarrow> string option" where
  "status_at i st = map_option fst (abstract i st)"

definition route_allowed :: "string option \<Rightarrow> string option \<Rightarrow> bool" where
  "route_allowed a b \<longleftrightarrow>
     (a, b) \<in> {(Some ''ai_pending'', Some ''draft''), (Some ''draft'', Some ''in_review''), (Some ''draft'', Some ''approved''),
       (Some ''in_review'', Some ''approved''), (Some ''approved'', Some ''sent''), (Some ''sent'', Some ''in_review''),
       (Some ''rejected'', Some ''in_review'')} \<or> a \<noteq> None \<and> b = None"

lemma call_step_cases:
  assumes "call_step st st'"
  shows "abstract_step (abstract i st) (abstract i st') \<or> abstract i st' = abstract i st"
proof -
  from assms obtain cx rt k where "handle cx rt k st = Inr st'" by (auto simp: call_step_iff)
  from handle_refines [OF this] show ?thesis by (cases "i = k") auto
qed

lemma abstract_step_table: "abstract_step x y \<Longrightarrow> route_allowed (map_option fst x) (map_option fst y) \<or> map_option fst x = map_option fst y"
  by (erule abstract_step.cases) (auto simp: route_allowed_def)

definition content_frozen :: "string option \<Rightarrow> bool" where
  "content_frozen s \<longleftrightarrow> s \<notin> {Some ''draft'', Some ''in_review''}"

lemma abstract_step_content:
  "abstract_step x y \<Longrightarrow> content_frozen (map_option fst x) \<Longrightarrow> y = None \<or> map_option snd y = map_option snd x"
  by (erule abstract_step.cases) (auto simp: content_frozen_def)

interpretation routes: frozen_machine "status_at i" call_step route_allowed "\<lambda>st. map_option snd (abstract i st)"
    "\<lambda>s. \<not> content_frozen s" "\<lambda>s. s = None"
proof
  fix st st' assume s: "call_step st st'"
  show "status_at i st' = status_at i st \<or> route_allowed (status_at i st) (status_at i st')"
    using call_step_cases [OF s, of i] abstract_step_table unfolding status_at_def by metis
  show "\<not> content_frozen (status_at i st) \<or> status_at i st' = None \<or> map_option snd (abstract i st') = map_option snd (abstract i st)"
    using call_step_cases [OF s, of i] abstract_step_content unfolding status_at_def by (metis option.map_disc_iff)
qed

text \<open>
  The contract would promise that the customer is sent what was approved: in a run that ends with an
  estimate in the status \<open>sent\<close> it was approved before with exactly the amounts, texts and line items
  that it has at the end. This is about columns that store every snapshot (\<open>cx_json\<close> accepts
  \<open>Decimal\<close>); the encoder that the program really uses never lets a run get there, see
  \<open>nothing_gets_approved\<close> below.
\<close>

lemma sent_as_approved:
  assumes "call_step\<^sup>*\<^sup>* st st'" "status_at i st \<noteq> Some ''sent''" "abstract i st' = Some (''sent'', c)"
  shows "\<exists>q. call_step\<^sup>*\<^sup>* st q \<and> abstract i q = Some (''approved'', c) \<and> call_step\<^sup>*\<^sup>* q st'"
proof -
  have "\<exists>q. call_step\<^sup>*\<^sup>* st q \<and> status_at i q = Some ''approved'' \<and>
      map_option snd (abstract i q) = map_option snd (abstract i st') \<and> call_step\<^sup>*\<^sup>* q st'"
    using assms by (intro routes.arrives_with_content [where s = "Some ''sent''"])
      (auto simp: route_allowed_def content_frozen_def status_at_def)
  then show ?thesis using assms(3) by (auto simp: status_at_def)
qed

lemma sent_as_approved_sample:
  "\<exists>st' c q. abstract 1 st' = Some (''sent'', c) \<and> call_step\<^sup>*\<^sup>* (sample_store ''approved'') q \<and> abstract 1 q = Some (''approved'', c)"
proof -
  obtain st' where st': "handle (sample_caller Some) Send 1 (sample_store ''approved'') = Inr st'" using sample_send by blast
  have a: "abstract 1 (sample_store ''approved'') = Some (''approved'', content_of (sample_store ''approved'') (draft_estimate\<lparr>es_status := ''approved''\<rparr>))"
    by (simp add: abstract_def sample_store_def row_by_Cons draft_estimate_def)
  have "abstract 1 st' = Some (''sent'', content_of (sample_store ''approved'') (draft_estimate\<lparr>es_status := ''approved''\<rparr>))"
    using handle_refines [OF st'] st' a
    by (auto simp: handle_def send_estimate_def sample_caller_def require_roles_def staff_roles_def estimate_of_def
        split: option.splits if_splits elim!: move_estimate_abstract abstract_stepE)
  moreover have "call_step\<^sup>*\<^sup>* (sample_store ''approved'') st'" using st' by (auto intro: call_step.call)
  moreover have "status_at 1 (sample_store ''approved'') \<noteq> Some ''sent''" using a by (simp add: status_at_def)
  ultimately show ?thesis using sent_as_approved by blast
qed

section \<open>Which calls are accepted\<close>

lemma finish_accepts:
  "(\<exists>st'. finish cx i ev st = Inr st') \<longleftrightarrow>
   (\<exists>e. estimate_of (st_estimates st) i (cx_company cx) = Some e \<and>
        cx_json cx (build_estimate_snapshot (loaded_amounts e) e (items_of st i)) \<noteq> None)"
  by (auto simp: finish_def record_snapshot_def split: option.splits)

lemma move_estimate_accepts:
  assumes "\<And>s. cx_json cx s \<noteq> None"
  shows "(\<exists>st'. move_estimate cx i target ev st = Inr st') \<longleftrightarrow>
    (\<exists>e current. estimate_of (st_estimates st) i (cx_company cx) = Some e \<and> status_of (es_status e) = Some current \<and>
       target \<in> set (allowed_statuses current))"
proof -
  have own: "estimate_of (modify_by es_id i (set_status target now) es) i c = map_option (set_status target now) (estimate_of es i c)"
    for es now c by (auto simp: estimate_of_def row_by_modify_by split: option.splits)
  show ?thesis
    using assms finish_accepts
    by (auto simp: move_estimate_def transition_estimate_def validate_transition_def own split: option.splits) 
qed

definition accepts :: "route \<Rightarrow> estimate \<Rightarrow> bool" where
  \<comment> \<open>the statuses in which a route works, edits apart\<close>
  "accepts rt e =
     (case rt of
        Review \<Rightarrow> es_status e = ''ai_pending'' \<and> es_ai_generated e
      | Approve \<Rightarrow> es_status e \<in> {''draft'', ''in_review''}
      | Send \<Rightarrow> es_status e = ''approved''
      | Reopen \<Rightarrow> es_status e \<in> {''sent'', ''rejected''}
      | _ \<Rightarrow> True)"

lemma status_of_eq: "status_of s = Some st \<longleftrightarrow> s = status_value st"
  using status_value_of by auto

lemma approved_from:
  "(\<exists>c. s = status_value c \<and> Approved \<in> set (allowed_statuses c)) \<longleftrightarrow> s \<in> {''draft'', ''in_review''}"
proof
  assume "\<exists>c. s = status_value c \<and> Approved \<in> set (allowed_statuses c)"
  then obtain c where "s = status_value c" "Approved \<in> set (allowed_statuses c)" by blast
  then show "s \<in> {''draft'', ''in_review''}" by (cases c) auto
qed (auto intro: exI [of _ Draft] exI [of _ In_review])

text \<open>
  Exactly which calls succeed when snapshots can be stored: the caller must hold one of the roles,
  the estimate must belong to the caller's company, and its status must be one in which the
  route works: \<open>ai_pending\<close> (and AI-generated) for a review, draft or in review for an approval,
  approved for sending, sent or rejected for reopening, any for a delete.
\<close>

theorem route_accepted:
  assumes "\<And>s. cx_json cx s \<noteq> None" "rt \<in> {Review, Approve, Send, Reopen, Delete}"
  shows "(\<exists>st'. handle cx rt i st = Inr st') \<longleftrightarrow>
    cx_role cx \<in> set (needed_roles rt) \<and>
    (\<exists>e. estimate_of (st_estimates st) i (cx_company cx) = Some e \<and> accepts rt e)"
proof -
  have m: "(\<exists>st'. move_estimate cx i target ev st = Inr st') \<longleftrightarrow> target \<in> set (allowed_statuses current)"
    if "estimate_of (st_estimates st) i (cx_company cx) = Some e" "es_status e = status_value current" for target ev e current
    using that by (simp add: move_estimate_accepts [OF assms(1)] status_of_eq del: status_value.simps)
  have reopen: "\<exists>st'. finish cx i ev (st\<lparr>st_estimates := modify_by es_id i (\<lambda>e. e\<lparr>es_status := s\<rparr>) (st_estimates st)\<rparr>) = Inr st'"
    if "estimate_of (st_estimates st) i (cx_company cx) = Some e" for e ev s
    using that assms(1) by (auto simp: finish_accepts estimate_of_def row_by_modify_by split: option.splits if_splits)
  show ?thesis
  proof (cases "estimate_of (st_estimates st) i (cx_company cx)")
    case None
    with assms(2) show ?thesis
      by (auto simp: handle_def require_roles_def review_ai_estimate_def approve_estimate_def send_estimate_def
          reopen_estimate_def delete_estimate_def split: if_splits)
  next
    case (Some e)
    have ai: "es_status e = ''ai_pending'' \<Longrightarrow> (\<exists>st'. move_estimate cx i Draft ev st = Inr st')" for ev
      using m [OF Some, of AI_pending] by simp
    have send: "es_status e = ''approved'' \<Longrightarrow> (\<exists>st'. move_estimate cx i Sent ev st = Inr st')" for ev
      using m [OF Some, of Approved] by simp
    have "(\<exists>st'. move_estimate cx i Approved ev st = Inr st') \<longleftrightarrow> es_status e \<in> {''draft'', ''in_review''}" for ev
      by (simp add: move_estimate_accepts [OF assms(1)] Some status_of_eq approved_from del: insert_iff)
    note approve = this [THEN iffD1, OF exI] this [THEN iffD2]
    show ?thesis
      using assms(2) Some ai send approve reopen [OF Some]
      by (auto simp: handle_def require_roles_def review_ai_estimate_def approve_estimate_def send_estimate_def
          reopen_estimate_def delete_estimate_def accepts_def split: if_splits)
  qed
qed

theorem route_accepted_witness:
  "\<exists>st'. handle (sample_caller Some) Approve 1 (sample_store ''draft'') = Inr st'"
  using route_accepted [of "sample_caller Some" Approve 1 "sample_store ''draft''"]
  by (simp add: sample_caller_def sample_store_def staff_roles_def estimate_of_def row_by_Cons draft_estimate_def accepts_def)


section \<open>An edited estimate adds up\<close>

lemma round_currency_decimal_cents: "\<exists>c. round_currency_decimal d = cents c"
  by (auto simp: round_currency_decimal_def cents_def quantize_def power_int_def)

lemma canonical_total_cents: "\<exists>c. lc_total (canonical_item l) = cents c"
  using round_currency_decimal_cents by (simp add: canonical_item_def compute_line_item_total_def Let_def)

lemma stored_cents: "\<bar>c\<bar> < 10 ^ 15 \<Longrightarrow> stored (Flt (cents c)) = of_int c / 100"
proof -
  assume c: "\<bar>c\<bar> < 10 ^ 15"
  then have "(of_int \<bar>c\<bar> :: rat) < of_int (10 ^ 15)" by (simp only: of_int_less_iff)
  then have "\<bar>of_int c\<bar> < (10 ^ 15 :: rat)" by simp
  moreover have "9007199254740992 * \<bar>cents c - of_int c / 100\<bar> \<le> \<bar>of_int c / 100 :: rat\<bar>"
    using f64_err [of "of_int c / 100"] by (simp add: cents_def)
  moreover have "\<bar>x * 100 - y\<bar> < 1 / 2" if "\<bar>y\<bar> < 10 ^ 15" "9007199254740992 * \<bar>x - y / 100\<bar> \<le> \<bar>y / 100\<bar>" for x y :: rat
    using that by (auto simp: abs_if split: if_splits)
  ultimately have "\<bar>cents c * 100 - of_int c\<bar> < 1 / 2" by blast
  then show ?thesis by (simp add: stored_def quantize_def power_int_def half_up_near)
qed

lemma round_currency_cents:
  assumes "is_f64 t" "\<bar>t\<bar> \<le> 40000000"
  obtains b where "round_currency t = cents b" "\<bar>b\<bar> \<le> 5000000000" "quantize 2 (repr_dec t) = of_int b / 100"
proof -
  define b where "b = half_up (repr_dec t * 100)"
  have r: "round_currency t = cents b"
    by (simp add: round_currency_def to_decimal_def cents_def quantize_def power_int_def b_def)
  have "\<bar>round_currency t - t\<bar> \<le> 51 / 10000" using assms by (intro round_currency_close) simp_all
  then have c: "\<bar>cents b\<bar> \<le> 40000001" using assms(2) unfolding r by arith
  have "\<bar>b\<bar> \<le> 5000000000"
  proof (rule ccontr)
    assume "\<not> ?thesis"
    then have "(of_int 5000000000 :: rat) \<le> of_int \<bar>b\<bar>" by (simp only: of_int_le_iff)
    then have "(50000000 :: rat) \<le> \<bar>of_int b / 100\<bar>" by simp
    moreover have "9007199254740992 * \<bar>cents b - of_int b / 100\<bar> \<le> \<bar>of_int b / 100\<bar>"
      using f64_err [of "of_int b / 100"] by (simp add: cents_def)
    moreover have "False" if "50000000 \<le> X" "9007199254740992 * D \<le> X" "X \<le> D + 40000001" for X D :: rat
      using that by linarith
    moreover have "\<bar>of_int b / 100\<bar> \<le> \<bar>cents b - of_int b / 100\<bar> + 40000001" using c by arith
    ultimately show False by blast
  qed
  with r show thesis by (rule that) (simp add: quantize_def power_int_def b_def)
qed

lemma stored_round_currency:
  assumes "is_f64 t" "\<bar>t\<bar> \<le> 40000000"
  shows "stored (Flt (round_currency t)) = quantize 2 (repr_dec t)"
proof -
  obtain b where "round_currency t = cents b" "\<bar>b\<bar> \<le> 5000000000" "quantize 2 (repr_dec t) = of_int b / 100"
    using assms by (rule round_currency_cents)
  then show ?thesis using stored_cents [of b] by simp
qed

lemma cents_sum_total:
  assumes "\<bar>a\<bar> \<le> 5000000000" "\<bar>b\<bar> \<le> 5000000000"
  shows "compute_total (cents a) (cents b) = cents (a + b)"
proof -
  have c: "\<bar>cents x - of_int x / 100\<bar> \<le> 4 / 100000000 \<and> \<bar>of_int x / 100\<bar> \<le> (50000000 :: rat)" if "\<bar>x\<bar> \<le> 5000000000" for x
  proof -
    have "(of_int \<bar>x\<bar> :: rat) \<le> of_int 5000000000" using that by (simp only: of_int_le_iff)
    then have "\<bar>of_int x / 100\<bar> \<le> (50000000 :: rat)" by simp
    then show ?thesis using cents_close [of x] by simp
  qed
  have sum: "of_int (a + b) / 100 = of_int a / 100 + (of_int b / 100 :: rat)" by (simp add: add_divide_distrib)
  have "\<bar>cents a + cents b\<bar> \<le> 300000000" using c [OF assms(1)] c [OF assms(2)] by arith
  then have f: "\<bar>fadd (cents a) (cents b) - (cents a + cents b)\<bar> \<le> 4 / 100000000" by (rule fadd_close)
  have "round_currency (fadd (cents a) (cents b)) = cents (a + b)"
  proof (rule round_currency_near)
    show "is_f64 (fadd (cents a) (cents b))" by (simp add: fadd_def)
    show "\<bar>of_int (a + b) / 100\<bar> \<le> (100000000 :: rat)" unfolding sum using c [OF assms(1)] c [OF assms(2)] by arith
    show "\<bar>fadd (cents a) (cents b) - of_int (a + b) / 100\<bar> \<le> 41 / 10000"
      unfolding sum using f c [OF assms(1)] c [OF assms(2)] by arith
  qed
  then show ?thesis by (simp add: compute_total_def)
qed

lemma items_after_edit:
  assumes "st_items st' = edited_items cx r i tbl" "ur_line_items r = Some ls"
  shows "map li_total (items_of st' i) = map (\<lambda>l. lc_total (canonical_item l)) ls"
proof -
  have "filter (\<lambda>li. li_estimate_id li = i) (st_items st') = map (new_item cx i) (enumerate 0 (map canonical_item ls))"
    by (auto simp: assms edited_items_def filter_map comp_def new_item_def case_prod_beta filter_id_conv)
  moreover have "sorted (map li_sort_order (map (new_item cx i) (enumerate n xs)))" for n xs
    by (induction xs arbitrary: n) (force simp: new_item_def in_set_enumerate_eq)+
  ultimately have "items_of st' i = map (new_item cx i) (enumerate 0 (map canonical_item ls))"
    by (simp add: items_of_def sorted_sort_id sort_key_id_if_sorted)
  moreover have "map (li_total \<circ> new_item cx i) (enumerate n xs) = map lc_total xs" for n xs
    by (induction xs arbitrary: n) (auto simp: new_item_def)
  ultimately show ?thesis by (simp add: comp_def)
qed

lemma edit_amounts_cents:
  assumes "ur_line_items r = Some ls" "length ls \<le> 10000" "ur_tax r = Some t" "is_f64 t" "\<bar>t\<bar> \<le> 40000000"
    and cs: "map (\<lambda>l. lc_total (canonical_item l)) ls = map cents cs" and small: "(\<Sum>c\<leftarrow>cs. \<bar>c\<bar>) \<le> 5000000000"
  obtains b where "\<And>e. edited_amounts r e =
      Inr \<lparr>am_subtotal = Flt (cents (sum_list cs)), am_tax = Flt (cents b), am_total = Flt (cents (sum_list cs + b))\<rparr>"
    "round_currency t = cents b" "\<bar>b\<bar> \<le> 5000000000" "\<bar>sum_list cs\<bar> \<le> 5000000000"
proof -
  obtain b where b: "round_currency t = cents b" "\<bar>b\<bar> \<le> 5000000000" using assms(4,5) by (rule round_currency_cents) blast
  have s: "\<bar>sum_list cs\<bar> \<le> 5000000000" using sum_list_abs [of cs] small by linarith
  have "list_all2 has_total (map (model_dump \<circ> canonical_item) ls) cs"
    using cs by (auto simp: list_all2_conv_all_nth has_total_def model_dump_def list_eq_iff_nth_eq)
  then have "compute_subtotal (map (model_dump \<circ> canonical_item) ls) = Inr (cents (sum_list cs))"
    using assms(2) small by (intro compute_subtotal_cents) simp_all
  then have "edited_amounts r e =
      Inr \<lparr>am_subtotal = Flt (cents (sum_list cs)), am_tax = Flt (cents b), am_total = Flt (cents (sum_list cs + b))\<rparr>" for e
    using assms(1,3) b cents_sum_total [OF s b(2)] by (simp add: edited_amounts_def Let_def)
  then show thesis using b s by (rule that)
qed

text \<open>
  C24. After an edit that gives line items, the stored estimate adds up to the cent: the items' totals are the
  recomputed ones, the subtotal is their exact sum, the tax is the requested tax rounded half up,
  and the total is exactly subtotal plus tax, whatever totals the request claimed (for up to ten
  thousand items of at most fifty million in sum, and a tax of at most forty million).
\<close>

theorem edit_adds_up:
  assumes "handle cx (Edit r) i st = Inr st'" "ur_line_items r = Some ls" "length ls \<le> 10000"
    and "ur_tax r = Some t" "is_f64 t" "\<bar>t\<bar> \<le> 40000000"
    and "map (\<lambda>l. lc_total (canonical_item l)) ls = map cents cs" "(\<Sum>c\<leftarrow>cs. \<bar>c\<bar>) \<le> 5000000000"
  shows "\<exists>e. row_by es_id i (st_estimates st') = Some e \<and> es_company_id e = cx_company cx \<and> es_status e = ''in_review'' \<and>
           map li_total (items_of st' i) = map cents cs \<and> es_subtotal e = of_int (sum_list cs) / 100 \<and>
           es_tax e = quantize 2 (repr_dec t) \<and> es_total e = es_subtotal e + es_tax e"
proof -
  obtain b where am: "edited_amounts r e =
      Inr \<lparr>am_subtotal = Flt (cents (sum_list cs)), am_tax = Flt (cents b), am_total = Flt (cents (sum_list cs + b))\<rparr>"
    and b: "round_currency t = cents b" "\<bar>b\<bar> \<le> 5000000000" and s: "\<bar>sum_list cs\<bar> \<le> 5000000000" for e
    using edit_amounts_cents [OF assms(2-8)] by blast
  have "stored (Flt (round_currency t)) = quantize 2 (repr_dec t)"
    by (rule stored_round_currency) (use assms in simp_all)
  with b have tax: "of_int b / 100 = quantize 2 (repr_dec t)" using stored_cents [of b] by simp
  from assms(1) have "update_estimate cx r i st = Inr st'" by (auto simp: handle_def split: option.splits if_splits)
  then show ?thesis
  proof (rule update_estimate_abstract)
    fix e am'
    assume e: "row_by es_id i (st_estimates st) = Some e" "es_status e \<in> {''draft'', ''in_review''}"
      "es_company_id e = cx_company cx" "edited_amounts r e = Inr am'"
      "st_estimates st' = modify_by es_id i (edited_row r am') (st_estimates st)"
      "st_items st' = edited_items cx r i (st_items st)"
    then have "row_by es_id i (st_estimates st') = Some (edited_row r am' e)" by (simp add: row_by_modify_by)
    moreover have "es_subtotal (edited_row r am' e) = of_int (sum_list cs) / 100" "es_tax (edited_row r am' e) = of_int b / 100"
      "es_total (edited_row r am' e) = of_int (sum_list cs + b) / 100"
      using e(4) am [of e] b s by (auto simp: edited_row_def stored_cents)
    ultimately show ?thesis
      using e items_after_edit [OF e(6) assms(2)] assms(7) tax by (auto simp: add_divide_distrib)
  qed
qed

lemma decimals_block_life_cycle:
  assumes "cx_json cx = json_dumps" "handle cx rt i st = Inr st'"
  shows "rt = Delete \<or> (\<exists>r. rt = Edit r \<and>
    (ur_line_items r \<noteq> None \<or> ur_subtotal r \<noteq> None \<and> ur_tax r \<noteq> None \<and> ur_total r \<noteq> None))"
proof -
  have f: "finish cx k ev s = Inr s' \<Longrightarrow> False" for k ev s s'
    by (auto simp: finish_def record_snapshot_def assms(1) json_dumps_def build_estimate_snapshot_def loaded_amounts_def
        split: option.splits)
  have r: "\<not> is_decimal (am_subtotal am) \<and> \<not> is_decimal (am_tax am) \<and> \<not> is_decimal (am_total am)"
    if "record_snapshot cx k ev (build_estimate_snapshot am e ls) prev df s = Inr s'" for k ev am e ls prev df s s'
    using that by (auto simp: record_snapshot_def assms(1) json_dumps_def build_estimate_snapshot_def split: option.splits if_splits)
  have u: "ur_line_items q \<noteq> None \<or> ur_subtotal q \<noteq> None \<and> ur_tax q \<noteq> None \<and> ur_total q \<noteq> None"
    if "update_estimate cx q k s = Inr s'" for q k s s'
  proof -
    from that obtain e am where am: "edited_amounts q e = Inr am" "\<not> is_decimal (am_subtotal am)"
        "\<not> is_decimal (am_tax am)" "\<not> is_decimal (am_total am)"
      by (auto simp: update_estimate_def try_then_iff Let_def split: option.splits if_splits dest!: r)
    then show ?thesis
      by (auto simp: edited_amounts_def assigned_def split: option.splits)
  qed
  from assms(2) show ?thesis
    by (cases rt)
      (auto simp: handle_def review_ai_estimate_def approve_estimate_def send_estimate_def reopen_estimate_def
        move_estimate_def split: option.splits sum.splits if_splits dest: f u)
qed

inductive standard_call :: "estimate_store \<Rightarrow> estimate_store \<Rightarrow> bool" where
  call: "cx_json cx = json_dumps \<Longrightarrow> handle cx rt i st = Inr st' \<Longrightarrow> standard_call st st'"

inductive_cases standard_callE: "standard_call st st'"

lemma edit_or_delete:
  assumes "handle cx rt i st = Inr st'" "rt = Delete \<or> (\<exists>r. rt = Edit r)" "abstract i st' = Some (s, c)"
  shows "s = ''in_review''"
proof (cases rt)
  case (Edit r)
  with assms(1) have "update_estimate cx r i st = Inr st'" by (auto simp: handle_def split: option.splits if_splits)
  then show ?thesis
    by (rule update_estimate_abstract) (use assms(3) in \<open>auto simp: abstract_def row_by_modify_by\<close>)
next
  case Delete
  with assms(1) have "delete_estimate cx i st = Inr st'" by (auto simp: handle_def split: option.splits)
  from delete_abstract [OF this, of i] assms(3) show ?thesis by simp
qed (use assms(2) in simp_all)

lemma standard_call_unchanged:
  assumes "standard_call st st'" "abstract i st' = Some (s, c)" "s \<noteq> ''in_review''"
  shows "abstract i st = Some (s, c)"
  using assms(1)
proof (rule standard_callE)
  fix cx rt j assume h: "cx_json cx = json_dumps" "handle cx rt j st = Inr st'"
  have "j \<noteq> i" using edit_or_delete [OF h(2), of s c] decimals_block_life_cycle [OF h] assms(2,3) by blast
  then show ?thesis using handle_refines [OF h(2)] assms(2) by auto
qed

text \<open>
  C10. With the JSON encoder that the program uses nothing is ever reviewed, approved or sent: in
  every run of successful calls, by any callers on any estimates, an estimate whose status at the end
  is not \<open>in_review\<close> had this status and exactly this content (amounts, texts, line items) already at
  the start. The amounts of a reloaded estimate are \<open>Decimal\<close> values, which the encoder refuses, so
  every review, approval, sending and reopening raises after its status change and is rolled back;
  what remains is to delete an estimate and to edit a draft.
\<close>

theorem nothing_gets_approved:
  assumes "standard_call\<^sup>*\<^sup>* st st'" "abstract i st' = Some (s, c)" "s \<noteq> ''in_review''"
  shows "abstract i st = Some (s, c)"
  using assms
proof (induction rule: rtranclp_induct)
  case (step q st')
  with standard_call_unchanged show ?case by blast
qed

section \<open>A worked example\<close>

lemma sample_cents: "cents 300 = 3" "cents 25 = 1/4" "cents 325 = 13/4"
  by (simp_all add: cents_def num_eval)

lemma sample_canonical: "lc_total (canonical_item sample_item) = cents 300"
  by (simp add: canonical_item_def sample_item_def sample_total sample_cents)

lemma sample_amounts: "edited_amounts sample_edit e =
    Inr \<lparr>am_subtotal = Flt (cents 300), am_tax = Flt (cents 25), am_total = Flt (cents 325)\<rparr>"
proof -
  have "compute_subtotal (map (model_dump \<circ> canonical_item) [sample_item]) = Inr (cents (sum_list [300]))"
    using sample_canonical by (intro compute_subtotal_cents) (simp_all add: has_total_def model_dump_def)
  moreover have "round_currency (1/4) = cents 25" unfolding sample_cents by (rule sample_round)
  ultimately show ?thesis
    using cents_sum_total [of 300 25] by (simp add: edited_amounts_def sample_edit_def Let_def)
qed

lemma sample_accepted: "update_accepted sample_edit"
  by (simp add: update_accepted_def sample_edit_def line_item_accepted_def far_apart_def sample_item_def sample_total
      LINE_ITEM_TYPES_def sample_add num_eval)

lemma sample_edited:
  assumes "estimate_of (st_estimates st) 1 7 = Some (draft_estimate\<lparr>es_status := ''draft''\<rparr>)" "st_snapshots st = []"
  shows "\<exists>st'. handle (sample_caller json_dumps) (Edit sample_edit) 1 st = Inr st'"
proof -
  have "fits \<lparr>am_subtotal = Flt (cents 300), am_tax = Flt (cents 25), am_total = Flt (cents 325)\<rparr>"
    by (simp add: fits_def stored_cents)
  moreover have "get_latest_snapshot (st\<lparr>st_estimates := es, st_items := ls\<rparr>) i c = None" for es ls i c
    by (simp add: get_latest_snapshot_def snapshots_of_def assms(2))
  ultimately show ?thesis
    using sample_accepted assms(1)
    by (simp add: handle_def sample_caller_def require_roles_def staff_roles_def update_estimate_def sample_amounts Let_def
        record_snapshot_def json_dumps_def build_estimate_snapshot_def)
qed

theorem edit_adds_up_witness:
  "\<exists>(st' :: estimate_store) e. row_by es_id 1 (st_estimates st') = Some e \<and> es_total e = es_subtotal e + es_tax e \<and> es_subtotal e = 3"
proof -
  obtain st' where st': "handle (sample_caller json_dumps) (Edit sample_edit) 1 (sample_store ''draft'') = Inr st'"
    using sample_edited [of "sample_store ''draft''"] by (auto simp: estimate_of_def sample_store_def row_by_Cons draft_estimate_def)
  have "is_f64 (1/4)" using is_f64_dyadic [of 1 2] by simp
  with edit_adds_up [OF st', of "[sample_item]" "1/4" "[300]"] sample_canonical
  have "\<exists>e. row_by es_id 1 (st_estimates st') = Some e \<and> es_subtotal e = 3 \<and> es_total e = es_subtotal e + es_tax e"
    by (simp add: sample_edit_def) blast
  then show ?thesis by blast
qed

definition two_estimates :: estimate_store where
  "two_estimates = (sample_store ''draft'')
     \<lparr>st_estimates := [draft_estimate\<lparr>es_status := ''draft''\<rparr>, draft_estimate\<lparr>es_id := 2, es_status := ''approved''\<rparr>]\<rparr>"

theorem nothing_gets_approved_witness:
  "\<exists>st' c. standard_call two_estimates st' \<and> abstract 1 st' \<noteq> abstract 1 two_estimates \<and>
     abstract 2 st' = Some (''approved'', c) \<and> abstract 2 two_estimates = Some (''approved'', c)"
proof -
  obtain st' where st': "handle (sample_caller json_dumps) (Edit sample_edit) 1 two_estimates = Inr st'"
    using sample_edited [of two_estimates]
    by (auto simp: estimate_of_def two_estimates_def sample_store_def row_by_Cons draft_estimate_def)
  then have c: "standard_call two_estimates st'" by (rule standard_call.call [rotated]) (simp add: sample_caller_def)
  have a: "abstract 2 st' = abstract 2 two_estimates" using conjunct2 [OF handle_refines [OF st'], rule_format, of 2] by simp
  obtain x where x: "abstract 2 two_estimates = Some (''approved'', x)"
    by (simp add: abstract_def two_estimates_def row_by_Cons draft_estimate_def)
  have "abstract 2 two_estimates = Some (''approved'', x)"
    by (rule nothing_gets_approved [OF r_into_rtranclp [of standard_call, OF c]]) (simp_all add: a x)
  moreover have "abstract 1 st' \<noteq> abstract 1 two_estimates"
  proof -
    have "map_option fst (abstract 1 two_estimates) = Some ''draft''"
      by (simp add: abstract_def two_estimates_def row_by_Cons draft_estimate_def)
    moreover have "map_option fst (abstract 1 st') \<noteq> Some ''draft''" using edit_or_delete [OF st'] by auto
    ultimately show ?thesis by metis
  qed
  ultimately show ?thesis using c a by metis
qed

end
