(* ===== verification/JobState.thy ===== *)
theory JobState
  imports DataModel
begin

text \<open>
  The AI state of a job (\<open>app/billing/state_machine.py\<close>): the transition table, the guarded
  transition with its re-queue backoff, the self-correcting reconciliation, the reservation
  heartbeat and the release of stale reservations. The clock readings of one call are arguments.
\<close>

section \<open>The transition table\<close>

fun allowed_states :: "ai_state \<Rightarrow> ai_state list" where
  "allowed_states S_none = [S_queued, S_failed]"
| "allowed_states S_queued = [S_reserved, S_processing, S_failed]"
| "allowed_states S_reserved = [S_processing, S_failed]"
| "allowed_states S_processing = [S_completed, S_failed]"
| "allowed_states S_completed = [S_none]"
| "allowed_states S_failed = [S_compensated, S_queued, S_reserved]"
| "allowed_states S_compensated = [S_none]"

definition validate_job_transition :: "ai_state \<Rightarrow> ai_state \<Rightarrow> bool" where
  "validate_job_transition current target = (target \<in> set (allowed_states current))"

definition current_state :: "job \<Rightarrow> ai_state" where
  "current_state j = (case job_ai_state j of None \<Rightarrow> S_none | Some s \<Rightarrow> s)"

definition move_job :: "ai_state \<Rightarrow> micros \<Rightarrow> job \<Rightarrow> job" where
  "move_job target now j = j\<lparr>job_ai_state := Some target, job_ai_updated_at := Some now\<rparr>"

lemma move_job_simps [simp]:
  "current_state (move_job t now j) = t"
  "job_id (move_job t now j) = job_id j"
  "job_company_id (move_job t now j) = job_company_id j"
  "job_cycle_counter (move_job t now j) = job_cycle_counter j"
  "job_cycle_reset_at (move_job t now j) = job_cycle_reset_at j"
  by (simp_all add: move_job_def current_state_def)

section \<open>Self-correcting reconciliation\<close>

datatype reconcile_result = R_ok | R_skip_reservation | R_inconsistent | R_recovered

definition reconcile_decision :: "ai_state \<Rightarrow> ai_state \<Rightarrow> ai_state \<Rightarrow> reconcile_result \<times> ai_state option" where
  \<comment> \<open>the answer, and the state the job is moved to if it is moved\<close>
  "reconcile_decision current expected target =
     (if current = target then (R_ok, None)
      else if current = expected \<or> current = S_queued then
        (if validate_job_transition current target then (R_ok, Some target) else (R_inconsistent, None))
      else if current = S_processing \<and> target = S_reserved then (R_skip_reservation, None)
      else if current = S_completed then (R_ok, None)
      else if current = S_failed then
        (if validate_job_transition current S_queued then (R_recovered, Some S_queued) else (R_inconsistent, None))
      else (R_inconsistent, None))"

definition reconcile_job_state ::
    "database \<Rightarrow> uuid \<Rightarrow> uuid \<Rightarrow> ai_state \<Rightarrow> ai_state \<Rightarrow> micros \<Rightarrow> reconcile_result \<times> database" where
  "reconcile_job_state d i company expected target now =
     (case job_of d i company of
        None \<Rightarrow> (R_inconsistent, d)
      | Some j \<Rightarrow>
          (case reconcile_decision (current_state j) expected target of
             (r, None) \<Rightarrow> (r, d)
           | (r, Some s) \<Rightarrow> (r, change_job i (move_job s now) d)))"

section \<open>The guarded transition\<close>

text \<open>
  What the statement that locks the billing account meets. A statement that raises leaves the transaction aborted:
  PostgreSQL refuses every further statement until the rollback, with an error whose text names no deadlock.
\<close>

datatype lock_outcome = Locked | Deadlock_detected | Lock_failed

definition max_deadlock_retries :: nat where
  "max_deadlock_retries = 3"

fun lock_account :: "(nat \<Rightarrow> lock_outcome) \<Rightarrow> nat list \<Rightarrow> uuid \<Rightarrow> bool \<times> database \<Rightarrow> bool \<times> database" where
  \<comment> \<open>the loop over the attempts; \<open>outcome a\<close> is what attempt \<open>a\<close> meets in a transaction that is not aborted. The flag:
      the transaction is aborted\<close>
  "lock_account outcome [] c (aborted, d) = (aborted, d)"
| "lock_account outcome (attempt # attempts) c (aborted, d) =
     (case (if aborted then Lock_failed else outcome attempt) of
        Locked \<Rightarrow> (False, change_account c (\<lambda>a. a\<lparr>ba_reservation_heartbeat_at := None\<rparr>) d)
      | Deadlock_detected \<Rightarrow>
          (if attempt < max_deadlock_retries - 1 then lock_account outcome attempts c (True, d) else (True, d))
      | Lock_failed \<Rightarrow> (True, d))"

definition timestamp :: "micros \<Rightarrow> pyfloat" where
  "timestamp t = f64 (of_int t / 1000000)"

definition or_zero :: "int option \<Rightarrow> int" where
  "or_zero x = (case x of None \<Rightarrow> 0 | Some n \<Rightarrow> n)"

definition last_reset_ts :: "micros \<Rightarrow> job \<Rightarrow> pyfloat" where
  "last_reset_ts now j = (case job_cycle_reset_at j of None \<Rightarrow> timestamp now | Some t \<Rightarrow> timestamp t)"

definition effective_counter :: "micros \<Rightarrow> job \<Rightarrow> int" where
  "effective_counter now j =
     (let hours = max 0 (fdiv (fsub (timestamp now) (last_reset_ts now j)) 3600)
      in max 0 (or_zero (job_cycle_counter j) - \<lfloor>hours\<rfloor>))"

definition delay_seconds :: "int \<Rightarrow> int" where
  "delay_seconds counter = min (60 * 2 ^ nat (counter - 1)) 3600"

definition in_backoff :: "micros \<Rightarrow> job \<Rightarrow> bool" where
  "in_backoff now j =
     (let n = effective_counter now j
      in 0 < n \<and> fsub (timestamp now) (last_reset_ts now j) < of_int (delay_seconds n))"

definition bump_cycle :: "micros \<Rightarrow> job \<Rightarrow> job" where
  "bump_cycle now j = j\<lparr>job_cycle_counter := Some (effective_counter now j + 1), job_cycle_reset_at := Some now\<rparr>"

definition clear_cycle :: "job \<Rightarrow> job" where
  "clear_cycle j = j\<lparr>job_cycle_counter := Some 0, job_cycle_reset_at := None\<rparr>"

definition transition_job :: "ai_state \<Rightarrow> micros \<Rightarrow> micros \<Rightarrow> job \<Rightarrow> bool \<times> job" where
  \<comment> \<open>the part of \<open>transition_job_state\<close> that works on the locked job row\<close>
  "transition_job target now now2 j =
     (let current = current_state j;
          j1 = (if target = S_completed \<and> current = S_processing then clear_cycle j else j)
      in if target = S_queued \<and> current = S_none \<and> in_backoff now j1 then (False, bump_cycle now j1)
         else let j2 = (if target = S_queued \<and> current = S_none then bump_cycle now j1 else j1)
              in if validate_job_transition current target then (True, move_job target now2 j2) else (False, j2))"

definition transition_job_state ::
    "database \<Rightarrow> uuid \<Rightarrow> uuid \<Rightarrow> ai_state \<Rightarrow> (database \<Rightarrow> uuid \<Rightarrow> database) option \<Rightarrow>
     (nat \<Rightarrow> lock_outcome) \<Rightarrow> micros \<Rightarrow> micros \<Rightarrow> (bool \<times> database) option" where
  \<comment> \<open>\<open>None\<close>: the statement on the job raises, and the transaction is aborted\<close>
  "transition_job_state d i company target heartbeat_fn locks now now2 =
     (case lock_account locks [0..<max_deadlock_retries] company (False, d) of
        (True, _) \<Rightarrow> None
      | (False, d1) \<Rightarrow>
          (case job_of d1 i company of
             None \<Rightarrow> Some (False, d1)
           | Some j \<Rightarrow>
               (let done = fst (transition_job target now now2 j);
                    d2 = change_job i (\<lambda>r. snd (transition_job target now now2 r)) d1
                in Some (done, if done then (case heartbeat_fn of None \<Rightarrow> d2 | Some h \<Rightarrow> h d2 company) else d2))))"

datatype transition_error = State_transition_error uuid ai_state ai_state | Transaction_aborted

definition ensure_transition ::
    "database \<Rightarrow> uuid \<Rightarrow> uuid \<Rightarrow> ai_state \<Rightarrow> (nat \<Rightarrow> lock_outcome) \<Rightarrow> micros \<Rightarrow> micros \<Rightarrow> job \<Rightarrow>
     transition_error + database" where
  \<comment> \<open>\<open>held\<close> is the job object of the caller, from which the error message is made\<close>
  "ensure_transition d i company target locks now now2 held =
     (case transition_job_state d i company target None locks now now2 of
        None \<Rightarrow> Inl Transaction_aborted
      | Some (True, d') \<Rightarrow> Inr d'
      | Some (False, d') \<Rightarrow> Inl (State_transition_error i (current_state held) target))"

section \<open>Reservation heartbeat and stale reservations\<close>

definition heartbeat_reservation :: "micros \<Rightarrow> database \<Rightarrow> uuid \<Rightarrow> database" where
  "heartbeat_reservation now d company =
     change_account company (\<lambda>a. a\<lparr>ba_reservation_heartbeat_at := Some now\<rparr>) d"

definition PROCESSING_TIMEOUT_MINUTES :: int where
  "PROCESSING_TIMEOUT_MINUTES = 15"

definition stale_account :: "micros \<Rightarrow> billing_account \<Rightarrow> bool" where
  "stale_account now a =
     (case ba_reservation_heartbeat_at a of
        None \<Rightarrow> False
      | Some t \<Rightarrow> t < now - minutes PROCESSING_TIMEOUT_MINUTES \<and> 0 < ba_reserved_acu a)"

definition clear_reservation :: "billing_account \<Rightarrow> billing_account" where
  "clear_reservation a = a\<lparr>ba_reserved_acu := 0, ba_reservation_heartbeat_at := None\<rparr>"

definition stuck_job :: "uuid \<Rightarrow> job \<Rightarrow> bool" where
  "stuck_job company j \<longleftrightarrow> job_company_id j = company \<and> job_ai_state j \<in> {Some S_reserved, Some S_processing}"

definition release_company ::
    "micros \<Rightarrow> (uuid \<Rightarrow> bool) \<Rightarrow> (uuid \<Rightarrow> bool) \<Rightarrow> uuid \<Rightarrow> database \<Rightarrow> database" where
  \<comment> \<open>one round of the loop; \<open>locked j\<close>: another transaction holds the row of job \<open>j\<close>, which
      \<open>SKIP LOCKED\<close> leaves out; \<open>query_fails c\<close>: the query of the jobs of \<open>c\<close> raises\<close>
  "release_company now locked query_fails company d =
     (let d1 = change_account company clear_reservation d in
      if query_fails company then d1
      else d1\<lparr>db_jobs := update_where (\<lambda>j. stuck_job company j \<and> \<not> locked (job_id j))
                          (move_job S_queued now) (db_jobs d1)\<rparr>)"

definition cleanup_stale_reservations ::
    "micros \<Rightarrow> (uuid \<Rightarrow> bool) \<Rightarrow> (uuid \<Rightarrow> bool) \<Rightarrow> database \<Rightarrow> database" where
  "cleanup_stale_reservations now locked query_fails d =
     fold (release_company now locked query_fails)
       (map ba_company_id (filter (stale_account now) (db_accounts d))) d"

section \<open>One call of the guarded transition\<close>

lemma cycle_updates_keep [simp]:
  "job_id (bump_cycle now j) = job_id j" "job_company_id (bump_cycle now j) = job_company_id j"
  "job_id (clear_cycle j) = job_id j" "job_company_id (clear_cycle j) = job_company_id j"
  "current_state (bump_cycle now j) = current_state j" "current_state (clear_cycle j) = current_state j"
  by (simp_all add: bump_cycle_def clear_cycle_def current_state_def)

lemma transition_job_keeps [simp]:
  "job_id (snd (transition_job t now now2 j)) = job_id j"
  "job_company_id (snd (transition_job t now now2 j)) = job_company_id j"
  by (simp_all add: transition_job_def Let_def)

lemma keeps_transition_job [intro]: "keeps_job_key (\<lambda>j. snd (transition_job t now now2 j))"
  by (simp add: keeps_job_key_def)

lemma transition_job_done:
  "fst (transition_job target now now2 j) \<longleftrightarrow>
     validate_job_transition (current_state j) target \<and>
     \<not> (target = S_queued \<and> current_state j = S_none \<and> in_backoff now j)"
  by (auto simp: transition_job_def Let_def)

lemma transition_job_state_after:
  "current_state (snd (transition_job target now now2 j)) =
     (if fst (transition_job target now now2 j) then target else current_state j)"
  by (auto simp: transition_job_def Let_def)

definition account_locked :: "uuid \<Rightarrow> database \<Rightarrow> database" where
  \<comment> \<open>the database after the row of the account has been locked\<close>
  "account_locked c d = change_account c (\<lambda>a. a\<lparr>ba_reservation_heartbeat_at := None\<rparr>) d"

lemma lock_account_aborted: "lock_account outcome as c (True, d) = (True, d)"
  by (cases as) simp_all

lemma lock_account_first:
  \<comment> \<open>only the first attempt can succeed\<close>
  "lock_account outcome [0..<max_deadlock_retries] c (False, d) =
     (if outcome 0 = Locked then (False, account_locked c d) else (True, d))"
  by (auto simp: max_deadlock_retries_def upt_rec account_locked_def lock_account_aborted split: lock_outcome.split)

lemma account_locked_keeps [simp]:
  "job_row (account_locked c d) j = job_row d j" "job_of (account_locked c d) j c' = job_of d j c'"
  "db_jobs (account_locked c d) = db_jobs d" "db_ledger (account_locked c d) = db_ledger d"
  by (simp_all add: account_locked_def job_row_def change_account_def job_of_def)

lemma account_of_account_locked:
  "account_of (account_locked c d) c' =
     (if c' = c then map_option (\<lambda>a. a\<lparr>ba_reservation_heartbeat_at := None\<rparr>) (account_of d c') else account_of d c')"
  by (simp add: account_locked_def acct.fetch_change keeps_account_keyI)

lemma wf_db_account_locked [inv_intros]: "wf_db d \<Longrightarrow> wf_db (account_locked c d)"
  unfolding account_locked_def by (intro wf_db_change_account keeps_account_keyI) simp_all

lemma transition_job_state_None: "transition_job_state d i c t h locks now now2 = None \<longleftrightarrow> locks 0 \<noteq> Locked"
  by (cases "job_of d i c") (simp_all add: transition_job_state_def lock_account_first Let_def)

definition same_money :: "billing_account \<Rightarrow> billing_account \<Rightarrow> bool" where
  "same_money a b \<longleftrightarrow> ba_reserved_acu a = ba_reserved_acu b \<and> ba_used_acu a = ba_used_acu b
     \<and> ba_monthly_quota_acu a = ba_monthly_quota_acu b \<and> ba_acu_debt a = ba_acu_debt b \<and> ba_version a = ba_version b"

text \<open>
  C28. \<open>transition_job_state\<close> in full (without a heartbeat callback): unless its first statement locks the account row
  it raises, because the attempts after a deadlock run in an aborted transaction; once the row is locked it answers true exactly when
  the company owns the job, the table allows the move and the job is not waiting out its re-queue
  backoff; then the job is in the target state, otherwise it stays in its state; no other job
  and no other account is touched; the account's balances and version
  are untouched; and the unique constraints are kept.
\<close>

theorem transition_job_state_spec:
  "case transition_job_state d i c target None locks now now2 of
     None \<Rightarrow> locks 0 \<noteq> Locked
   | Some (done, d') \<Rightarrow> locks 0 = Locked \<and>
       (done \<longleftrightarrow> (\<exists>j. job_of d i c = Some j \<and> target \<in> set (allowed_states (current_state j)) \<and>
          \<not> (target = S_queued \<and> current_state j = S_none \<and> in_backoff now j))) \<and>
       map_option current_state (job_of d' i c) =
         map_option (\<lambda>j. if done then target else current_state j) (job_of d i c) \<and>
       (\<forall>k. k = i \<or> job_row d' k = job_row d k) \<and>
       (\<forall>c'. rel_option same_money (account_of d' c') (account_of d c') \<and>
             (c' = c \<or> account_of d' c' = account_of d c')) \<and>
       (wf_db d \<longrightarrow> wf_db d')"
proof (cases "locks 0 = Locked")
  case True
  let ?d1 = "account_locked c d"
  have acc: "rel_option same_money (account_of ?d1 c') (account_of d c') \<and> (c' = c \<or> account_of ?d1 c' = account_of d c')" for c'
    by (cases "account_of d c'") (auto simp: account_of_account_locked same_money_def)
  have wf: "wf_db d \<Longrightarrow> wf_db ?d1" by (rule wf_db_account_locked)
  show ?thesis
  proof (cases "job_of d i c")
    case None
    then show ?thesis using acc wf True by (simp add: transition_job_state_def lock_account_first)
  next
    case (Some j)
    then show ?thesis using acc wf True
      by (auto simp: transition_job_state_def lock_account_first Let_def job_of_change_job jobs.fetch_change keeps_transition_job
          transition_job_done transition_job_state_after validate_job_transition_def intro!: wf_db_change_job)
  qed
qed (simp add: transition_job_state_None [THEN iffD2])

definition new_job_db :: database where
  \<comment> \<open>a company whose job 4 is waiting to be queued, and another job\<close>
  "new_job_db = empty_db\<lparr>db_accounts := [(default_account 1 7 0)\<lparr>ba_reservation_heartbeat_at := Some 0\<rparr>],
     db_jobs := [default_job 4 7 3 ''user_1'' 0, move_job S_processing 0 (default_job 5 7 3 ''user_1'' 0)]\<rparr>"

theorem transition_job_state_spec_witness:
  "(\<exists>d'. transition_job_state new_job_db 4 7 S_queued None (\<lambda>_. Locked) 0 0 = Some (True, d') \<and> wf_db d' \<and>
      map_option current_state (job_of d' 4 7) = Some S_queued \<and> job_row d' 5 = job_row new_job_db 5) \<and>
   transition_job_state new_job_db 4 7 S_queued None (\<lambda>n. if n = 0 then Deadlock_detected else Locked) 0 0 = None"
proof -
  let ?j = "default_job 4 7 3 ''user_1'' 0"
  have wf: "wf_db new_job_db" by (simp add: wf_db_def new_job_db_def empty_db_def unique_on_def default_job_def move_job_def)
  have j: "job_of new_job_db 4 7 = Some ?j" by (simp add: job_of_def job_row_def row_by_Cons new_job_db_def default_job_def)
  have ok: "S_queued \<in> set (allowed_states (current_state ?j))" "\<not> in_backoff 0 ?j"
    by (simp_all add: current_state_def default_job_def in_backoff_def effective_counter_def or_zero_def last_reset_ts_def
        fsub_def fdiv_def Let_def)
  obtain r where r: "transition_job_state new_job_db 4 7 S_queued None (\<lambda>_. Locked) 0 0 = Some r"
    using transition_job_state_None [of new_job_db 4 7 S_queued None "\<lambda>_. Locked" 0 0] by auto
  from transition_job_state_spec [where d = new_job_db and i = 4 and c = 7 and target = S_queued and locks = "\<lambda>_. Locked" and now = 0 and ?now2.0 = 0] r j ok wf
  have "\<exists>d'. r = (True, d') \<and> wf_db d' \<and> map_option current_state (job_of d' 4 7) = Some S_queued \<and> job_row d' 5 = job_row new_job_db 5"
    by (cases r) (auto dest!: spec [of "\<lambda>k. k = 4 \<or> _ k" 5])
  moreover have "transition_job_state new_job_db 4 7 S_queued None (\<lambda>n. if n = 0 then Deadlock_detected else Locked) 0 0 = None"
    by (simp add: transition_job_state_None)
  ultimately show ?thesis using r by blast
qed

section \<open>The re-queue backoff is bounded\<close>

lemma timestamp_err:
  assumes "0 \<le> t" "t \<le> seconds 8000000000"
  shows "\<bar>timestamp t - of_int t / 1000000\<bar> \<le> 1 / 1000000"
proof -
  have "(of_int t :: rat) \<le> of_int (seconds 8000000000)" using assms(2) by (rule of_int_le_iff [THEN iffD2])
  then have "\<bar>of_int t / 1000000 :: rat\<bar> \<le> 8000000000" using assms(1) by simp
  moreover have "9007199254740992 * \<bar>timestamp t - of_int t / 1000000\<bar> \<le> \<bar>of_int t / 1000000\<bar>"
    using f64_err [of "of_int t / 1000000"] by (simp add: timestamp_def)
  ultimately have "9007199254740992 * \<bar>timestamp t - of_int t / 1000000\<bar> \<le> 8000000000" by (rule order.trans [rotated])
  then show ?thesis by simp
qed

lemma timestamp_bounds:
  assumes "0 \<le> t" "t \<le> seconds 8000000000"
  shows "timestamp t * 1000000 \<le> of_int t + 1" "of_int t - 1 \<le> timestamp t * 1000000"
proof -
  have "x * 1000000 \<le> y + 1 \<and> y - 1 \<le> x * 1000000" if "\<bar>x - y / 1000000\<bar> \<le> 1 / 1000000" for x y :: rat
    using that by arith
  then show "timestamp t * 1000000 \<le> of_int t + 1" "of_int t - 1 \<le> timestamp t * 1000000"
    using timestamp_err [OF assms] by blast+
qed

lemma elapsed_at_least:
  assumes "0 \<le> l" "l \<le> t" "t \<le> seconds 8000000000" and n: "seconds n + 1000000 \<le> t - l" "0 \<le> n" "n \<le> 3600"
  shows "of_int n \<le> fsub (timestamp t) (timestamp l)"
proof -
  have "of_int (seconds n + 1000000) \<le> (of_int (t - l) :: rat)" using n(1) by (rule of_int_le_iff [THEN iffD2])
  moreover have "of_int t - 1 \<le> timestamp t * 1000000" "timestamp l * 1000000 \<le> of_int l + 1"
    using assms by (auto intro!: timestamp_bounds)
  ultimately have "of_int n \<le> timestamp t - timestamp l" by simp
  then have "f64 (of_int n) \<le> fsub (timestamp t) (timestamp l)" unfolding fsub_def by (rule f64_mono)
  then show ?thesis using n(2,3) by (simp add: f64_of_int)
qed

lemma elapsed_less:
  assumes "0 \<le> l" "l \<le> t" "t \<le> seconds 8000000000" and n: "t - l \<le> seconds n - 1000000" "n \<le> 3600"
  shows "fsub (timestamp t) (timestamp l) \<le> of_int n - 1 / 4"
proof -
  have "(of_int (t - l) :: rat) \<le> of_int (seconds n - 1000000)" using n(1) by (rule of_int_le_iff [THEN iffD2])
  moreover have "timestamp t * 1000000 \<le> of_int t + 1" "of_int l - 1 \<le> timestamp l * 1000000"
    using assms by (auto intro!: timestamp_bounds)
  ultimately have "timestamp t - timestamp l \<le> of_int n - 1 / 2" by simp
  then have le: "fsub (timestamp t) (timestamp l) \<le> f64 (of_int n - 1 / 2)" unfolding fsub_def by (rule f64_mono)
  have "1 \<le> n" using assms(2) n(1) by simp
  then have "1 \<le> (of_int n :: rat)" "(of_int n :: rat) \<le> 3600" using n(2) by simp_all
  then have b: "\<bar>of_int n - 1 / 2\<bar> \<le> (3600 :: rat)" by arith
  have "9007199254740992 * \<bar>f64 (of_int n - 1 / 2) - (of_int n - 1 / 2)\<bar> \<le> \<bar>of_int n - 1 / 2 :: rat\<bar>"
    using f64_err [of "of_int n - 1 / 2"] by simp
  with b have "9007199254740992 * \<bar>f64 (of_int n - 1 / 2) - (of_int n - 1 / 2)\<bar> \<le> (3600 :: rat)" by linarith
  moreover have "f \<le> N - 1 / 4" if "9007199254740992 * \<bar>f - (N - 1 / 2)\<bar> \<le> 3600" for f N :: rat
    using that by (cases "N - 1 / 2 \<le> f") auto
  ultimately have "f64 (of_int n - 1 / 2) \<le> of_int n - 1 / 4" by blast
  with le show ?thesis by simp
qed

lemma delay_seconds_bounds: "0 < n \<Longrightarrow> 60 \<le> delay_seconds n" "delay_seconds n \<le> 3600"
proof -
  have "(60 :: int) * 1 \<le> 60 * 2 ^ k" for k :: nat by (rule mult_left_mono) simp_all
  then show "60 \<le> delay_seconds n" by (auto simp: delay_seconds_def)
qed (simp add: delay_seconds_def)

text \<open>
  The backoff is never a permanent block: once an hour and a second have passed since the last
  attempt to queue the job, the next attempt is accepted, however many cycles are on its counter.
\<close>

theorem requeue_after_an_hour:
  assumes "current_state j = S_none" "job_cycle_reset_at j = Some prev"
    and "0 \<le> prev" "prev + seconds 3601 \<le> now" "now \<le> seconds 8000000000"
  shows "fst (transition_job S_queued now now2 j)"
proof -
  have "of_int 3600 \<le> fsub (timestamp now) (timestamp prev)"
    using assms by (intro elapsed_at_least) simp_all
  moreover have "of_int (delay_seconds n) \<le> (of_int 3600 :: rat)" for n
    using delay_seconds_bounds(2) by (rule of_int_le_iff [THEN iffD2])
  ultimately have "of_int (delay_seconds n) \<le> fsub (timestamp now) (timestamp prev)" for n
    by (rule order.trans [rotated])
  then have "\<not> in_backoff now j"
    using assms(2) by (simp add: in_backoff_def last_reset_ts_def Let_def not_less)
  then show ?thesis using assms(1) by (simp add: transition_job_done validate_job_transition_def)
qed

definition cycling_job :: job where
  "cycling_job = (default_job 1 7 3 ''user_1'' 0)
     \<lparr>job_cycle_counter := Some 5, job_cycle_reset_at := Some (seconds 1700000000)\<rparr>"

theorem requeue_after_an_hour_witness:
  "fst (transition_job S_queued (seconds 1700003601) (seconds 1700003601) cycling_job)"
  by (rule requeue_after_an_hour [where prev = "seconds 1700000000"]) (simp_all add: cycling_job_def default_job_def current_state_def)

text \<open>
  And it does hold back a job that cycles: while less than \<open>min(60 * 2^(n-1), 3600)\<close> seconds (less
  one second for the rounding of the clock) have passed since the last attempt, a job whose
  counter is \<open>n > 0\<close> is refused, stays in its state, and the refused attempt counts as one more
  cycle and restarts the wait.
\<close>

theorem requeue_too_soon:
  assumes "current_state j = S_none" "job_cycle_reset_at j = Some prev" "job_cycle_counter j = Some n" "0 < n"
    and "0 \<le> prev" "prev \<le> now" "now \<le> prev + seconds (delay_seconds n) - seconds 1" "now \<le> seconds 8000000000"
  shows "transition_job S_queued now now2 j =
           (False, j\<lparr>job_cycle_counter := Some (n + 1), job_cycle_reset_at := Some now\<rparr>)"
proof -
  let ?e = "fsub (timestamp now) (timestamp prev)"
  have "?e \<le> of_int (delay_seconds n) - 1 / 4"
    using assms delay_seconds_bounds(2) [of n] by (intro elapsed_less) simp_all
  then have "?e < of_int (delay_seconds n)" by simp
  have "?e \<le> of_int 3600 - 1 / 4" using assms delay_seconds_bounds(2) [of n] by (intro elapsed_less) simp_all
  have "fdiv ?e 3600 < 1"
  proof -
    have "fdiv ?e 3600 \<le> f64 (14399 / 14400)"
      using \<open>?e \<le> of_int 3600 - 1 / 4\<close> unfolding fdiv_def by (intro f64_mono) simp
    moreover have "9007199254740992 * \<bar>f64 (14399 / 14400) - 14399 / 14400\<bar> \<le> 14399 / 14400"
      using f64_err [of "14399 / 14400"] by simp
    moreover have "f < 1" if "9007199254740992 * \<bar>f - 14399 / 14400\<bar> \<le> 14399 / 14400" for f :: rat
      using that by (cases "14399 / 14400 \<le> f") auto
    ultimately show ?thesis using order.strict_trans1 by blast
  qed
  then have "\<lfloor>max 0 (fdiv ?e 3600)\<rfloor> = 0" by (simp add: floor_eq_iff max_def)
  then have "effective_counter now j = n"
    using assms by (simp add: effective_counter_def last_reset_ts_def or_zero_def Let_def)
  with \<open>?e < of_int (delay_seconds n)\<close> assms show ?thesis
    by (simp add: transition_job_def in_backoff_def bump_cycle_def last_reset_ts_def Let_def)
qed

theorem requeue_too_soon_witness:
  "fst (transition_job S_queued (seconds 1700000900) (seconds 1700000900) cycling_job) = False"
  by (subst requeue_too_soon [where prev = "seconds 1700000000" and n = 5])
     (simp_all add: cycling_job_def default_job_def current_state_def delay_seconds_def)

section \<open>Histories of one job\<close>

text \<open>
  What can happen to a job's row: a call of the guarded transition, whether it is accepted or
  not, and a reconciliation.
\<close>

inductive job_step :: "job \<Rightarrow> job \<Rightarrow> bool" where
  guarded: "job_step j (snd (transition_job target now now2 j))"
| reconciled: "reconcile_decision (current_state j) expected target = (r, Some s) \<Longrightarrow> job_step j (move_job s now j)"

inductive_cases job_stepE: "job_step j j'"

lemma reconcile_decision_allowed:
  "reconcile_decision current expected target = (r, Some s) \<Longrightarrow> validate_job_transition current s"
  by (auto simp: reconcile_decision_def split: if_splits)

lemma job_step_allowed:
  "job_step j j' \<Longrightarrow> current_state j' = current_state j \<or> validate_job_transition (current_state j) (current_state j')"
  by (auto elim!: job_stepE dest: reconcile_decision_allowed simp: transition_job_state_after transition_job_done)

interpretation job_machine: table_machine current_state job_step validate_job_transition
  by unfold_locales (rule job_step_allowed)

lemma validate_into:
  "validate_job_transition s S_completed \<longleftrightarrow> s = S_processing"
  "validate_job_transition s S_compensated \<longleftrightarrow> s = S_failed"
  by (cases s; simp add: validate_job_transition_def)+

lemma validate_from:
  "validate_job_transition S_completed s \<longleftrightarrow> s = S_none"
  "validate_job_transition S_compensated s \<longleftrightarrow> s = S_none"
  by (auto simp: validate_job_transition_def)

text \<open>
  C30. Billing depends on where a job has been: whatever sequence of guarded transitions and
  reconciliations is made, a job that becomes completed was processing, one that becomes
  compensated had failed, and a completed or compensated job can only get back into the pipeline
  through the state \<open>none\<close>.
\<close>

theorem job_history:
  assumes "job_step\<^sup>*\<^sup>* j j'"
  shows "(current_state j \<noteq> S_completed \<and> current_state j' = S_completed \<longrightarrow>
            (\<exists>q. job_step\<^sup>*\<^sup>* j q \<and> current_state q = S_processing \<and> job_step\<^sup>*\<^sup>* q j')) \<and>
         (current_state j \<noteq> S_compensated \<and> current_state j' = S_compensated \<longrightarrow>
            (\<exists>q. job_step\<^sup>*\<^sup>* j q \<and> current_state q = S_failed \<and> job_step\<^sup>*\<^sup>* q j')) \<and>
         (current_state j \<in> {S_completed, S_compensated} \<and> current_state j' \<noteq> current_state j \<longrightarrow>
            (\<exists>q. job_step\<^sup>*\<^sup>* j q \<and> current_state q = S_none \<and> job_step\<^sup>*\<^sup>* q j'))"
proof (intro conjI impI; elim conjE)
  assume "current_state j \<noteq> S_completed" "current_state j' = S_completed"
  with assms show "\<exists>q. job_step\<^sup>*\<^sup>* j q \<and> current_state q = S_processing \<and> job_step\<^sup>*\<^sup>* q j'"
    by (intro job_machine.arrives_via [where s = S_completed]) (auto simp: validate_into)
next
  assume "current_state j \<noteq> S_compensated" "current_state j' = S_compensated"
  with assms show "\<exists>q. job_step\<^sup>*\<^sup>* j q \<and> current_state q = S_failed \<and> job_step\<^sup>*\<^sup>* q j'"
    by (intro job_machine.arrives_via [where s = S_compensated]) (auto simp: validate_into)
next
  assume "current_state j \<in> {S_completed, S_compensated}" "current_state j' \<noteq> current_state j"
  with assms show "\<exists>q. job_step\<^sup>*\<^sup>* j q \<and> current_state q = S_none \<and> job_step\<^sup>*\<^sup>* q j'"
    by (intro job_machine.leaves_via [where s = "current_state j"]) (auto simp: validate_from)
qed

theorem job_history_witness:
  "\<exists>q. job_step\<^sup>*\<^sup>* (move_job S_processing 1 cycling_job) q \<and> current_state q = S_processing"
proof -
  let ?p = "move_job S_processing 1 cycling_job"
  let ?c = "snd (transition_job S_completed 2 2 ?p)"
  have "job_step\<^sup>*\<^sup>* ?p ?c" by (rule r_into_rtranclp) (rule job_step.guarded)
  moreover have "current_state ?c = S_completed"
    by (simp add: transition_job_state_after transition_job_done validate_into)
  ultimately show ?thesis using job_history [of ?p ?c] by auto
qed

text \<open>
  The self-correcting reconciliation never leaves the table and never touches another row:
  it moves the job only by an allowed transition, answers \<open>ok\<close> only for a job that is now in the
  target state or already completed, and \<open>recovered\<close> exactly for a failed job that it put back into
  the queue.
\<close>

theorem reconcile_job_state_spec:
  "case reconcile_job_state d i c expected target now of (r, d') \<Rightarrow>
     (\<forall>k. k = i \<or> job_row d' k = job_row d k) \<and> db_accounts d' = db_accounts d \<and>
     (job_of d i c = None \<longrightarrow> r = R_inconsistent \<and> d' = d) \<and>
     (\<forall>j. job_of d i c = Some j \<longrightarrow> (\<exists>j'. job_of d' i c = Some j' \<and>
        (j' = j \<or> validate_job_transition (current_state j) (current_state j')) \<and>
        (r = R_ok \<longrightarrow> current_state j' = target \<or> current_state j' = S_completed) \<and>
        (r = R_recovered \<longleftrightarrow> current_state j = S_failed \<and> target \<noteq> S_failed \<and> expected \<noteq> S_failed
            \<and> current_state j' = S_queued)))"
proof -
  have decide: "(r \<noteq> R_ok \<or> s = Some target \<or> s = None \<and> (current = target \<or> current = S_completed)) \<and>
      (r = R_recovered \<longleftrightarrow> current = S_failed \<and> target \<noteq> S_failed \<and> expected \<noteq> S_failed \<and> s = Some S_queued)"
    if "reconcile_decision current expected target = (r, s)" for current r s
    using that by (auto simp: reconcile_decision_def validate_job_transition_def split: if_splits)
  have key: "keeps_job_key (move_job s now)" for s by (simp add: keeps_job_key_def)
  show ?thesis
  proof (cases "job_of d i c")
    case None
    then show ?thesis by (simp add: reconcile_job_state_def)
  next
    case (Some j)
    obtain r s where rs: "reconcile_decision (current_state j) expected target = (r, s)"
      by (cases "reconcile_decision (current_state j) expected target")
    show ?thesis using Some rs decide [OF rs] reconcile_decision_allowed
      by (cases s) (auto simp: reconcile_job_state_def job_of_change_job jobs.fetch_change key)
  qed
qed

theorem reconcile_job_state_spec_witness:
  "fst (reconcile_job_state empty_db 4 7 S_reserved S_processing 0) = R_inconsistent"
  using reconcile_job_state_spec [where d = empty_db and i = 4 and c = 7 and expected = S_reserved
      and target = S_processing and now = 0]
  by (simp add: case_prod_beta job_of_def job_row_def empty_db_def)

section \<open>Releasing stale reservations\<close>

lemma release_company_account:
  "account_of (release_company now lk qf c d) c' =
     (if c' = c then map_option clear_reservation (account_of d c') else account_of d c')"
proof -
  have "account_of (release_company now lk qf c d) c' = account_of (change_account c clear_reservation d) c'"
    by (simp add: release_company_def Let_def account_of_def)
  then show ?thesis
    by (simp add: acct.fetch_change keeps_account_keyI clear_reservation_def)
qed

lemma release_company_job:
  "job_row (release_company now lk qf c d) i =
     map_option (\<lambda>j. if stuck_job c j \<and> \<not> lk (job_id j) \<and> \<not> qf c then move_job S_queued now j else j) (job_row d i)"
  by (auto simp: release_company_def Let_def job_row_def row_by_update_where option.map_ident
      cong: option.map_cong intro!: option.map_cong split: option.split)

definition releases :: "uuid set \<Rightarrow> (uuid \<Rightarrow> bool) \<Rightarrow> (uuid \<Rightarrow> bool) \<Rightarrow> job \<Rightarrow> bool" where
  "releases cs lk qf j \<longleftrightarrow> job_company_id j \<in> cs \<and> stuck_job (job_company_id j) j \<and> \<not> lk (job_id j) \<and> \<not> qf (job_company_id j)"

lemma clear_reservation_idem [simp]: "clear_reservation (clear_reservation a) = clear_reservation a"
  by (simp add: clear_reservation_def)

lemma fold_release_account:
  "account_of (fold (release_company now lk qf) cs d) c =
     (if c \<in> set cs then map_option clear_reservation (account_of d c) else account_of d c)"
  by (induction cs arbitrary: d) (auto simp: release_company_account option.map_comp comp_def)

lemma fold_release_job:
  "job_row (fold (release_company now lk qf) cs d) i =
     map_option (\<lambda>j. if releases (set cs) lk qf j then move_job S_queued now j else j) (job_row d i)"
proof (induction cs arbitrary: d)
  case Nil
  then show ?case by (simp add: releases_def option.map_ident)
next
  case (Cons c cs)
  have "stuck_job c (move_job S_queued now j) = False" for c j by (simp add: stuck_job_def move_job_def)
  then show ?case
    by (cases "job_row d i") (auto simp: Cons.IH release_company_job releases_def stuck_job_def)
qed

text \<open>
  What the cleanup does, account by account and job by job: exactly the accounts with a
  positive reservation and a heartbeat older than the timeout lose their reservation, and
  exactly their reserved or processing jobs go back to the queue, except rows another
  transaction holds and companies whose job query failed; nothing else changes, and no account
  is stale afterwards.
\<close>

theorem cleanup_stale_reservations_spec:
  "wf_db d \<Longrightarrow>
   (let d' = cleanup_stale_reservations now locked query_fails d;
        stale = (\<lambda>c. \<exists>a. account_of d c = Some a \<and> stale_account now a)
    in (\<forall>c. account_of d' c = map_option (\<lambda>a. if stale_account now a then clear_reservation a else a) (account_of d c)) \<and>
       (\<forall>i. job_row d' i = map_option (\<lambda>j. if stale (job_company_id j) \<and> stuck_job (job_company_id j) j
              \<and> \<not> locked (job_id j) \<and> \<not> query_fails (job_company_id j) then move_job S_queued now j else j) (job_row d i)) \<and>
       (\<forall>c a. account_of d' c = Some a \<longrightarrow> \<not> stale_account now a))"
proof -
  assume wf: "wf_db d"
  let ?cs = "map ba_company_id (filter (stale_account now) (db_accounts d))"
  have mem: "c \<in> set ?cs \<longleftrightarrow> (\<exists>a. account_of d c = Some a \<and> stale_account now a)" for c
    using wf by (auto simp: wf_db_def account_of_def dest: row_by_unique row_by_mem row_by_key intro: rev_image_eqI)
  have clear: "\<not> stale_account now (clear_reservation a)" for a by (simp add: stale_account_def clear_reservation_def)
  have acc: "account_of (cleanup_stale_reservations now locked query_fails d) c =
      map_option (\<lambda>a. if stale_account now a then clear_reservation a else a) (account_of d c)" for c
    unfolding cleanup_stale_reservations_def fold_release_account mem by (cases "account_of d c") auto
  have none: "\<not> stale_account now a"
    if "account_of (cleanup_stale_reservations now locked query_fails d) c = Some a" for c a
    using that clear unfolding acc by (cases "account_of d c") (simp_all split: if_splits, blast)
  have row: "job_row (cleanup_stale_reservations now locked query_fails d) i =
      map_option (\<lambda>j. if (\<exists>a. account_of d (job_company_id j) = Some a \<and> stale_account now a)
        \<and> stuck_job (job_company_id j) j \<and> \<not> locked (job_id j) \<and> \<not> query_fails (job_company_id j)
        then move_job S_queued now j else j) (job_row d i)" for i
    unfolding cleanup_stale_reservations_def fold_release_job releases_def mem ..
  show ?thesis unfolding Let_def by (intro conjI allI impI) (fact acc, fact row, erule none)
qed

definition stale_db :: database where
  "stale_db = empty_db\<lparr>db_accounts := [(default_account 1 7 0)\<lparr>ba_reserved_acu := 3, ba_reservation_heartbeat_at := Some 0\<rparr>],
     db_jobs := [move_job S_reserved 0 (default_job 4 7 3 ''user_1'' 0)]\<rparr>"

theorem cleanup_stale_reservations_spec_witness:
  "map_option current_state (job_row (cleanup_stale_reservations (minutes 16) (\<lambda>_. False) (\<lambda>_. False) stale_db) 4) = Some S_queued"
proof -
  have "wf_db stale_db"
    by (simp add: wf_db_def stale_db_def empty_db_def unique_on_def default_account_def default_job_def)
  note spec = cleanup_stale_reservations_spec [OF this, of "minutes 16" "\<lambda>_. False" "\<lambda>_. False", unfolded Let_def]
  have a: "account_of stale_db 7 = Some ((default_account 1 7 0)\<lparr>ba_reserved_acu := 3, ba_reservation_heartbeat_at := Some 0\<rparr>)"
    by (simp add: stale_db_def account_of_def row_by_def default_account_def)
  have j: "job_row stale_db 4 = Some (move_job S_reserved 0 (default_job 4 7 3 ''user_1'' 0))"
    by (simp add: stale_db_def job_row_def row_by_def default_job_def)
  have "stale_account (minutes 16) ((default_account 1 7 0)\<lparr>ba_reserved_acu := 3, ba_reservation_heartbeat_at := Some 0\<rparr>)"
    by (simp add: stale_account_def PROCESSING_TIMEOUT_MINUTES_def)
  moreover have "stuck_job 7 (move_job S_reserved 0 (default_job 4 7 3 ''user_1'' 0))"
    by (simp add: stuck_job_def default_job_def) (simp add: move_job_def)
  moreover have "job_company_id (default_job 4 7 3 ''user_1'' 0) = 7" by (simp add: default_job_def)
  ultimately show ?thesis
    using spec [THEN conjunct2, THEN conjunct1, rule_format, of 4] by (simp add: a j)
qed

end
