(* ===== verification/PyTime.thy ===== *)
theory PyTime
  imports Prelude
begin

text \<open>
  What the program uses of \<open>datetime\<close> beyond differences: the civil date of an instant in UTC and
  the formats \<open>%Y-%m-%d\<close> and \<open>%Y-%m\<close>. An instant is a number of microseconds since the epoch.
\<close>

definition day_of :: "micros \<Rightarrow> int" where
  \<comment> \<open>days since 1970-01-01\<close>
  "day_of t = t div 86400000000"

definition midnight :: "micros \<Rightarrow> micros" where
  "midnight t = day_of t * 86400000000"

definition civil_of_day :: "int \<Rightarrow> int \<times> int \<times> int" where
  \<comment> \<open>year, month, day of the proleptic Gregorian calendar; the year is counted from March\<close>
  "civil_of_day z =
     (let w = z + 719468; era = w div 146097; doe = w mod 146097;
          yoe = (doe - doe div 1460 + doe div 36524 - doe div 146096) div 365;
          doy = doe - (365 * yoe + yoe div 4 - yoe div 100);
          mp = (5 * doy + 2) div 153;
          m = (if mp < 10 then mp + 3 else mp - 9)
      in (yoe + era * 400 + (if m \<le> 2 then 1 else 0), m, doy - (153 * mp + 2) div 5 + 1))"

definition digit :: "int \<Rightarrow> char" where
  "digit n = ''0123456789'' ! nat (n mod 10)"

definition two_digits :: "int \<Rightarrow> string" where
  "two_digits n = [digit (n div 10), digit n]"

definition four_digits :: "int \<Rightarrow> string" where
  "four_digits n = [digit (n div 1000), digit (n div 100), digit (n div 10), digit n]"

definition format_date :: "micros \<Rightarrow> string" where
  "format_date t = (case civil_of_day (day_of t) of (y, m, d) \<Rightarrow> four_digits y @ ''-'' @ two_digits m @ ''-'' @ two_digits d)"

definition format_month :: "micros \<Rightarrow> string" where
  "format_month t = (case civil_of_day (day_of t) of (y, m, d) \<Rightarrow> four_digits y @ ''-'' @ two_digits m)"

lemma midnight_le: "midnight t \<le> t"
proof -
  have "t = midnight t + t mod 86400000000" by (simp add: midnight_def day_of_def)
  then show ?thesis by (metis add_increasing2 order_refl pos_mod_sign zero_less_numeral)
qed

lemma civil_of_day_examples:
  "civil_of_day 0 = (1970, 1, 1)" "civil_of_day 11016 = (2000, 2, 29)" "civil_of_day 20088 = (2024, 12, 31)"
  by code_simp+

end
