(* ===== verification/Quota.thy ===== *)
theory Quota
  imports DataModel Plans PyTime
begin

text \<open>
  The quota engine (\<open>app/billing/quota_engine.py\<close>) over the billing accounts, the daily usage of
  users (\<open>user_quota.py\<close>), the job estimates and the Redis reservation keys.

  Accounts are updated optimistically: read, compute, \<open>UPDATE ... WHERE version = v\<close>. What other
  transactions commit between the read and the update of attempt \<open>n\<close> is the argument \<open>other n\<close>;
  what the ORM session shows for the row that attempt \<open>n\<close> selects is the argument \<open>seen n\<close> (the
  identity function when the session reads the row afresh; a session may keep attributes it
  loaded before). Decimal arithmetic is rounded to the context's 28 digits, stores to the
  column's scale.
\<close>

section \<open>Results and the state the engine works on\<close>

datatype quota_reason = No_reason | AI_disabled | Cost_exceeds_tier_limit pyfloat pyfloat
  | Insufficient_quota rat rat | User_daily_limit string pyfloat | Concurrency_limit | Quota_ok
  | Daily_spend_limit pyfloat pyfloat pyfloat

record quota_result =
  allowed :: bool
  reason :: quota_reason
  reserved_acu :: pyfloat

definition deny :: "quota_reason \<Rightarrow> quota_result" where
  "deny r = \<lparr>allowed = False, reason = r, reserved_acu = 0\<rparr>"

lemma deny_simps [simp]: "allowed (deny r) = False" "reason (deny r) = r"
  by (simp_all add: deny_def)

datatype quota_error = Unbound_local_error | Attribute_error

text \<open>The keys \<open>reservation:{company}:{job}\<close> with their value and expiry; \<open>redis_up\<close> is false when
  there is no connection or the call raises.\<close>

record quota_state =
  qs_db :: database
  qs_reservations :: "uuid \<times> uuid \<Rightarrow> (pyfloat \<times> micros) option"

record session =
  seen :: "nat \<Rightarrow> billing_account \<Rightarrow> billing_account"
  seen_usage :: "nat \<Rightarrow> user_daily_usage \<Rightarrow> user_daily_usage"
  other :: "nat \<Rightarrow> database \<Rightarrow> database"

definition max_retries :: nat where
  "max_retries = 3"

section \<open>The account\<close>

definition get_or_create_account :: "uuid \<Rightarrow> micros \<Rightarrow> uuid \<Rightarrow> string \<Rightarrow> database \<Rightarrow> database" where
  \<comment> \<open>\<open>fresh\<close> is the new row's generated id; the caller reads the row of the result\<close>
  "get_or_create_account fresh now company plan d =
     d\<lparr>db_accounts := insert_unless (\<lambda>a. ba_company_id a = company)
        ((default_account fresh company now)
          \<lparr>ba_plan := plan, ba_monthly_quota_acu := quantize 4 (repr_dec (quota_acu (tier_of plan))),
           ba_used_acu := 0, ba_reserved_acu := 0, ba_billing_period_start := Some now,
           ba_billing_period_end := Some (now + hours 720), ba_reset_at := Some (now + hours 720),
           ba_temp_quota_multiplier := 1\<rparr>)
        (db_accounts d)\<rparr>"

definition cas_account :: "uuid \<Rightarrow> int \<Rightarrow> (billing_account \<Rightarrow> billing_account) \<Rightarrow> database \<Rightarrow> bool \<times> database" where
  \<comment> \<open>\<open>UPDATE billing_accounts SET f, version = version + 1 WHERE company_id = c AND version = v\<close>;
      the flag says whether a row was hit\<close>
  "cas_account c v f d =
     (case account_of d c of
        Some a \<Rightarrow> if ba_version a = v
                  then (True, change_account c (\<lambda>a. (f a)\<lparr>ba_version := ba_version a + 1\<rparr>) d) else (False, d)
      | None \<Rightarrow> (False, d))"

definition acu_of_usd :: "pyfloat \<Rightarrow> rat" where
  \<comment> \<open>\<open>Decimal(str(usd)) / Decimal(str(ACU_TO_USD))\<close>\<close>
  "acu_of_usd usd = dec28 (repr_dec usd / repr_dec ACU_TO_USD)"

definition available_acu :: "billing_account \<Rightarrow> rat" where
  "available_acu a = dec28 (dec28 (ba_monthly_quota_acu a - ba_used_acu a) - ba_reserved_acu a)"

definition gate :: "billing_account \<Rightarrow> pyfloat \<Rightarrow> quota_reason option" where
  \<comment> \<open>the checks that \<open>check_and_reserve\<close> and \<open>check_quota\<close> share, on the account that was read\<close>
  "gate account estimated_cost_usd =
     (let tier = tier_of (ba_plan account); cost_decimal = repr_dec estimated_cost_usd;
          cost_acu = acu_of_usd estimated_cost_usd; available = available_acu account
      in if ba_ai_disabled account then Some AI_disabled
         else if repr_dec (max_cost_per_job tier) < cost_decimal then
           Some (Cost_exceeds_tier_limit estimated_cost_usd (max_cost_per_job tier))
         else if available < cost_acu then Some (Insufficient_quota cost_acu available)
         else None)"

section \<open>The user's daily usage\<close>

definition usage_of :: "database \<Rightarrow> string \<Rightarrow> uuid \<Rightarrow> string \<Rightarrow> user_daily_usage option" where
  "usage_of d user company date =
     row_by (\<lambda>r. (ud_user_id r, ud_company_id r, ud_date r)) (user, company, date) (db_user_usage d)"

definition upsert_usage :: "uuid \<Rightarrow> string \<Rightarrow> uuid \<Rightarrow> string \<Rightarrow> rat \<Rightarrow> database \<Rightarrow> database" where
  "upsert_usage fresh user company date acu d =
     d\<lparr>db_user_usage :=
        (if usage_of d user company date = None then
           db_user_usage d @ [\<lparr>ud_id = fresh, ud_user_id = user, ud_company_id = company, ud_date = date,
                               ud_acu_used = quantize 4 acu, ud_job_count = 1\<rparr>]
         else
           modify_by (\<lambda>r. (ud_user_id r, ud_company_id r, ud_date r)) (user, company, date)
             (\<lambda>r. r\<lparr>ud_acu_used := quantize 4 (ud_acu_used r + acu), ud_job_count := ud_job_count r + 1\<rparr>)
             (db_user_usage d))\<rparr>"

definition try_reserve_user_quota ::
    "uuid \<Rightarrow> (user_daily_usage \<Rightarrow> user_daily_usage) \<Rightarrow> string \<Rightarrow> uuid \<Rightarrow> string \<Rightarrow> rat \<Rightarrow> pyfloat \<Rightarrow> database \<Rightarrow> bool \<times> database" where
  "try_reserve_user_quota fresh see user company date cost_acu limit d =
     (let d1 = upsert_usage fresh user company date cost_acu d;
          daily_used = (case usage_of d1 user company date of
                          Some r \<Rightarrow> f64 (ud_acu_used (see r)) | None \<Rightarrow> f64 cost_acu)
      in (\<not> limit < daily_used, d1))"

section \<open>Reserving\<close>

datatype attempt = Decided quota_result database | Reserved billing_account database | Retry database | Broken database

definition reserve_attempt ::
    "session \<Rightarrow> uuid \<Rightarrow> micros \<Rightarrow> pyfloat \<Rightarrow> uuid \<Rightarrow> pyfloat \<Rightarrow> string option \<Rightarrow> nat \<Rightarrow> database \<Rightarrow> attempt" where
  \<comment> \<open>the body of the savepoint of one attempt; a retry rolls its own writes back\<close>
  "reserve_attempt s fresh now daily_limit company estimated_cost_usd user_id n d =
     (let cost_acu = acu_of_usd estimated_cost_usd;
          d1 = (if account_of d company = None then get_or_create_account fresh now company ''free'' d else d)
      in case account_of d1 company of
           None \<Rightarrow> Broken d1
         | Some row \<Rightarrow>
             let account = seen s n row in
             case gate account estimated_cost_usd of
               Some r \<Rightarrow> Decided (deny r) d1
             | None \<Rightarrow>
                 let (user_ok, d2) =
                   (if truthy_str user_id
                    then try_reserve_user_quota fresh (seen_usage s n) (the user_id) company (format_date now)
                           cost_acu daily_limit d1
                    else (True, d1))
                 in if \<not> user_ok then Decided (deny (User_daily_limit (the user_id) daily_limit)) d2
                    else
                      let new_reserved = dec28 (ba_reserved_acu account + cost_acu);
                          (hit, d3) = cas_account company (ba_version account)
                                        (\<lambda>a. a\<lparr>ba_reserved_acu := quantize 4 new_reserved\<rparr>) (other s n d2)
                      in if hit then Reserved account d3 else Retry (other s n d))"

definition insert_job_estimate :: "uuid \<Rightarrow> micros \<Rightarrow> uuid \<Rightarrow> uuid \<Rightarrow> pyfloat \<Rightarrow> string \<Rightarrow> database \<Rightarrow> database" where
  "insert_job_estimate fresh now company job est period d =
     d\<lparr>db_job_estimates := insert_unless (\<lambda>e. je_company_id e = company \<and> je_job_id e = Some job)
        \<lparr>je_id = fresh, je_company_id = company, je_job_id = Some job,
         je_text_cost = quantize 6 (repr_dec (fmul est (f64 (2/10)))),
         je_vision_cost = quantize 6 (if f64 (5/1000) < est then repr_dec (fmul est (f64 (1/2))) else 0),
         je_audio_cost = quantize 6 (if f64 (8/1000) < est then repr_dec (fmul est (f64 (3/10))) else 0),
         je_total_cost = quantize 6 (repr_dec est), je_approved = True, je_rejected_reason = None,
         je_billing_period = Some period, je_created_at = now\<rparr>
        (db_job_estimates d)\<rparr>"

definition after_reservation ::
    "uuid \<Rightarrow> micros \<Rightarrow> bool \<Rightarrow> uuid \<Rightarrow> pyfloat \<Rightarrow> uuid \<Rightarrow> string option \<Rightarrow> billing_account \<Rightarrow> quota_state \<Rightarrow>
     (quota_error + quota_result) \<times> quota_state" where
  \<comment> \<open>the code after the savepoint: Redis key, billing period, estimate row. \<open>datetime\<close> is a local
      name of the function, bound only on the branch for a user id\<close>
  "after_reservation fresh now redis_up company estimated_cost_usd job user_id account q =
     (let cost_acu = acu_of_usd estimated_cost_usd;
          q1 = (if redis_up
                then q\<lparr>qs_reservations := (qs_reservations q)((company, job) \<mapsto> (f64 cost_acu, now + seconds 600))\<rparr>
                else q);
          period = (case ba_billing_period_start account of
                      Some t \<Rightarrow> Some (format_month t)
                    | None \<Rightarrow> if truthy_str user_id then Some (format_month now) else None)
      in case period of
           None \<Rightarrow> (Inl Unbound_local_error, q1)
         | Some p \<Rightarrow>
             (Inr \<lparr>allowed = True, reason = Quota_ok, reserved_acu = f64 cost_acu\<rparr>,
              q1\<lparr>qs_db := insert_job_estimate fresh now company job estimated_cost_usd p (qs_db q1)\<rparr>))"

fun reserve_loop ::
    "session \<Rightarrow> uuid \<Rightarrow> micros \<Rightarrow> pyfloat \<Rightarrow> bool \<Rightarrow> uuid \<Rightarrow> pyfloat \<Rightarrow> uuid \<Rightarrow> string option \<Rightarrow> nat list \<Rightarrow>
     quota_state \<Rightarrow> (quota_error + quota_result) \<times> quota_state" where
  "reserve_loop s fresh now limit up company est job user [] q = (Inr (deny Concurrency_limit), q)"
| "reserve_loop s fresh now limit up company est job user (n # ns) q =
     (case reserve_attempt s fresh now limit company est user n (qs_db q) of
        Decided r d \<Rightarrow> (Inr r, q\<lparr>qs_db := d\<rparr>)
      | Broken d \<Rightarrow> (Inl Attribute_error, q\<lparr>qs_db := d\<rparr>)
      | Reserved account d \<Rightarrow> after_reservation fresh now up company est job user account (q\<lparr>qs_db := d\<rparr>)
      | Retry d \<Rightarrow> reserve_loop s fresh now limit up company est job user ns (q\<lparr>qs_db := d\<rparr>))"

definition check_and_reserve ::
    "session \<Rightarrow> uuid \<Rightarrow> micros \<Rightarrow> pyfloat \<Rightarrow> bool \<Rightarrow> uuid \<Rightarrow> pyfloat \<Rightarrow> uuid \<Rightarrow> string option \<Rightarrow> quota_state \<Rightarrow>
     (quota_error + quota_result) \<times> quota_state" where
  "check_and_reserve s fresh now daily_limit redis_up company estimated_cost_usd job user_id q =
     reserve_loop s fresh now daily_limit redis_up company estimated_cost_usd job user_id [0..<max_retries] q"

section \<open>Settling and releasing\<close>

definition minus_clamped :: "rat \<Rightarrow> rat \<Rightarrow> rat" where
  \<comment> \<open>subtraction with the clamp at zero that both routines write out\<close>
  "minus_clamped x delta = (let r = dec28 (x - delta) in if r < 0 then 0 else r)"

datatype loop_end = No_account | Done | Gave_up

fun update_loop ::
    "session \<Rightarrow> uuid \<Rightarrow> (billing_account \<Rightarrow> billing_account \<Rightarrow> billing_account) \<Rightarrow> nat list \<Rightarrow> database \<Rightarrow> loop_end \<times> database" where
  \<comment> \<open>\<open>setv account\<close> is the change of the row with values computed from the account that was read\<close>
  "update_loop s c setv [] d = (Gave_up, d)"
| "update_loop s c setv (n # ns) d =
     (case account_of d c of
        None \<Rightarrow> (No_account, d)
      | Some row \<Rightarrow>
          let account = seen s n row; (hit, d1) = cas_account c (ba_version account) (setv account) (other s n d)
          in if hit then (Done, d1) else update_loop s c setv ns d1)"

definition finalize_values :: "rat \<Rightarrow> rat \<Rightarrow> billing_account \<Rightarrow> billing_account \<Rightarrow> billing_account" where
  "finalize_values actual_acu reserved account a =
     a\<lparr>ba_reserved_acu := quantize 4 (minus_clamped (ba_reserved_acu account) reserved),
       ba_used_acu := quantize 4 (dec28 (ba_used_acu account + actual_acu))\<rparr>"

definition finalize_usage :: "session \<Rightarrow> uuid \<Rightarrow> pyfloat \<Rightarrow> pyfloat \<Rightarrow> database \<Rightarrow> database" where
  "finalize_usage s company actual_cost_usd reserved d =
     snd (update_loop s company (finalize_values (acu_of_usd actual_cost_usd) (repr_dec reserved)) [0..<max_retries] d)"

definition release_values :: "rat \<Rightarrow> billing_account \<Rightarrow> billing_account \<Rightarrow> billing_account" where
  "release_values delta account a =
     a\<lparr>ba_reserved_acu := quantize 4 (minus_clamped (ba_reserved_acu account) delta)\<rparr>"

definition release_reserved :: "session \<Rightarrow> bool \<Rightarrow> uuid \<Rightarrow> pyfloat \<Rightarrow> uuid option \<Rightarrow> quota_state \<Rightarrow> quota_state" where
  "release_reserved s redis_up company reserved job q =
     (case update_loop s company (release_values (repr_dec reserved)) [0..<max_retries] (qs_db q) of
        (No_account, d) \<Rightarrow> q\<lparr>qs_db := d\<rparr>
      | (_, d) \<Rightarrow>
          (case job of
             Some j \<Rightarrow> (if redis_up then q\<lparr>qs_db := d, qs_reservations := (qs_reservations q)((company, j) := None)\<rparr>
                       else q\<lparr>qs_db := d\<rparr>)
           | None \<Rightarrow> q\<lparr>qs_db := d\<rparr>))"

section \<open>Checks that reserve nothing\<close>

definition with_account :: "uuid \<Rightarrow> micros \<Rightarrow> uuid \<Rightarrow> database \<Rightarrow> database" where
  "with_account fresh now company d =
     (if account_of d company = None then get_or_create_account fresh now company ''free'' d else d)"

definition check_quota ::
    "session \<Rightarrow> uuid \<Rightarrow> micros \<Rightarrow> uuid \<Rightarrow> pyfloat \<Rightarrow> database \<Rightarrow> (quota_error + quota_result) \<times> database" where
  "check_quota s fresh now company estimated_cost_usd d =
     (let d1 = with_account fresh now company d in
      case account_of d1 company of
        None \<Rightarrow> (Inl Attribute_error, d1)
      | Some row \<Rightarrow>
          (case gate (seen s 0 row) estimated_cost_usd of
             Some r \<Rightarrow> (Inr (deny r), d1)
           | None \<Rightarrow> (Inr \<lparr>allowed = True, reason = Quota_ok, reserved_acu = f64 (acu_of_usd estimated_cost_usd)\<rparr>, d1)))"

definition spent_today :: "micros \<Rightarrow> uuid \<Rightarrow> database \<Rightarrow> rat" where
  "spent_today now company d =
     sum_list (map ul_cost_usd (filter (\<lambda>r. ul_company_id r = company \<and> midnight now \<le> ul_created_at r) (db_ledger d)))"

definition check_daily_spend ::
    "session \<Rightarrow> uuid \<Rightarrow> micros \<Rightarrow> uuid \<Rightarrow> pyfloat \<Rightarrow> database \<Rightarrow> (quota_error + quota_result) \<times> database" where
  "check_daily_spend s fresh now company estimated_cost_usd d =
     (let d1 = with_account fresh now company d; ok = \<lparr>allowed = True, reason = Quota_ok, reserved_acu = 0\<rparr> in
      case account_of d1 company of
        None \<Rightarrow> (Inl Attribute_error, d1)
      | Some row \<Rightarrow>
          let daily_max = max_daily_cost_usd (tier_of (ba_plan (seen s 0 row)));
              daily_spent = f64 (spent_today now company d1)
          in if daily_max \<le> 0 then (Inr ok, d1)
             else if daily_max < fadd daily_spent estimated_cost_usd
             then (Inr (deny (Daily_spend_limit daily_spent estimated_cost_usd daily_max)), d1)
             else (Inr ok, d1))"

record usage_summary =
  sm_company_id :: uuid
  sm_plan :: string
  sm_quota_total :: pyfloat
  sm_quota_base :: pyfloat
  sm_quota_multiplier :: pyfloat
  sm_quota_used :: pyfloat
  sm_quota_remaining :: pyfloat
  sm_quota_reserved :: pyfloat
  sm_usage_percent :: pyfloat
  sm_ai_disabled :: bool
  sm_reset_at :: "micros option"

definition summary_of :: "uuid \<Rightarrow> billing_account \<Rightarrow> usage_summary" where
  "summary_of company account =
     (let used = f64 (ba_used_acu account); reserved = f64 (ba_reserved_acu account);
          base_total = f64 (ba_monthly_quota_acu account); multiplier = f64 (ba_temp_quota_multiplier account);
          effective_total = fmul base_total multiplier;
          remaining = fsub (fsub effective_total used) reserved;
          usage_pct = (if 0 < effective_total then py_round 1 (fmul (fdiv used effective_total) 100) else 0)
      in \<lparr>sm_company_id = company, sm_plan = ba_plan account, sm_quota_total = effective_total,
          sm_quota_base = base_total, sm_quota_multiplier = multiplier, sm_quota_used = used,
          sm_quota_remaining = max 0 remaining, sm_quota_reserved = reserved, sm_usage_percent = usage_pct,
          sm_ai_disabled = ba_ai_disabled account, sm_reset_at = ba_reset_at account\<rparr>)"

definition get_usage_summary :: "session \<Rightarrow> uuid \<Rightarrow> micros \<Rightarrow> uuid \<Rightarrow> database \<Rightarrow> (quota_error + usage_summary) \<times> database" where
  "get_usage_summary s fresh now company d =
     (let d1 = get_or_create_account fresh now company ''free'' d in
      case account_of d1 company of
        None \<Rightarrow> (Inl Attribute_error, d1)
      | Some row \<Rightarrow> (Inr (summary_of company (seen s 0 row)), d1))"

section \<open>Optimistic updates lose nothing that is versioned\<close>

text \<open>
  The interface of a versioned cell: the compare-and-set writes exactly when the version is the
  expected one. A writer is \<open>polite\<close> if it leaves the version only when it leaves the content.
  Then a value computed from what was read is a value computed from what is overwritten.
\<close>

locale versioned_cell =
  fixes get :: "'s \<Rightarrow> 'a option" and ver :: "'a \<Rightarrow> int"
    and put :: "('a \<Rightarrow> 'a) \<Rightarrow> 's \<Rightarrow> 's" and cas :: "int \<Rightarrow> ('a \<Rightarrow> 'a) \<Rightarrow> 's \<Rightarrow> bool \<times> 's"
  assumes cas_hit: "get s = Some a \<Longrightarrow> ver a = v \<Longrightarrow> cas v f s = (True, put f s)"
    and cas_miss: "(\<And>a. get s = Some a \<Longrightarrow> ver a \<noteq> v) \<Longrightarrow> cas v f s = (False, s)"
begin

lemma cas_cases:
  "(\<exists>a. get s = Some a \<and> ver a = v \<and> cas v f s = (True, put f s)) \<or> cas v f s = (False, s)"
  using cas_hit [of s] cas_miss [of s v f] by blast

lemma hit_iff: "fst (cas v f s) \<longleftrightarrow> (\<exists>a. get s = Some a \<and> ver a = v)"
  using cas_cases [of s v f] cas_hit [of s _ v f] by auto

lemma polite_round:
  assumes polite: "\<And>a a'. get s = Some a \<Longrightarrow> get s' = Some a' \<Longrightarrow> ver a' = ver a \<Longrightarrow> a' = a"
    and "get s = Some a" "cas (ver a) f s' = (True, t)"
  shows "get s' = Some a \<and> t = put f s'"
  using assms cas_cases [of s' "ver a" f] by (metis Pair_inject)

end

lemma cas_account_miss: "(\<And>a. account_of d c = Some a \<Longrightarrow> ba_version a \<noteq> v) \<Longrightarrow> cas_account c v f d = (False, d)"
  by (auto simp: cas_account_def split: option.split)

interpretation acct_cell: versioned_cell "\<lambda>d. account_of d c" ba_version
    "\<lambda>f. change_account c (\<lambda>a. (f a)\<lparr>ba_version := ba_version a + 1\<rparr>)" "cas_account c" for c
  by unfold_locales (simp add: cas_account_def, rule cas_account_miss)

definition fresh_reads :: "session \<Rightarrow> bool" where
  "fresh_reads s \<longleftrightarrow> (\<forall>n a. seen s n a = a) \<and> (\<forall>n r. seen_usage s n r = r)"

definition polite :: "uuid \<Rightarrow> (database \<Rightarrow> database) \<Rightarrow> bool" where
  "polite c g \<longleftrightarrow> (\<forall>d a a'. account_of d c = Some a \<longrightarrow> account_of (g d) c = Some a' \<longrightarrow>
     ba_version a' = ba_version a \<longrightarrow> a' = a)"

definition others :: "session \<Rightarrow> nat \<Rightarrow> database \<Rightarrow> database" where
  \<comment> \<open>the database after what the other transactions commit during the first \<open>k\<close> attempts\<close>
  "others s k d = fold (other s) [0..<k] d"

lemma others_simps [simp]: "others s 0 d = d" "others s (Suc k) d = other s k (others s k d)"
  by (simp_all add: others_def)

text \<open>The loop, when reads are fresh and everybody else bumps the version of what they change.\<close>

definition loop_result ::
    "session \<Rightarrow> uuid \<Rightarrow> (billing_account \<Rightarrow> billing_account \<Rightarrow> billing_account) \<Rightarrow> nat \<Rightarrow> nat \<Rightarrow> database \<Rightarrow> loop_end \<times> database \<Rightarrow> bool" where
  \<comment> \<open>after the attempts from \<open>m\<close> up to \<open>n\<close>\<close>
  "loop_result s c setv m n d r =
     (case r of
        (Done, d') \<Rightarrow> \<exists>k a. k < n \<and> account_of (others s (Suc k) d) c = Some a \<and>
          d' = change_account c (\<lambda>x. (setv a x)\<lparr>ba_version := ba_version x + 1\<rparr>) (others s (Suc k) d)
      | (No_account, d') \<Rightarrow> \<exists>k < n. account_of d' c = None \<and> d' = others s k d
      | (Gave_up, d') \<Rightarrow> d' = others s n d \<and>
          (\<forall>j. m \<le> j \<and> j < n \<longrightarrow> account_of (others s (Suc j) d) c \<noteq> account_of (others s j d) c))"

lemma loop_result_earlier:
  assumes "loop_result s c setv (Suc m) n d r" "account_of (others s (Suc m) d) c \<noteq> account_of (others s m d) c"
  shows "loop_result s c setv m n d r"
proof (cases r)
  case (Pair e d')
  show ?thesis
  proof (cases e)
    case Gave_up
    with assms Pair show ?thesis
      by (simp add: loop_result_def del: others_simps) (metis le_neq_implies_less Suc_leI)
  qed (use assms Pair in \<open>simp_all add: loop_result_def\<close>)
qed

lemma update_loop_result:
  assumes s: "fresh_reads s" "\<And>n. polite c (other s n)" and ns: "ns = [m..<m + length ns]"
  shows "loop_result s c setv m (m + length ns) d (update_loop s c setv ns (others s m d))"
  using ns
proof (induction ns arbitrary: m)
  case Nil
  then show ?case by (auto simp: loop_result_def)
next
  case (Cons n ns)
  from Cons.prems have n: "n = m" and ns: "ns = [Suc m..<Suc m + length ns]"
    by (simp_all add: upt_rec split: if_splits)
  show ?case
  proof (cases "account_of (others s m d) c")
    case None
    then show ?thesis using n by (auto simp: loop_result_def intro!: exI [of _ m])
  next
    case (Some row)
    let ?g = "other s m (others s m d)"
    obtain hit t where h: "cas_account c (ba_version row) (setv row) ?g = (hit, t)" by fastforce
    show ?thesis
    proof (cases hit)
      case True
      with h s(2) [of m] Some have "account_of ?g c = Some row \<and>
          t = change_account c (\<lambda>a. (setv row a)\<lparr>ba_version := ba_version a + 1\<rparr>) ?g"
        by (intro acct_cell.polite_round [of "others s m d"]) (auto simp: polite_def)
      then show ?thesis using Some h True n s(1)
        by (auto simp: loop_result_def fresh_reads_def intro!: exI [of _ m])
    next
      case False
      with h acct_cell.cas_cases [of ?g c "ba_version row" "setv row"] have "t = ?g" by auto
      moreover have "account_of ?g c \<noteq> Some row"
        using h False acct_cell.cas_hit [of ?g c row "ba_version row" "setv row"] by auto
      ultimately show ?thesis using Some h False n s(1) Cons.IH [OF ns]
        by (simp add: fresh_reads_def loop_result_earlier)
    qed
  qed
qed

lemma update_loop_retries:
  assumes "fresh_reads s" "\<And>n. polite c (other s n)"
  shows "loop_result s c setv 0 max_retries d (update_loop s c setv [0..<max_retries] d)"
  using update_loop_result [OF assms, of "[0..<max_retries]" 0 setv d] by simp

text \<open>
  What the version column of \<open>finalize_usage\<close> could promise, under two conditions that the program
  does not keep: every attempt reads the row afresh (the identity map of a session may answer with
  the object it already has) and every other writer bumps the version of an account it changes (the
  credit, debt and reconciliation code does not). Then the change is applied exactly once, to the
  account as the others left it, or, when the account is gone or all three attempts met another
  writer, not at all. \<open>finalize_usage\<close> is exported, but no code of the repository calls it.
\<close>

lemma finalize_loses_nothing:
  assumes "fresh_reads s" "\<And>n. polite c (other s n)"
  shows "\<exists>k \<le> 3. let dk = others s k d; d' = finalize_usage s c actual reserved d in
           d' = dk \<and> (account_of dk c = None \<or>
             k = 3 \<and> (\<forall>j<3. account_of (others s (Suc j) d) c \<noteq> account_of (others s j d) c)) \<or>
           (\<exists>a. account_of dk c = Some a \<and>
             account_of d' c = Some (a\<lparr>ba_reserved_acu := quantize 4 (minus_clamped (ba_reserved_acu a) (repr_dec reserved)),
                ba_used_acu := quantize 4 (dec28 (ba_used_acu a + acu_of_usd actual)), ba_version := ba_version a + 1\<rparr>) \<and>
             (\<forall>c'. c' = c \<or> account_of d' c' = account_of dk c'))"
proof -
  let ?f = "finalize_values (acu_of_usd actual) (repr_dec reserved)"
  have key: "keeps_account_key (\<lambda>x. (?f a x)\<lparr>ba_version := ba_version x + 1\<rparr>)" for a
    by (auto simp: finalize_values_def)
  obtain e d' where r: "update_loop s c ?f [0..<max_retries] d = (e, d')" by fastforce
  with update_loop_retries [OF assms, of ?f d]
  have lr: "loop_result s c ?f 0 3 d (e, d')" by (simp add: max_retries_def)
  have d': "finalize_usage s c actual reserved d = d'" by (simp add: finalize_usage_def r)
  show ?thesis
  proof (cases e)
    case No_account
    with lr show ?thesis unfolding d' by (auto simp: loop_result_def Let_def intro: less_imp_le)
  next
    case Gave_up
    with lr show ?thesis unfolding d' by (auto simp: loop_result_def Let_def intro!: exI [of _ 3])
  next
    case Done
    with lr obtain k a where k: "k < 3" "account_of (others s (Suc k) d) c = Some a"
      "d' = change_account c (\<lambda>x. (?f a x)\<lparr>ba_version := ba_version x + 1\<rparr>) (others s (Suc k) d)"
      by (auto simp: loop_result_def)
    have acc: "account_of d' c' = (if c' = c then Some ((?f a a)\<lparr>ba_version := ba_version a + 1\<rparr>)
        else account_of (others s (Suc k) d) c')" for c'
      unfolding k(3) acct.fetch_change [OF key] using k(2) by (simp del: others_simps)
    show ?thesis unfolding d' Let_def
      by (rule exI [of _ "Suc k"])
         (use k(1,2) acc in \<open>simp add: finalize_values_def del: others_simps\<close>)
  qed
qed

definition quiet :: session where
  \<comment> \<open>fresh reads and no other writer\<close>
  "quiet = \<lparr>seen = (\<lambda>n a. a), seen_usage = (\<lambda>n r. r), other = (\<lambda>n d. d)\<rparr>"

lemma quiet_simps [simp]:
  "fresh_reads quiet" "polite c (other quiet n)" "seen quiet n a = a" "seen_usage quiet n r = r"
  "other quiet n d = d" "others quiet k d = d"
  by (simp_all add: quiet_def fresh_reads_def polite_def) (induction k; simp add: others_def)

definition one_account :: "(billing_account \<Rightarrow> billing_account) \<Rightarrow> database" where
  "one_account f = empty_db\<lparr>db_accounts := [f (default_account 1 7 0)]\<rparr>"

lemma account_of_one_account [simp]:
  "keeps_account_key f \<Longrightarrow> account_of (one_account f) c = (if c = 7 then Some (f (default_account 1 7 0)) else None)"
  by (simp add: one_account_def account_of_def row_by_def keeps_account_key_def default_account_def)

lemma finalize_loses_nothing_sample:
  "map_option ba_used_acu (account_of (finalize_usage quiet 7 0 1 (one_account (\<lambda>a. a\<lparr>ba_used_acu := 10\<rparr>))) 7) = Some 10"
proof -
  have k: "keeps_account_key (\<lambda>a. a\<lparr>ba_used_acu := 10\<rparr>)" by auto
  have d: "dec28 10 = 10" "quantize 4 10 = 10" by (simp_all add: num_eval)
  have "acu_of_usd 0 = 0" by (simp add: acu_of_usd_def repr_dec_def)
  with k d finalize_loses_nothing [of quiet 7 "one_account (\<lambda>a. a\<lparr>ba_used_acu := 10\<rparr>)" 0 1]
  show ?thesis by (auto simp: Let_def)
qed

text \<open>
  The version is what protects: a write that another transaction commits between the read and the
  update without bumping the version (as the credit, debt and reconciliation code does) is
  overwritten. Whatever such a writer \<open>g\<close> did to the account's usage and reservation is gone
  after \<open>finalize_usage\<close>, which stores the values computed from what it had read.
\<close>

theorem unversioned_write_is_lost:
  assumes "account_of d c = Some a" "fresh_reads s" "other s 0 = change_account c g"
    and "\<And>x. ba_company_id (g x) = ba_company_id x" "\<And>x. ba_version (g x) = ba_version x"
  shows "map_option (\<lambda>x. (ba_used_acu x, ba_reserved_acu x)) (account_of (finalize_usage s c actual reserved d) c) =
           Some (quantize 4 (dec28 (ba_used_acu a + acu_of_usd actual)),
                 quantize 4 (minus_clamped (ba_reserved_acu a) (repr_dec reserved)))"
proof -
  have g: "keeps_account_key g" using assms(4) by (rule keeps_account_keyI)
  then have ga: "account_of (change_account c g d) c = Some (g a)"
    using assms(1) by (simp add: acct.fetch_change)
  let ?f = "\<lambda>x. (finalize_values (acu_of_usd actual) (repr_dec reserved) a x)\<lparr>ba_version := ba_version x + 1\<rparr>"
  have key: "keeps_account_key ?f" by (auto simp: finalize_values_def)
  have "update_loop s c (finalize_values (acu_of_usd actual) (repr_dec reserved)) [0..<max_retries] d
      = (Done, change_account c ?f (change_account c g d))"
    using assms ga by (simp add: max_retries_def upt_rec fresh_reads_def cas_account_def)
  then show ?thesis
    by (simp add: finalize_usage_def acct.fetch_change [OF key] ga) (simp add: finalize_values_def)
qed

definition crediting :: session where
  "crediting = quiet\<lparr>other := (\<lambda>n. change_account 7 (\<lambda>a. a\<lparr>ba_used_acu := ba_used_acu a - 4\<rparr>))\<rparr>"

theorem unversioned_write_is_lost_witness:
  "map_option ba_used_acu (account_of (finalize_usage crediting 7 0 0 (one_account (\<lambda>a. a\<lparr>ba_used_acu := 10\<rparr>))) 7) = Some 10"
proof -
  have k: "keeps_account_key (\<lambda>a. a\<lparr>ba_used_acu := 10\<rparr>)" by auto
  have fr: "fresh_reads crediting" by (simp add: crediting_def quiet_def fresh_reads_def)
  have d: "dec28 10 = 10" "quantize 4 10 = 10" by (simp_all add: num_eval)
  have "acu_of_usd 0 = 0" by (simp add: acu_of_usd_def repr_dec_def)
  with unversioned_write_is_lost [of "one_account (\<lambda>a. a\<lparr>ba_used_acu := 10\<rparr>)" 7
      "(default_account 1 7 0)\<lparr>ba_used_acu := 10\<rparr>" crediting "\<lambda>a. a\<lparr>ba_used_acu := ba_used_acu a - 4\<rparr>" 0 0]
  show ?thesis using k fr d by (auto simp: crediting_def)
qed

section \<open>Reservations stay within the quota\<close>

definition account_ok :: "billing_account \<Rightarrow> bool" where
  "account_ok a \<longleftrightarrow> numeric12 4 (ba_monthly_quota_acu a) \<and> numeric12 4 (ba_used_acu a) \<and> numeric12 4 (ba_reserved_acu a)
     \<and> 0 \<le> ba_used_acu a \<and> 0 \<le> ba_reserved_acu a"



lemma available_exact:
  assumes "account_ok a"
  shows "available_acu a = ba_monthly_quota_acu a - ba_used_acu a - ba_reserved_acu a"
proof -
  have g: "on_grid 4 (10 ^ 12 + 10 ^ 12) (ba_monthly_quota_acu a - ba_used_acu a)"
    using assms by (intro on_grid_diff) (simp_all add: account_ok_def)
  then have "on_grid 4 (10 ^ 12 + 10 ^ 12 + 10 ^ 12) (ba_monthly_quota_acu a - ba_used_acu a - ba_reserved_acu a)"
    using assms by (intro on_grid_diff) (simp_all add: account_ok_def)
  with g show ?thesis by (simp add: available_acu_def on_grid_dec28)
qed

lemma gate_None:
  assumes "gate a est = None"
  shows "\<not> ba_ai_disabled a" "repr_dec est \<le> repr_dec (max_cost_per_job (tier_of (ba_plan a)))"
    "acu_of_usd est \<le> available_acu a"
  using assms by (auto simp: gate_def Let_def split: if_splits)

lemma on_grid_between: "0 \<le> quantize s x \<Longrightarrow> quantize s x \<le> y \<Longrightarrow> on_grid s N y \<Longrightarrow> on_grid s N (quantize s x)"
proof -
  assume x: "0 \<le> quantize s x" "quantize s x \<le> y" and "on_grid s N y"
  then obtain z where z: "\<bar>z\<bar> < N" "y = of_int z / 10 powi s" by (auto simp: on_grid_def)
  let ?h = "half_up (x * 10 powi s)"
  have t: "(0::rat) < 10 powi s" by simp
  from x z have "0 \<le> ?h" "?h \<le> z"
    using t by (simp_all add: quantize_def zero_le_divide_iff divide_le_cancel)
  then have "\<bar>?h\<bar> < N" using z by linarith
  then show ?thesis unfolding on_grid_def quantize_def by blast
qed

definition reserve_row :: "rat \<Rightarrow> billing_account \<Rightarrow> billing_account" where
  \<comment> \<open>what a successful reservation of \<open>cost\<close> makes of the account\<close>
  "reserve_row cost a = a\<lparr>ba_reserved_acu := quantize 4 (dec28 (ba_reserved_acu a + cost)), ba_version := ba_version a + 1\<rparr>"

lemma reserve_row_within:
  assumes ok: "account_ok a" and cost: "acu_of_usd est \<le> available_acu a"
  shows "ba_used_acu a + ba_reserved_acu (reserve_row (acu_of_usd est) a) \<le> ba_monthly_quota_acu a"
    and "0 \<le> acu_of_usd est \<Longrightarrow> account_ok (reserve_row (acu_of_usd est) a)"
proof -
  let ?free = "ba_monthly_quota_acu a - ba_used_acu a" and ?r = "ba_reserved_acu a" and ?c = "acu_of_usd est"
  have g: "on_grid 4 (10 ^ 12 + 10 ^ 12) ?free"
    using ok by (intro on_grid_diff) (simp_all add: account_ok_def)
  have "?r + ?c \<le> ?free" using cost available_exact [OF ok] by simp
  then have "dec28 (?r + ?c) \<le> dec28 ?free" by (rule dec28_mono)
  then have "quantize 4 (dec28 (?r + ?c)) \<le> quantize 4 (dec28 ?free)" by (rule quantize_mono)
  also have "\<dots> = ?free" using g by (simp add: on_grid_dec28 on_grid_quantize)
  finally show within: "ba_used_acu a + ba_reserved_acu (reserve_row ?c a) \<le> ba_monthly_quota_acu a"
    by (simp add: reserve_row_def)
  assume "0 \<le> ?c"
  then have nn: "0 \<le> quantize 4 (dec28 (?r + ?c))" using ok by (simp add: account_ok_def)
  have "quantize 4 (dec28 (?r + ?c)) \<le> ba_monthly_quota_acu a"
    using within ok by (simp add: reserve_row_def account_ok_def)
  from on_grid_between [OF nn this] ok nn show "account_ok (reserve_row ?c a)"
    by (simp add: reserve_row_def account_ok_def)
qed

lemma account_of_upsert [simp]: "account_of (upsert_usage fresh u c date acu d) c' = account_of d c'"
  by (simp add: upsert_usage_def account_of_def)

lemma account_of_insert_estimate [simp]: "account_of (insert_job_estimate i now c j est p d) c' = account_of d c'"
  by (simp add: insert_job_estimate_def account_of_def)

lemma reserve_attempt_Reserved:
  assumes "reserve_attempt s fresh now limit c est user n d = Reserved account d3"
    and s: "fresh_reads s" "polite c (other s n)"
  shows "gate account est = None \<and> account_of d3 c = Some (reserve_row (acu_of_usd est) account)"
proof -
  let ?d1 = "if account_of d c = None then get_or_create_account fresh now c ''free'' d else d"
  obtain row where row: "account_of ?d1 c = Some row"
    using assms(1) by (cases "account_of ?d1 c") (auto simp: reserve_attempt_def Let_def)
  have gate: "gate row est = None"
    using assms row by (cases "gate row est") (auto simp: reserve_attempt_def Let_def fresh_reads_def)
  obtain ok d2 where u: "(if truthy_str user
       then try_reserve_user_quota fresh (seen_usage s n) (the user) c (format_date now) (acu_of_usd est) limit ?d1
       else (True, ?d1)) = (ok, d2)" by fastforce
  have a2: "account_of d2 c = Some row"
    using u row by (auto simp: try_reserve_user_quota_def Let_def split: if_splits)
  let ?f = "\<lambda>a. a\<lparr>ba_reserved_acu := quantize 4 (dec28 (ba_reserved_acu row + acu_of_usd est))\<rparr>"
  obtain hit t where h: "cas_account c (ba_version row) ?f (other s n d2) = (hit, t)" by fastforce
  have "account = row \<and> d3 = t \<and> hit"
    using assms(1) s row gate u h by (auto simp: reserve_attempt_def Let_def fresh_reads_def split: if_splits)
  moreover from this h have "cas_account c (ba_version row) ?f (other s n d2) = (True, t)" by simp
  with a2 s(2) have "account_of (other s n d2) c = Some row \<and>
      t = change_account c (\<lambda>a. (?f a)\<lparr>ba_version := ba_version a + 1\<rparr>) (other s n d2)"
    by (intro acct_cell.polite_round [of d2]) (auto simp: polite_def)
  moreover have "keeps_account_key (\<lambda>a. (?f a)\<lparr>ba_version := ba_version a + 1\<rparr>)" by auto
  ultimately show ?thesis using gate by (simp add: acct.fetch_same reserve_row_def)
qed

lemma reserve_loop_result:
  assumes "fresh_reads s" "\<And>n. polite c (other s n)"
    and "reserve_loop s fresh now limit up c est job user ns q = (res, q')"
    and "\<And>r. res = Inr r \<Longrightarrow> allowed r" "res \<noteq> Inl Attribute_error"
  shows "\<exists>a. gate a est = None \<and> account_of (qs_db q') c = Some (reserve_row (acu_of_usd est) a) \<and>
           (res = Inl Unbound_local_error \<or> res = Inr \<lparr>allowed = True, reason = Quota_ok, reserved_acu = f64 (acu_of_usd est)\<rparr>)"
  using assms(3)
proof (induction ns arbitrary: q)
  case Nil
  then show ?case using assms(4) by fastforce
next
  case (Cons n ns)
  show ?case
  proof (cases "reserve_attempt s fresh now limit c est user n (qs_db q)")
    case (Decided r d)
    have "\<not> allowed r"
      using Decided by (auto simp: reserve_attempt_def Let_def split: option.splits prod.splits if_splits)
    then show ?thesis using Decided Cons.prems assms(4) by auto
  next
    case (Reserved account d)
    with reserve_attempt_Reserved [OF Reserved assms(1) assms(2)]
    have a: "gate account est = None" "account_of d c = Some (reserve_row (acu_of_usd est) account)" by auto
    have "account_of (qs_db q') c = account_of d c \<and>
        (res = Inl Unbound_local_error \<or> res = Inr \<lparr>allowed = True, reason = Quota_ok, reserved_acu = f64 (acu_of_usd est)\<rparr>)"
      using Cons.prems Reserved by (auto simp: after_reservation_def Let_def split: option.splits if_splits)
    with a show ?thesis by auto
  next
    case (Retry d)
    with Cons show ?thesis by simp
  next
    case (Broken d)
    then show ?thesis using Cons.prems assms(5) by auto
  qed
qed

text \<open>
  C2. No overbooking: when \<open>check_and_reserve\<close> answers that a job may run, then (with fresh reads and
  other writers that bump the version) the account was enabled, the cost is within the plan's
  limit per job, and the reservation was added to the account as it was at that moment, in such
  a way that usage plus reservations stay within the monthly quota, however many concurrent
  writers interfered; the account stays well-formed.
\<close>

theorem reserve_within_quota:
  assumes "fresh_reads s" "\<And>n. polite c (other s n)"
    and "check_and_reserve s fresh now limit up c est job user q = (Inr r, q')" "allowed r"
  shows "\<exists>a. account_of (qs_db q') c = Some (reserve_row (acu_of_usd est) a) \<and>
           \<not> ba_ai_disabled a \<and> repr_dec est \<le> repr_dec (max_cost_per_job (tier_of (ba_plan a))) \<and>
           reserved_acu r = f64 (acu_of_usd est) \<and>
           (account_ok a \<longrightarrow>
              ba_used_acu a + ba_reserved_acu (reserve_row (acu_of_usd est) a) \<le> ba_monthly_quota_acu a \<and>
              (0 \<le> acu_of_usd est \<longrightarrow> account_ok (reserve_row (acu_of_usd est) a)))"
proof -
  from reserve_loop_result [OF assms(1,2) assms(3) [unfolded check_and_reserve_def]] assms(4)
  obtain a where "gate a est = None" "account_of (qs_db q') c = Some (reserve_row (acu_of_usd est) a)"
    "reserved_acu r = f64 (acu_of_usd est)" by auto
  then show ?thesis by (metis gate_None reserve_row_within)
qed

section \<open>Without other writers: the outcome of a call\<close>

lemma account_of_create:
  "account_of (get_or_create_account fresh now c plan d) c' =
     (if c' = c \<and> account_of d c = None
      then Some ((default_account fresh c now)
          \<lparr>ba_plan := plan, ba_monthly_quota_acu := quantize 4 (repr_dec (quota_acu (tier_of plan))),
           ba_used_acu := 0, ba_reserved_acu := 0, ba_billing_period_start := Some now,
           ba_billing_period_end := Some (now + hours 720), ba_reset_at := Some (now + hours 720),
           ba_temp_quota_multiplier := 1\<rparr>)
      else account_of d c')"
proof -
  have "list_ex (\<lambda>a. ba_company_id a = c) (db_accounts d) \<longleftrightarrow> account_of d c \<noteq> None"
    by (auto simp: account_of_def row_by_None list_ex_iff)
  then show ?thesis
    by (auto simp: get_or_create_account_def insert_unless_def account_of_def row_by_append row_by_Cons
        default_account_def split: option.splits)
qed

lemma with_account_Some: "account_of (with_account fresh now c d) c \<noteq> None"
  by (simp add: with_account_def account_of_create)

lemma with_account_ident: "account_of d c \<noteq> None \<Longrightarrow> with_account fresh now c d = d"
  by (metis with_account_def)

lemma reserve_quiet:
  assumes "account_of (with_account fresh now c (qs_db q)) c = Some a"
  shows "check_and_reserve quiet fresh now limit up c est job user q =
    (case gate a est of
       Some r \<Rightarrow> (Inr (deny r), q\<lparr>qs_db := with_account fresh now c (qs_db q)\<rparr>)
     | None \<Rightarrow>
         let (user_ok, d2) = (if truthy_str user
               then try_reserve_user_quota fresh (\<lambda>r. r) (the user) c (format_date now) (acu_of_usd est) limit
                      (with_account fresh now c (qs_db q))
               else (True, with_account fresh now c (qs_db q)))
         in if \<not> user_ok then (Inr (deny (User_daily_limit (the user) limit)), q\<lparr>qs_db := d2\<rparr>)
            else after_reservation fresh now up c est job user a
                   (q\<lparr>qs_db := change_account c (\<lambda>x. (x\<lparr>ba_reserved_acu :=
                       quantize 4 (dec28 (ba_reserved_acu a + acu_of_usd est))\<rparr>)\<lparr>ba_version := ba_version x + 1\<rparr>) d2\<rparr>))"
proof -
  let ?d1 = "with_account fresh now c (qs_db q)"
  obtain ok d2 where u: "(if truthy_str user
       then try_reserve_user_quota fresh (\<lambda>r. r) (the user) c (format_date now) (acu_of_usd est) limit ?d1
       else (True, ?d1)) = (ok, d2)" by fastforce
  have a2: "account_of d2 c = Some a"
    using u assms by (auto simp: try_reserve_user_quota_def Let_def split: if_splits)
  have see: "seen_usage quiet 0 = (\<lambda>r. r)" by (simp add: quiet_def)
  let ?f = "\<lambda>x. x\<lparr>ba_reserved_acu := quantize 4 (dec28 (ba_reserved_acu a + acu_of_usd est))\<rparr>"
  have cas: "cas_account c (ba_version a) ?f d2 = (True, change_account c (\<lambda>x. (?f x)\<lparr>ba_version := ba_version x + 1\<rparr>) d2)"
    using a2 by (rule acct_cell.cas_hit) simp
  have att: "reserve_attempt quiet fresh now limit c est user 0 (qs_db q) =
      (case gate a est of Some r \<Rightarrow> Decided (deny r) ?d1
       | None \<Rightarrow> if \<not> ok then Decided (deny (User_daily_limit (the user) limit)) d2
                else Reserved a (change_account c (\<lambda>x. (?f x)\<lparr>ba_version := ba_version x + 1\<rparr>) d2))"
    using assms u by (cases "truthy_str user")
      (simp_all add: reserve_attempt_def Let_def see cas flip: with_account_def split: option.split)
  show ?thesis
    using u by (cases "truthy_str user")
      (simp_all add: check_and_reserve_def max_retries_def upt_rec att split: option.split)
qed

text \<open>
  What a refusal leaves behind (no other writer): the account is as it was (or newly
  created), nothing is reserved in Redis and no estimate is recorded; but a refusal for the
  user's daily limit still counts the refused job in the user's daily usage.
\<close>

theorem denied_reserves_nothing:
  assumes "check_and_reserve quiet fresh now limit up c est job user q = (Inr r, q')" "\<not> allowed r"
  shows "account_of (qs_db q') = account_of (with_account fresh now c (qs_db q)) \<and>
         qs_reservations q' = qs_reservations q \<and> db_job_estimates (qs_db q') = db_job_estimates (qs_db q) \<and>
         (case reason r of
            User_daily_limit u l \<Rightarrow> db_user_usage (qs_db q') =
              db_user_usage (upsert_usage fresh (the user) c (format_date now) (acu_of_usd est) (qs_db q))
          | _ \<Rightarrow> db_user_usage (qs_db q') = db_user_usage (qs_db q))"
proof -
  obtain a where a: "account_of (with_account fresh now c (qs_db q)) c = Some a"
    using with_account_Some by fastforce
  have same: "db_user_usage (with_account fresh now c d) = db_user_usage d"
      "db_job_estimates (with_account fresh now c d) = db_job_estimates d"
      "usage_of (with_account fresh now c d) = usage_of d" for d
    by (auto simp: with_account_def get_or_create_account_def usage_of_def fun_eq_iff)
  show ?thesis
  proof (cases "gate a est")
    case (Some g)
    then have "r = deny g" "q' = q\<lparr>qs_db := with_account fresh now c (qs_db q)\<rparr>"
      using assms(1) by (auto simp: reserve_quiet [OF a])
    moreover have "g \<noteq> User_daily_limit u l" for u l
      using Some by (auto simp: gate_def Let_def split: if_splits)
    ultimately show ?thesis by (simp add: same split: quota_reason.split)
  next
    case None
    have ar: "allowed r" if "after_reservation fresh now up c est job user a x = (Inr r, q')" for x
      using that by (auto simp: after_reservation_def Let_def split: option.splits if_splits)
    show ?thesis
      using assms None ar
      by (auto simp: reserve_quiet [OF a] try_reserve_user_quota_def Let_def upsert_usage_def same fun_eq_iff
          account_of_def split: if_splits)
  qed
qed

lemma quiet_period:
  assumes "account_of d c = Some a" "ba_billing_period_start a = Some t" "\<not> truthy_str user" "qs_db q = d"
  shows "check_and_reserve quiet fresh now limit up c est job user q =
    (case gate a est of
       Some r \<Rightarrow> (Inr (deny r), q)
     | None \<Rightarrow> after_reservation fresh now up c est job user a
                   (q\<lparr>qs_db := change_account c (\<lambda>x. (x\<lparr>ba_reserved_acu :=
                       quantize 4 (dec28 (ba_reserved_acu a + acu_of_usd est))\<rparr>)\<lparr>ba_version := ba_version x + 1\<rparr>) d\<rparr>))"
proof -
  have w: "with_account fresh now c d = d" using assms(1) by (simp add: with_account_ident)
  then have "account_of (with_account fresh now c (qs_db q)) c = Some a" using assms by simp
  from reserve_quiet [OF this, of limit up est job user] show ?thesis
    using assms(3,4) w by (simp add: Let_def split: option.split)
qed

text \<open>
  C36. The read-only check tells the truth: for an account that exists and has a billing period, and
  with no other writer, \<open>check_quota\<close> returns exactly what \<open>check_and_reserve\<close> (without a user)
  returns, the reason and the amount included, and changes nothing.
\<close>

theorem check_quota_agrees:
  assumes "account_of (qs_db q) c = Some a" "ba_billing_period_start a \<noteq> None" "\<not> truthy_str user"
  shows "check_quota quiet fresh now c est (qs_db q) =
           (fst (check_and_reserve quiet fresh now limit up c est job user q), qs_db q)"
proof -
  obtain t where t: "ba_billing_period_start a = Some t" using assms(2) by auto
  have w: "with_account fresh now c (qs_db q) = qs_db q" using assms(1) by (simp add: with_account_ident)
  show ?thesis using t assms(1)
    unfolding quiet_period [OF assms(1) t assms(3) refl] check_quota_def Let_def w
    by (simp add: after_reservation_def Let_def split: option.split)
qed

definition enterprise_account :: "billing_account \<Rightarrow> billing_account" where
  "enterprise_account a = a\<lparr>ba_plan := ''enterprise'', ba_monthly_quota_acu := 10000, ba_billing_period_start := Some 0\<rparr>"

lemma keeps_enterprise [simp]: "keeps_account_key enterprise_account"
  by (auto simp: enterprise_account_def)

definition enterprise_state :: quota_state where
  "enterprise_state = \<lparr>qs_db = one_account enterprise_account, qs_reservations = (\<lambda>_. None)\<rparr>"

theorem check_quota_agrees_witness:
  "fst (check_quota quiet 9 5 7 (f64 (1/4)) (one_account enterprise_account)) =
   fst (check_and_reserve quiet 9 5 50 True 7 (f64 (1/4)) 3 None enterprise_state)"
  using check_quota_agrees [of enterprise_state 7 "enterprise_account (default_account 1 7 0)" None 9 5 "f64 (1/4)" 50 True 3]
  by (simp add: enterprise_state_def) (simp add: enterprise_account_def)

text \<open>
  A path that crashes after it has reserved: with no user id and an account without a billing
  period start, an accepted call raises \<open>UnboundLocalError\<close> (the import of \<open>datetime\<close> on the
  branch for a user makes the name local to the whole function), with the reservation already
  added to the account and the Redis key already written.
\<close>

theorem reserve_without_period_raises:
  assumes "account_of (qs_db q) c = Some a" "gate a est = None"
    and "ba_billing_period_start a = None" "\<not> truthy_str user"
  shows "case check_and_reserve quiet fresh now limit True c est job user q of (r, q') \<Rightarrow>
           r = Inl Unbound_local_error \<and> account_of (qs_db q') c = Some (reserve_row (acu_of_usd est) a) \<and>
           qs_reservations q' (c, job) = Some (f64 (acu_of_usd est), now + seconds 600)"
proof -
  let ?f = "\<lambda>x. x\<lparr>ba_reserved_acu := quantize 4 (dec28 (ba_reserved_acu a + acu_of_usd est)), ba_version := ba_version x + 1\<rparr>"
  have w: "with_account fresh now c (qs_db q) = qs_db q" using assms(1) by (simp add: with_account_ident)
  have key: "keeps_account_key ?f" by auto
  have "account_of (with_account fresh now c (qs_db q)) c = Some a" using w assms(1) by simp
  from reserve_quiet [OF this, of limit True est job user] show ?thesis
    using assms w by (simp add: Let_def after_reservation_def acct.fetch_same [OF key] reserve_row_def)
qed

lemma acu_of_usd_decimal:
  assumes "\<bar>m\<bar> < 10 ^ 15"
  shows "acu_of_usd (f64 (of_int m / 10 powi k)) = of_int m / 10 powi (k - 2)"
proof -
  have "repr_dec ACU_TO_USD = 1 / 100"
    using repr_dec_of_decimal [of 1 2] by (simp add: ACU_TO_USD_def)
  moreover have "(of_int m / 10 powi k) / (1 / 100) = (of_int m / 10 powi (k - 2) :: rat)"
    by (simp add: power_int_diff)
  moreover have "dec28 (of_int m / 10 powi (k - 2)) = of_int m / 10 powi (k - 2)"
    using assms by (intro rnd_exact [where m = m and k = "2 - k"]) (simp_all add: power_int_diff)
  ultimately show ?thesis by (simp only: acu_of_usd_def repr_dec_of_decimal [OF assms])
qed

theorem reserve_without_period_raises_witness:
  "fst (check_and_reserve quiet 9 5 50 True 7 (f64 (1/100)) 3 None
     \<lparr>qs_db = one_account (\<lambda>a. a\<lparr>ba_plan := ''enterprise''\<rparr>), qs_reservations = (\<lambda>_. None)\<rparr>) = Inl Unbound_local_error"
proof -
  let ?a = "(default_account 1 7 0)\<lparr>ba_plan := ''enterprise''\<rparr>"
  have cost: "acu_of_usd (f64 (1/100)) = 1" using acu_of_usd_decimal [of 1 2] by simp
  have max: "repr_dec (f64 (1/100)) = 1 / 100" "repr_dec (f64 (1/2)) = 1 / 2"
    using repr_dec_of_decimal [of 1 2] repr_dec_of_decimal [of 5 1] by simp_all
  have "available_acu ?a = 15"
    by (subst available_exact) (auto simp: account_ok_def default_account_def on_grid_def intro!: exI [of _ 150000] exI [of _ 0])
  then have g: "gate ?a (f64 (1/100)) = None"
    using cost max by (simp add: gate_def Let_def tier_of_def PLAN_TIERS_def default_account_def)
  have k: "keeps_account_key (\<lambda>a. a\<lparr>ba_plan := ''enterprise''\<rparr>)" by auto
  show ?thesis
    using reserve_without_period_raises [where q = "\<lparr>qs_db = one_account (\<lambda>a. a\<lparr>ba_plan := ''enterprise''\<rparr>), qs_reservations = (\<lambda>_. None)\<rparr>"
        and c = 7 and a = ?a and est = "f64 (1/100)" and user = None and fresh = 9 and now = 5 and limit = 50 and job = 3] g k
    by (simp add: case_prod_beta) (simp add: default_account_def)
qed

lemma reserve_quiet_allowed:
  assumes a: "account_of (qs_db q) c = Some a"
    and r: "check_and_reserve quiet fresh now limit up c est job user q = (Inr r, q')" "allowed r"
  shows "gate a est = None \<and> account_of (qs_db q') c = Some (reserve_row (acu_of_usd est) a) \<and>
         reserved_acu r = f64 (acu_of_usd est)"
proof -
  let ?f = "\<lambda>x. x\<lparr>ba_reserved_acu := quantize 4 (dec28 (ba_reserved_acu a + acu_of_usd est)), ba_version := ba_version x + 1\<rparr>"
  have w: "account_of (with_account fresh now c (qs_db q)) c = Some a" using a by (simp add: with_account_ident)
  have g: "gate a est = None" using r by (cases "gate a est") (auto simp: reserve_quiet [OF w])
  have key: "keeps_account_key ?f" by auto
  obtain ok d2 where u: "(if truthy_str user
       then try_reserve_user_quota fresh (\<lambda>r. r) (the user) c (format_date now) (acu_of_usd est) limit
              (with_account fresh now c (qs_db q))
       else (True, with_account fresh now c (qs_db q))) = (ok, d2)" by fastforce
  have a2: "account_of d2 c = Some a"
    using u w by (auto simp: try_reserve_user_quota_def Let_def split: if_splits)
  have "after_reservation fresh now up c est job user a (q\<lparr>qs_db := change_account c ?f d2\<rparr>) = (Inr r, q')"
    using r u g by (auto simp: reserve_quiet [OF w] Let_def split: if_splits)
  then have "account_of (qs_db q') c = account_of (change_account c ?f d2) c \<and> reserved_acu r = f64 (acu_of_usd est)"
    by (auto simp: after_reservation_def Let_def split: option.splits if_splits)
  then show ?thesis using g a2 by (simp add: acct.fetch_same [OF key] reserve_row_def)
qed

lemma update_loop_quiet:
  assumes "account_of d c = Some x"
  shows "update_loop quiet c setv [0..<max_retries] d =
    (Done, change_account c (\<lambda>y. (setv x y)\<lparr>ba_version := ba_version y + 1\<rparr>) d)"
proof -
  have "cas_account c (ba_version x) (setv x) d = (True, change_account c (\<lambda>y. (setv x y)\<lparr>ba_version := ba_version y + 1\<rparr>) d)"
    using assms by (rule acct_cell.cas_hit) simp
  then show ?thesis using assms by (simp add: max_retries_def upt_rec)
qed

lemma release_quiet:
  assumes "account_of (qs_db q) c = Some x"
  shows "account_of (qs_db (release_reserved quiet up c amount j q)) c =
           Some (x\<lparr>ba_reserved_acu := quantize 4 (minus_clamped (ba_reserved_acu x) (repr_dec amount)),
                   ba_version := ba_version x + 1\<rparr>)"
    and "qs_reservations (release_reserved quiet True c amount (Some k) q) (c, k) = None"
proof -
  let ?f = "\<lambda>y. (release_values (repr_dec amount) x y)\<lparr>ba_version := ba_version y + 1\<rparr>"
  have key: "keeps_account_key ?f" by (auto simp: release_values_def)
  note u = update_loop_quiet [OF assms, of "release_values (repr_dec amount)"]
  show "account_of (qs_db (release_reserved quiet up c amount j q)) c =
           Some (x\<lparr>ba_reserved_acu := quantize 4 (minus_clamped (ba_reserved_acu x) (repr_dec amount)),
                   ba_version := ba_version x + 1\<rparr>)"
    using assms by (cases j; cases up) (simp_all add: release_reserved_def u acct.fetch_same [OF key], simp_all add: release_values_def)
  show "qs_reservations (release_reserved quiet True c amount (Some k) q) (c, k) = None"
    by (simp add: release_reserved_def u)
qed

text \<open>
  Reserve, then release, is the identity on the account's balance: with no other writer, for a
  cost whose ACU amount is a number of at most 15 digits on the column's grid, releasing the amount
  that the reservation answered puts the reserved balance back where it was and removes the
  Redis key, although the amount travels through a float in between.
\<close>

theorem reserve_release_roundtrip:
  assumes a: "account_of (qs_db q) c = Some a" "account_ok a"
    and r: "check_and_reserve quiet fresh now limit up c est job None q = (Inr r, q')" "allowed r"
    and cost: "acu_of_usd est = of_int m / 10 powi 4" "0 \<le> m" "m < 10 ^ 15"
  shows "\<exists>a'. account_of (qs_db (release_reserved quiet True c (reserved_acu r) (Some job) q')) c = Some a' \<and>
           ba_reserved_acu a' = ba_reserved_acu a \<and> ba_used_acu a' = ba_used_acu a \<and>
           ba_version a' = ba_version a + 2 \<and>
           qs_reservations (release_reserved quiet True c (reserved_acu r) (Some job) q') (c, job) = None"
proof -
  let ?c = "acu_of_usd est"
  from reserve_quiet_allowed [OF a(1) r]
  have b: "account_of (qs_db q') c = Some (reserve_row ?c a)" "reserved_acu r = f64 ?c" by auto
  have bk: "repr_dec (f64 ?c) = ?c" unfolding cost(1) using cost(2,3) by (intro repr_dec_of_decimal) simp
  have c: "on_grid 4 (10 ^ 15) ?c" unfolding cost(1) using cost(2,3) by (auto simp: on_grid_def)
  have res: "numeric12 4 (ba_reserved_acu a)" "0 \<le> ba_reserved_acu a" using a(2) by (simp_all add: account_ok_def)
  have sum: "on_grid 4 (10 ^ 12 + 10 ^ 15) (ba_reserved_acu a + ?c)" using res c by (intro on_grid_add)
  then have "quantize 4 (dec28 (ba_reserved_acu a + ?c)) = ba_reserved_acu a + ?c"
    by (simp add: on_grid_dec28 on_grid_quantize)
  then have "quantize 4 (minus_clamped (ba_reserved_acu (reserve_row ?c a)) ?c) = ba_reserved_acu a"
    using res by (simp add: reserve_row_def minus_clamped_def Let_def on_grid_dec28 on_grid_quantize)
  then show ?thesis
    using release_quiet(1) [OF b(1), of True "reserved_acu r" "Some job"] release_quiet(2) [OF b(1), of "reserved_acu r" job] b(2) bk by (simp add: reserve_row_def)
qed

lemma enterprise_ok: "account_ok (enterprise_account (default_account 1 7 0))"
  by (auto simp: account_ok_def default_account_def enterprise_account_def on_grid_def
      intro!: exI [of _ 100000000] exI [of _ 0])

lemma enterprise_cost: "acu_of_usd (f64 (1/4)) = 25"
  using acu_of_usd_decimal [of 25 2] by simp

lemma enterprise_of_state: "account_of (qs_db enterprise_state) 7 = Some (enterprise_account (default_account 1 7 0))"
  by (simp add: enterprise_state_def)

lemma enterprise_reserves:
  "\<exists>q'. check_and_reserve quiet 9 5 50 True 7 (f64 (1/4)) 3 None enterprise_state =
      (Inr \<lparr>allowed = True, reason = Quota_ok, reserved_acu = f64 25\<rparr>, q')"
proof -
  let ?a = "enterprise_account (default_account 1 7 0)"
  have max: "repr_dec (f64 (1/4)) = 1 / 4" "repr_dec (f64 (1/2)) = 1 / 2"
    using repr_dec_of_decimal [of 25 2] repr_dec_of_decimal [of 5 1] by simp_all
  have "available_acu ?a = 10000"
    using available_exact [OF enterprise_ok] by (simp add: default_account_def enterprise_account_def)
  then have g: "gate ?a (f64 (1/4)) = None"
    using enterprise_cost max
    by (simp add: gate_def Let_def tier_of_def PLAN_TIERS_def default_account_def enterprise_account_def)
  have per: "ba_billing_period_start ?a = Some 0" by (simp add: enterprise_account_def)
  show ?thesis
    using quiet_period [OF enterprise_of_state per, of None enterprise_state 9 5 50 True "f64 (1/4)" 3] g enterprise_cost per
    by (auto simp: after_reservation_def Let_def)
qed

theorem reserve_release_roundtrip_witness:
  "\<exists>q'. snd (check_and_reserve quiet 9 5 50 True 7 (f64 (1/4)) 3 None enterprise_state) = q' \<and>
     map_option ba_reserved_acu (account_of (qs_db (release_reserved quiet True 7 (f64 25) (Some 3) q')) 7) = Some 0"
proof -
  obtain q' where r: "check_and_reserve quiet 9 5 50 True 7 (f64 (1/4)) 3 None enterprise_state =
      (Inr \<lparr>allowed = True, reason = Quota_ok, reserved_acu = f64 25\<rparr>, q')"
    using enterprise_reserves by blast
  from reserve_release_roundtrip [OF enterprise_of_state enterprise_ok r, of 250000] enterprise_cost
  have "\<exists>a'. account_of (qs_db (release_reserved quiet True 7 (f64 25) (Some 3) q')) 7 = Some a' \<and>
      ba_reserved_acu a' = ba_reserved_acu (enterprise_account (default_account 1 7 0))"
    by auto
  then show ?thesis using r by (auto simp: default_account_def enterprise_account_def)
qed

theorem reserve_within_quota_witness:
  "\<exists>q' a. check_and_reserve quiet 9 5 50 True 7 (f64 (1/4)) 3 None enterprise_state =
      (Inr \<lparr>allowed = True, reason = Quota_ok, reserved_acu = f64 25\<rparr>, q') \<and>
      account_of (qs_db q') 7 = Some (reserve_row 25 a) \<and> \<not> ba_ai_disabled a"
proof -
  obtain q' where r: "check_and_reserve quiet 9 5 50 True 7 (f64 (1/4)) 3 None enterprise_state =
      (Inr \<lparr>allowed = True, reason = Quota_ok, reserved_acu = f64 25\<rparr>, q')"
    using enterprise_reserves by blast
  from reserve_within_quota [OF _ _ this] show ?thesis using r enterprise_cost by auto
qed

section \<open>Plans and estimates together\<close>

text \<open>
  A free plan never runs a job with an image: the estimate of any job with at least one image is
  above the free tier's limit per job, so that \<open>check_and_reserve\<close> refuses it, whatever the
  quota, the user and the other writers, and reserves nothing.
\<close>

theorem free_plan_refuses_images:
  assumes "fresh_reads s" "account_of (qs_db q) c = Some a" "tier_of (ba_plan a) = free_tier" "1 \<le> n"
  shows "let est = total_cost (estimate_job_cost n audio tokens) in
         check_and_reserve s fresh now limit up c est job user q =
           (Inr (deny (if ba_ai_disabled a then AI_disabled else Cost_exceeds_tier_limit est (max_cost_per_job free_tier))), q)"
proof -
  let ?est = "total_cost (estimate_job_cost n audio tokens)"
  have m: "max_cost_per_job free_tier = f64 (1/100)" by (simp add: free_tier_def)
  have "repr_dec (f64 (1/100)) < repr_dec ?est"
    using image_job_cost [OF assms(4), of audio tokens] repr_dec_mono [of ?est "f64 (1/100)"] is_f64_total_cost [of n audio tokens]
    by (simp flip: not_le)
  then have g: "gate a ?est = Some (if ba_ai_disabled a then AI_disabled
      else Cost_exceeds_tier_limit ?est (max_cost_per_job free_tier))"
    using assms(3) m by (simp add: gate_def Let_def)
  have "reserve_attempt s fresh now limit c ?est user 0 (qs_db q) = Decided (deny (if ba_ai_disabled a then AI_disabled
      else Cost_exceeds_tier_limit ?est (max_cost_per_job free_tier))) (qs_db q)"
    using assms(1,2) g by (simp add: reserve_attempt_def Let_def fresh_reads_def)
  then show ?thesis by (simp add: check_and_reserve_def max_retries_def upt_rec Let_def)
qed

theorem free_plan_refuses_images_witness:
  "allowed (projr (fst (check_and_reserve quiet 9 5 50 True 7 (total_cost (estimate_job_cost 1 False 0)) 3 (Some ''user_1'')
     \<lparr>qs_db = one_account id, qs_reservations = (\<lambda>_. None)\<rparr>))) = False"
proof -
  have "keeps_account_key id" by auto
  then show ?thesis
    using free_plan_refuses_images [of quiet "\<lparr>qs_db = one_account id, qs_reservations = (\<lambda>_. None)\<rparr>" 7 "default_account 1 7 0" 1 False 0 9 5 50 True 3 "Some ''user_1''"]
    by (simp add: Let_def default_account_def)
qed

theorem denied_reserves_nothing_witness:
  "qs_reservations (snd (check_and_reserve quiet 9 5 50 True 7 (f64 (1/4)) 3 None
     \<lparr>qs_db = one_account (\<lambda>a. a\<lparr>ba_ai_disabled := True\<rparr>), qs_reservations = (\<lambda>_. None)\<rparr>)) (7, 3) = None"
proof -
  let ?q = "\<lparr>qs_db = one_account (\<lambda>a. a\<lparr>ba_ai_disabled := True\<rparr>), qs_reservations = (\<lambda>_. None)\<rparr>"
  have k: "keeps_account_key (\<lambda>a. a\<lparr>ba_ai_disabled := True\<rparr>)" by auto
  then have a: "account_of (with_account 9 5 7 (qs_db ?q)) 7 = Some ((default_account 1 7 0)\<lparr>ba_ai_disabled := True\<rparr>)"
    by (simp add: with_account_ident)
  obtain q' where "check_and_reserve quiet 9 5 50 True 7 (f64 (1/4)) 3 None ?q = (Inr (deny AI_disabled), q')"
    using reserve_quiet [OF a, of 50 True "f64 (1/4)" 3 None] by (auto simp: gate_def)
  from denied_reserves_nothing [OF this] this show ?thesis by simp
qed

end
