(* ===== verification/Ledger.thy ===== *)
theory Ledger
  imports Quota
begin

text \<open>
  The usage ledger and the routines that settle against it under a row lock: credits
  (\<open>app/billing/credits.py\<close>) and the reconciliation of estimated and actual cost
  (\<open>app/billing/reconciliation.py\<close>, \<open>reconcile_cost\<close>). Both read and write the locked account row,
  so that no other writer intervenes between their reads and writes.
\<close>

section \<open>Ledger rows\<close>

definition for_job :: "uuid \<Rightarrow> uuid \<Rightarrow> usage_ledger \<Rightarrow> bool" where
  "for_job company job r \<longleftrightarrow> ul_company_id r = company \<and> ul_job_id r = Some job"

definition ledger_entry :: "database \<Rightarrow> uuid \<Rightarrow> uuid \<Rightarrow> usage_ledger option" where
  "ledger_entry d company job = find (for_job company job) (db_ledger d)"

definition blank_entry :: "uuid \<Rightarrow> uuid \<Rightarrow> uuid \<Rightarrow> micros \<Rightarrow> usage_ledger" where
  \<comment> \<open>a row with the column defaults\<close>
  "blank_entry fresh company job now = \<lparr>ul_id = fresh, ul_company_id = company, ul_job_id = Some job,
     ul_text_units = 0, ul_vision_units = 0, ul_audio_units = 0, ul_cost_usd = 0, ul_estimated_cost_usd = 0,
     ul_model_used = None, ul_execution_time_ms = None, ul_is_credit = False, ul_credit_reason = None,
     ul_original_job_id = None, ul_user_id = None, ul_billing_period = None, ul_created_at = now\<rparr>"

definition insert_ledger :: "usage_ledger \<Rightarrow> database \<Rightarrow> bool \<times> database" where
  \<comment> \<open>\<open>INSERT ... ON CONFLICT (job_id, company_id) DO NOTHING\<close>; the flag: a row was inserted\<close>
  "insert_ledger r d =
     (let conflict = (\<lambda>x. ul_job_id x \<noteq> None \<and> ledger_key x = ledger_key r)
      in (\<not> list_ex conflict (db_ledger d), d\<lparr>db_ledger := insert_unless conflict r (db_ledger d)\<rparr>))"

definition period_of :: "micros \<Rightarrow> billing_account \<Rightarrow> string" where
  "period_of now account =
     (case ba_billing_period_start account of Some t \<Rightarrow> format_month t | None \<Rightarrow> format_month now)"

section \<open>Credits\<close>

datatype credit_result = Skipped_duplicate | No_billing_account | Credited pyfloat string pyfloat | No_reservation

definition check_duplicate_credit :: "database \<Rightarrow> uuid \<Rightarrow> uuid \<Rightarrow> string \<Rightarrow> bool" where
  "check_duplicate_credit d company job why =
     list_ex (\<lambda>r. for_job company job r \<and> ul_is_credit r \<and> ul_credit_reason r = Some why) (db_ledger d)"

definition credited_used :: "pyfloat \<Rightarrow> billing_account \<Rightarrow> rat" where
  "credited_used amount account = minus_clamped (ba_used_acu account) (repr_dec amount)"

definition credit_entry ::
    "uuid \<Rightarrow> micros \<Rightarrow> uuid \<Rightarrow> uuid \<Rightarrow> pyfloat \<Rightarrow> string \<Rightarrow> billing_account \<Rightarrow> usage_ledger" where
  "credit_entry fresh now company job amount why account =
     (let credit_cost_usd = dec28 (repr_dec amount * repr_dec ACU_TO_USD) in
      (blank_entry fresh company job now)
        \<lparr>ul_cost_usd := quantize 6 (- credit_cost_usd), ul_estimated_cost_usd := 0,
         ul_model_used := Some ''credit'', ul_execution_time_ms := Some 0,
         ul_billing_period := Some (period_of now account), ul_is_credit := True,
         ul_credit_reason := Some (take 255 why), ul_original_job_id := Some job\<rparr>)"

definition grant_credit ::
    "uuid \<Rightarrow> micros \<Rightarrow> uuid \<Rightarrow> uuid \<Rightarrow> pyfloat \<Rightarrow> string \<Rightarrow> database \<Rightarrow> credit_result \<times> database" where
  "grant_credit fresh now company job amount why d =
     (case account_of d company of
        None \<Rightarrow> (No_billing_account, d)
      | Some account \<Rightarrow>
          if check_duplicate_credit d company job why then (Skipped_duplicate, d)
          else
            let used = credited_used amount account;
                d1 = change_account company (\<lambda>a. a\<lparr>ba_used_acu := quantize 4 used\<rparr>) d;
                (inserted, d2) = insert_ledger (credit_entry fresh now company job amount why account) d1
            in if \<not> inserted then (Skipped_duplicate, d2) else (Credited amount why (f64 used), d2))"

definition auto_credit_reason :: string where
  "auto_credit_reason = ''auto_credit: job processing failed''"

definition auto_credit_failed_job ::
    "uuid \<Rightarrow> micros \<Rightarrow> uuid \<Rightarrow> uuid \<Rightarrow> pyfloat \<Rightarrow> database \<Rightarrow> credit_result \<times> database" where
  "auto_credit_failed_job fresh now company job reserved d =
     (if reserved \<le> 0 then (No_reservation, d)
      else grant_credit fresh now company job reserved auto_credit_reason d)"

section \<open>Reconciliation\<close>

datatype integrity_error = Billing_integrity_error uuid pyfloat pyfloat

datatype reconciliation = Lock_contention | No_account_found | Reconciled pyfloat pyfloat rat pyfloat

record job_usage =
  ju_text_units :: int
  ju_vision_units :: int
  ju_audio_units :: int
  ju_model_used :: string
  ju_execution_time_ms :: int
  ju_user_id :: "string option"

definition settle_account :: "micros \<Rightarrow> rat \<Rightarrow> rat \<Rightarrow> billing_account \<Rightarrow> billing_account" where
  \<comment> \<open>the changes of the account object on the first reconciliation, before the flush\<close>
  "settle_account now reserved actual_acu account =
     (let a1 = account\<lparr>ba_reserved_acu := dec28 (ba_reserved_acu account - reserved),
                       ba_used_acu := dec28 (ba_used_acu account + actual_acu)\<rparr>;
          a2 = (if ba_reserved_acu a1 < 0 then
                  let debt = dec28 (ba_acu_debt a1 - ba_reserved_acu a1);
                      max_debt = (if ba_max_acu_debt a1 = 0 then 500 else ba_max_acu_debt a1);
                      a = a1\<lparr>ba_acu_debt := debt, ba_reserved_acu := 0\<rparr>
                  in if max_debt \<le> debt
                     then a\<lparr>ba_ai_disabled := True, ba_ai_disabled_reason := Some ''debt_limit''\<rparr> else a
                else a1)
      in a2\<lparr>ba_last_reconciled := Some now\<rparr>)"

definition flush_account :: "billing_account \<Rightarrow> billing_account" where
  \<comment> \<open>what the row holds after the flush: the numeric columns at their scale\<close>
  "flush_account a = a\<lparr>ba_reserved_acu := quantize 4 (ba_reserved_acu a), ba_used_acu := quantize 4 (ba_used_acu a),
     ba_acu_debt := quantize 4 (ba_acu_debt a)\<rparr>"

definition usage_entry ::
    "job_usage \<Rightarrow> pyfloat \<Rightarrow> pyfloat \<Rightarrow> string \<Rightarrow> usage_ledger \<Rightarrow> usage_ledger" where
  "usage_entry u estimated actual period r =
     r\<lparr>ul_text_units := ju_text_units u, ul_vision_units := ju_vision_units u, ul_audio_units := ju_audio_units u,
       ul_cost_usd := quantize 6 (repr_dec actual), ul_estimated_cost_usd := quantize 6 (repr_dec estimated),
       ul_model_used := Some (ju_model_used u), ul_execution_time_ms := Some (ju_execution_time_ms u),
       ul_billing_period := Some period\<rparr>"

definition revise_entry ::
    "job_usage \<Rightarrow> pyfloat \<Rightarrow> pyfloat \<Rightarrow> string \<Rightarrow> usage_ledger \<Rightarrow> usage_ledger" where
  \<comment> \<open>the update of the entry that a retry finds\<close>
  "revise_entry u estimated actual period r =
     (let r' = usage_entry u estimated actual period r
      in if truthy_str (ju_user_id u) then r'\<lparr>ul_user_id := ju_user_id u\<rparr> else r')"

definition round4 :: "rat \<Rightarrow> rat" where
  \<comment> \<open>\<open>round(d, 4)\<close> of a \<open>Decimal\<close>\<close>
  "round4 d = of_int (rhe (d * 10 ^ 4)) / 10 ^ 4"

definition reconcile_cost ::
    "bool \<Rightarrow> uuid \<Rightarrow> micros \<Rightarrow> uuid \<Rightarrow> uuid \<Rightarrow> pyfloat \<Rightarrow> pyfloat \<Rightarrow> pyfloat \<Rightarrow> job_usage \<Rightarrow> database \<Rightarrow>
     (integrity_error + reconciliation) \<times> database" where
  \<comment> \<open>\<open>lock_free\<close>: the advisory lock of the job could be taken\<close>
  "reconcile_cost lock_free fresh now company job estimated actual reserved_amount u d =
     (if \<not> lock_free then (Inr Lock_contention, d)
      else case account_of d company of
        None \<Rightarrow> (Inr No_account_found, d)
      | Some account \<Rightarrow>
          let existing = ledger_entry d company job;
              actual_acu = dec28 (repr_dec actual / repr_dec ACU_TO_USD);
              reserved = repr_dec reserved_amount
          in if existing = None \<and> ba_reserved_acu account < reserved
             then (Inl (Billing_integrity_error company (f64 (ba_reserved_acu account)) (f64 reserved)), d)
             else
               let account' = (if existing = None then settle_account now reserved actual_acu account else account);
                   d1 = (if existing = None
                         then change_account company (\<lambda>a. flush_account (settle_account now reserved actual_acu a)) d
                         else d);
                   drift = dec28 (actual_acu - reserved);
                   period = period_of now account;
                   d2 = (if existing = None
                         then snd (insert_ledger ((usage_entry u estimated actual period (blank_entry fresh company job now))
                                                    \<lparr>ul_user_id := ju_user_id u\<rparr>) d1)
                         else d1\<lparr>db_ledger := update_where (for_job company job)
                                (revise_entry u estimated actual period)
                                (db_ledger d1)\<rparr>)
               in (Inr (Reconciled estimated actual (round4 drift) (f64 (ba_used_acu account'))), d2))"

section \<open>Facts about the ledger table\<close>

lemma ledger_entry_change_account [simp]: "ledger_entry (change_account c f d) c' j = ledger_entry d c' j"
  by (simp add: ledger_entry_def change_account_def)

lemma db_ledger_change_account [simp]: "db_ledger (change_account c f d) = db_ledger d"
  by (simp add: change_account_def)

lemma account_of_insert_ledger [simp]: "account_of (snd (insert_ledger r d)) c = account_of d c"
  by (simp add: insert_ledger_def Let_def account_of_def)

lemma ledger_entry_None: "ledger_entry d c j = None \<longleftrightarrow> (\<forall>r \<in> set (db_ledger d). \<not> for_job c j r)"
  by (auto simp: ledger_entry_def find_None_iff)

lemma insert_ledger_hit:
  "ul_job_id r = Some j \<Longrightarrow> fst (insert_ledger r d) \<longleftrightarrow> ledger_entry d (ul_company_id r) j = None"
  by (auto simp: insert_ledger_def Let_def ledger_entry_None list_ex_iff for_job_def ledger_key_def)

lemma insert_ledger_rows:
  "ul_job_id r = Some j \<Longrightarrow>
   db_ledger (snd (insert_ledger r d)) = db_ledger d @ (if ledger_entry d (ul_company_id r) j = None then [r] else [])"
  using insert_ledger_hit [of r j d] by (auto simp: insert_ledger_def Let_def insert_unless_def)

lemma wf_db_insert_ledger [inv_intros]: "wf_db d \<Longrightarrow> wf_db (snd (insert_ledger r d))"
  by (auto simp: wf_db_def insert_ledger_def Let_def insert_unless_def unique_on_def list_ex_iff)

lemma ledger_key_update_where:
  "(\<And>r. ul_job_id (f r) = ul_job_id r) \<Longrightarrow> (\<And>r. ul_company_id (f r) = ul_company_id r) \<Longrightarrow>
   map ledger_key (filter (\<lambda>r. ul_job_id r \<noteq> None) (update_where P f rows)) =
   map ledger_key (filter (\<lambda>r. ul_job_id r \<noteq> None) rows)"
  by (induction rows) (auto simp: update_where_def ledger_key_def)

lemma usage_entry_keys [simp]:
  "ul_job_id (usage_entry u e a p r) = ul_job_id r" "ul_company_id (usage_entry u e a p r) = ul_company_id r"
  by (simp_all add: usage_entry_def)

lemma revise_entry_simps [simp]:
  "ul_job_id (revise_entry u e a p r) = ul_job_id r" "ul_company_id (revise_entry u e a p r) = ul_company_id r"
  "ul_cost_usd (revise_entry u e a p r) = quantize 6 (repr_dec a)"
  by (simp_all add: revise_entry_def Let_def) (simp add: usage_entry_def)

lemma credit_entry_keys:
  "ul_job_id (credit_entry i now c job amount why a) = Some job"
  "ul_company_id (credit_entry i now c job amount why a) = c"
  "ul_is_credit (credit_entry i now c job amount why a)"
  "ul_credit_reason (credit_entry i now c job amount why a) = Some (take 255 why)"
  by (simp_all add: credit_entry_def blank_entry_def Let_def)

lemma blank_entry_keys [simp]:
  "ul_job_id (blank_entry i c j now) = Some j" "ul_company_id (blank_entry i c j now) = c"
  by (simp_all add: blank_entry_def)

section \<open>Reconciliation is applied once per job\<close>

lemma settle_account_exact:
  assumes "repr_dec reserved \<le> ba_reserved_acu a"
  shows "settle_account now (repr_dec reserved) actual_acu a =
     a\<lparr>ba_reserved_acu := dec28 (ba_reserved_acu a - repr_dec reserved),
       ba_used_acu := dec28 (ba_used_acu a + actual_acu), ba_last_reconciled := Some now\<rparr>"
proof -
  have "0 \<le> dec28 (ba_reserved_acu a - repr_dec reserved)" using assms by simp
  then show ?thesis unfolding settle_account_def Let_def by (simp add: not_less del: dec28_nonneg)
qed

lemma settle_keeps [simp]:
  "ba_company_id (settle_account now r x a) = ba_company_id a" "ba_company_id (flush_account a) = ba_company_id a"
  by (simp_all add: settle_account_def flush_account_def Let_def)

lemma keeps_settle [simp]: "keeps_account_key (\<lambda>a. flush_account (settle_account now r x a))"
  by auto

lemma account_of_change_ledger [simp]: "account_of (d\<lparr>db_ledger := l\<rparr>) c = account_of d c"
  by (simp add: account_of_def)

lemma reconcile_first:
  assumes "account_of d c = Some a" "ledger_entry d c job = None" "repr_dec reserved \<le> ba_reserved_acu a"
  shows "\<exists>r. fst (reconcile_cost True fresh now c job estimated actual reserved u d) = Inr r"
    and "account_of (snd (reconcile_cost True fresh now c job estimated actual reserved u d)) c' =
      (if c' = c then Some (a\<lparr>ba_reserved_acu := quantize 4 (dec28 (ba_reserved_acu a - repr_dec reserved)),
                 ba_used_acu := quantize 4 (dec28 (ba_used_acu a + acu_of_usd actual)),
                 ba_acu_debt := quantize 4 (ba_acu_debt a), ba_last_reconciled := Some now\<rparr>)
       else account_of d c')"
proof -
  have acu: "dec28 (repr_dec actual / repr_dec ACU_TO_USD) = acu_of_usd actual" by (simp add: acu_of_usd_def)
  show "\<exists>r. fst (reconcile_cost True fresh now c job estimated actual reserved u d) = Inr r"
    using assms by (simp add: reconcile_cost_def Let_def not_less)
  show "account_of (snd (reconcile_cost True fresh now c job estimated actual reserved u d)) c' =
      (if c' = c then Some (a\<lparr>ba_reserved_acu := quantize 4 (dec28 (ba_reserved_acu a - repr_dec reserved)),
                 ba_used_acu := quantize 4 (dec28 (ba_used_acu a + acu_of_usd actual)),
                 ba_acu_debt := quantize 4 (ba_acu_debt a), ba_last_reconciled := Some now\<rparr>)
       else account_of d c')"
    using assms by (simp add: reconcile_cost_def Let_def acu acct.fetch_change settle_account_exact not_less)
      (simp add: flush_account_def)
qed

text \<open>
  C9. What \<open>reconcile_cost\<close> does to the account, in full: on the first reconciliation of a job it
  moves exactly the reserved amount out of the reservation and the actual cost into the usage,
  or raises \<open>BillingIntegrityError\<close> and changes nothing when the reservation on the account is
  smaller; on every later call for the job the balances stay; a debt is never recorded and AI is
  never disabled (the code's debt branch cannot be reached).
\<close>

theorem reconcile_account:
  assumes "account_of d c = Some a"
  shows "case reconcile_cost True fresh now c job estimated actual reserved u d of (res, d') \<Rightarrow>
    (case res of Inl e \<Rightarrow> ledger_entry d c job = None \<and> ba_reserved_acu a < repr_dec reserved \<and> d' = d
     | Inr _ \<Rightarrow>
        account_of d' c = Some (if ledger_entry d c job \<noteq> None then a
          else a\<lparr>ba_reserved_acu := quantize 4 (dec28 (ba_reserved_acu a - repr_dec reserved)),
                 ba_used_acu := quantize 4 (dec28 (ba_used_acu a + acu_of_usd actual)),
                 ba_acu_debt := quantize 4 (ba_acu_debt a), ba_last_reconciled := Some now\<rparr>)) \<and>
    (\<forall>c'. c' = c \<or> account_of d' c' = account_of d c')"
proof (cases "ledger_entry d c job = None")
  case True
  show ?thesis
  proof (cases "ba_reserved_acu a < repr_dec reserved")
    case False
    then have "repr_dec reserved \<le> ba_reserved_acu a" by simp
    note f = reconcile_first [OF assms True this, of fresh now estimated actual u]
    obtain r d' where "reconcile_cost True fresh now c job estimated actual reserved u d = (Inr r, d')"
      using f(1) by (metis prod.collapse)
    then show ?thesis using True f(2) by simp
  qed (use assms True in \<open>simp add: reconcile_cost_def Let_def\<close>)
next
  case False
  then obtain e where "ledger_entry d c job = Some e" by auto
  then show ?thesis using assms by (simp add: reconcile_cost_def Let_def)
qed

lemma for_job_upd [simp]:
  "for_job c j (usage_entry u e a p r) = for_job c j r" "for_job c j (revise_entry u e a p r) = for_job c j r" "for_job c j (r\<lparr>ul_user_id := x\<rparr>) = for_job c j r"
  by (simp_all add: for_job_def)

lemma ledger_entry_update:
  assumes "\<And>r. for_job c j (f r) = for_job c j r"
  shows "ledger_entry (d\<lparr>db_ledger := update_where (for_job c j) f (db_ledger d)\<rparr>) c j = map_option f (ledger_entry d c j)"
proof -
  have "find P (update_where P f xs) = map_option f (find P xs)" if "\<And>r. P (f r) = P r" for P f and xs :: "usage_ledger list"
    using that by (induction xs) (auto simp: update_where_def)
  with assms show ?thesis by (simp add: ledger_entry_def)
qed

lemma reconciled_entry:
  assumes "reconcile_cost True fresh now c job estimated actual reserved u d = (Inr r, d')" "account_of d c \<noteq> None"
  shows "\<exists>e. ledger_entry d' c job = Some e \<and> ul_cost_usd e = quantize 6 (repr_dec actual)"
proof -
  obtain a where a: "account_of d c = Some a" using assms(2) by auto
  show ?thesis
  proof (cases "ledger_entry d c job")
    case None
    define n where "n = (usage_entry u estimated actual (period_of now a) (blank_entry fresh c job now))\<lparr>ul_user_id := ju_user_id u\<rparr>"
    have n: "ul_job_id n = Some job" "ul_company_id n = c" "ul_cost_usd n = quantize 6 (repr_dec actual)"
      by (simp_all add: n_def usage_entry_def)
    have "db_ledger d' = db_ledger d @ [n]"
      using assms(1) a None n insert_ledger_rows [OF n(1)]
      by (auto simp: reconcile_cost_def Let_def n_def split: if_splits)
    moreover have "for_job c job n" using n by (simp add: for_job_def)
    ultimately show ?thesis using None n(3)
      by (simp add: ledger_entry_def find_append)
  next
    case (Some e)
    then show ?thesis using assms(1) a
      by (auto simp: reconcile_cost_def Let_def ledger_entry_update)
  qed
qed

lemma reconcile_wf: "wf_db d \<Longrightarrow> wf_db (snd (reconcile_cost lock fresh now c job estimated actual reserved u d))"
proof -
  assume wf: "wf_db d"
  have upd: "wf_db (d\<lparr>db_ledger := update_where P (revise_entry u e a p) (db_ledger d)\<rparr>)" for P e a p
    using wf by (simp add: wf_db_def unique_on_def ledger_key_update_where del: not_None_eq)
  have ins: "wf_db (snd (insert_ledger r (change_account c (\<lambda>a. flush_account (settle_account now x y a)) d)))" for r x y
    using wf by (intro wf_db_insert_ledger wf_db_change_account keeps_settle)
  show ?thesis
  proof (cases "account_of d c")
    case None
    then show ?thesis using wf by (simp add: reconcile_cost_def)
  next
    case (Some a)
    then show ?thesis using wf upd ins
      by (cases "ledger_entry d c job") (auto simp: reconcile_cost_def Let_def)
  qed
qed

text \<open>
  Reconciling again is harmless: after a reconciliation of a job, any number of further calls
  for that job, with whatever costs and reservation, leave every balance of every account as it
  was, while the job's ledger entry takes the last actual cost; the ledger never gets a
  second entry for the job.
\<close>

theorem reconcile_again:
  assumes "reconcile_cost True i now c job estimated actual reserved u d = (Inr r, d1)" "account_of d c \<noteq> None" "wf_db d"
    and "reconcile_cost lock i' now' c job estimated' actual' reserved' u' d1 = (r', d2)"
  shows "account_of d2 = account_of d1 \<and> wf_db d2 \<and>
         (lock \<longrightarrow> (\<exists>e. ledger_entry d2 c job = Some e \<and> ul_cost_usd e = quantize 6 (repr_dec actual')))"
proof -
  obtain e where e: "ledger_entry d1 c job = Some e" using reconciled_entry [OF assms(1,2)] by auto
  obtain a where "account_of d c = Some a" using assms(2) by auto
  with reconcile_account [OF this, where fresh = i and now = now and job = job and estimated = estimated and actual = actual and reserved = reserved and u = u] assms(1)
  obtain a1 where a1: "account_of d1 c = Some a1" by (auto simp: case_prod_beta)
  have wf: "wf_db d1" "wf_db d2"
    using reconcile_wf [OF assms(3), where lock = True and fresh = i and now = now and c = c and job = job and estimated = estimated and actual = actual and reserved = reserved and u = u] assms(1)
      reconcile_wf [where d = d1 and lock = lock and fresh = i' and now = now' and c = c and job = job and estimated = estimated' and actual = actual' and reserved = reserved' and u = u'] assms(4) by simp_all
  show ?thesis
  proof (cases lock)
    case False
    then show ?thesis using assms(4) wf by (simp add: reconcile_cost_def)
  next
    case True
    have ok: "\<exists>x. r' = Inr x" using assms(4) a1 e True by (auto simp: reconcile_cost_def Let_def)
    then have "account_of d2 c' = account_of d1 c'" for c'
      using reconcile_account [OF a1, where fresh = i' and now = now' and job = job and estimated = estimated' and actual = actual' and reserved = reserved' and u = u'] assms(4) a1 e True
      by (cases "c' = c") auto
    then have same: "account_of d2 = account_of d1" by (rule ext)
    from ok obtain x where "reconcile_cost True i' now' c job estimated' actual' reserved' u' d1 = (Inr x, d2)"
      using assms(4) True by auto
    from reconciled_entry [OF this] a1 same wf show ?thesis by auto
  qed
qed

section \<open>Credits\<close>

text \<open>
  A credit that repeats: for a job that already has an ordinary ledger entry (every job that was
  reconciled), \<open>grant_credit\<close> lowers the account's usage, then loses the credit's ledger row to the
  unique index and answers that the credit was a skipped duplicate. As no credit row is
  recorded, the duplicate check never fires, and the next call lowers the usage again.
\<close>

theorem credit_of_billed_job:
  assumes "account_of d c = Some a" "ledger_entry d c job = Some e" "wf_db d" "\<not> ul_is_credit e"
  shows "case grant_credit i now c job amount why d of (r, d') \<Rightarrow>
    r = Skipped_duplicate \<and> db_ledger d' = db_ledger d \<and>
    account_of d' c = Some (a\<lparr>ba_used_acu := quantize 4 (credited_used amount a)\<rparr>)"
proof -
  have "for_job c job e" "e \<in> set (db_ledger d)"
    using assms(2) by (auto simp: ledger_entry_def find_Some_iff)
  moreover have "x = e" if "x \<in> set (db_ledger d)" "for_job c job x" for x
  proof -
    have inj: "inj_on ledger_key (set (filter (\<lambda>r. ul_job_id r \<noteq> None) (db_ledger d)))"
      using assms(3) by (simp add: wf_db_def unique_on_def distinct_map)
    show ?thesis by (rule inj_onD [OF inj]) (use that \<open>for_job c job e\<close> \<open>e \<in> set (db_ledger d)\<close> in
      \<open>auto simp: for_job_def ledger_key_def\<close>)
  qed
  ultimately have nodup: "\<not> check_duplicate_credit d c job why"
    using assms(4) unfolding check_duplicate_credit_def list_ex_iff by blast
  have key: "keeps_account_key (\<lambda>x. x\<lparr>ba_used_acu := quantize 4 (credited_used amount a)\<rparr>)" by auto
  let ?r = "credit_entry i now c job amount why a"
  note k = credit_entry_keys [of i now c job amount why a]
  show ?thesis
    using assms(1,2) nodup insert_ledger_hit [OF k(1)] insert_ledger_rows [OF k(1)] k(2)
    by (simp add: grant_credit_def Let_def case_prod_beta acct.fetch_same [OF key])
qed

text \<open>
  A credit of a job without ledger entry is granted once: the first call lowers the usage by the
  amount (not below zero), records it, and every later call for the job with the same reason (of
  at most 255 characters) changes nothing.
\<close>

theorem credit_granted_once:
  assumes "account_of d c = Some a" "ledger_entry d c job = None" "length why \<le> 255"
    and "grant_credit i now c job amount why d = (r1, d1)"
  shows "r1 = Credited amount why (f64 (credited_used amount a)) \<and>
         account_of d1 c = Some (a\<lparr>ba_used_acu := quantize 4 (credited_used amount a)\<rparr>) \<and>
         grant_credit i' now' c job amount' why d1 = (Skipped_duplicate, d1)"
proof -
  have key: "keeps_account_key (\<lambda>x. x\<lparr>ba_used_acu := quantize 4 (credited_used amount a)\<rparr>)" by auto
  have nodup: "\<not> check_duplicate_credit d c job why"
    using assms(2) by (auto simp: check_duplicate_credit_def list_ex_iff ledger_entry_None)
  let ?r = "credit_entry i now c job amount why a"
  note k = credit_entry_keys [of i now c job amount why a]
  have out: "r1 = Credited amount why (f64 (credited_used amount a))" "db_ledger d1 = db_ledger d @ [?r]"
    "account_of d1 c = Some (a\<lparr>ba_used_acu := quantize 4 (credited_used amount a)\<rparr>)"
    using assms nodup insert_ledger_hit [OF k(1)] insert_ledger_rows [OF k(1)] k(2)
    by (auto simp: grant_credit_def Let_def case_prod_beta acct.fetch_same [OF key])
  moreover have "check_duplicate_credit d1 c job why"
    using out(2) assms(3) k by (simp add: check_duplicate_credit_def for_job_def)
  ultimately show ?thesis by (simp add: grant_credit_def)
qed

subsection \<open>A job that is reserved, reconciled and credited\<close>

definition used_up :: database where
  "used_up = one_account (\<lambda>a. a\<lparr>ba_used_acu := 10, ba_reserved_acu := 3\<rparr>)"

lemma account_of_used_up [simp]:
  "account_of used_up 7 = Some ((default_account 1 7 0)\<lparr>ba_used_acu := 10, ba_reserved_acu := 3\<rparr>)"
  unfolding used_up_def by (subst account_of_one_account) auto

lemma wf_used_up [simp]: "wf_db used_up"
  by (simp add: wf_db_def used_up_def one_account_def empty_db_def unique_on_def)

lemma ledger_used_up [simp]: "ledger_entry used_up 7 j = None"
  by (simp add: ledger_entry_def used_up_def one_account_def empty_db_def)

lemma repr_dec_0 [simp]: "repr_dec 0 = 0"
  by (simp add: repr_dec_def)

definition plain_usage :: job_usage where
  "plain_usage = \<lparr>ju_text_units = 1, ju_vision_units = 0, ju_audio_units = 0, ju_model_used = ''m'',
     ju_execution_time_ms = 5, ju_user_id = None\<rparr>"

theorem reconcile_account_witness:
  "map_option ba_acu_debt (account_of (snd (reconcile_cost True 2 9 7 4 0 0 0 plain_usage used_up)) 7) = Some 0"
proof -
  let ?r = "reconcile_cost True 2 9 7 4 0 0 0 plain_usage used_up"
  obtain x where "fst ?r = Inr x" by (simp add: reconcile_cost_def Let_def default_account_def)
  with reconcile_account [OF account_of_used_up, where fresh = 2 and now = 9 and job = 4 and estimated = 0 and actual = 0
      and reserved = 0 and u = plain_usage]
  show ?thesis by (simp add: case_prod_beta) (simp add: default_account_def)
qed

theorem reconcile_again_witness:
  "account_of (snd (reconcile_cost True 3 10 7 4 1 1 1 plain_usage (snd (reconcile_cost True 2 9 7 4 0 0 0 plain_usage used_up)))) =
   account_of (snd (reconcile_cost True 2 9 7 4 0 0 0 plain_usage used_up))"
proof -
  let ?r = "reconcile_cost True 2 9 7 4 0 0 0 plain_usage used_up"
  obtain x where "?r = (Inr x, snd ?r)" by (simp add: reconcile_cost_def Let_def default_account_def)
  from reconcile_again [OF this _ wf_used_up, of True 3 10 1 1 1 plain_usage] show ?thesis
    by (metis account_of_used_up option.distinct(1) surjective_pairing)
qed

theorem credit_granted_once_witness:
  "\<exists>d1. grant_credit 2 9 7 4 (f64 (1/2)) ''slow'' used_up = (Credited (f64 (1/2)) ''slow'' (f64 (credited_used (f64 (1/2))
      ((default_account 1 7 0)\<lparr>ba_used_acu := 10, ba_reserved_acu := 3\<rparr>))), d1) \<and>
     grant_credit 3 10 7 4 (f64 (1/2)) ''slow'' d1 = (Skipped_duplicate, d1)"
proof -
  obtain r d1 where g: "grant_credit 2 9 7 4 (f64 (1/2)) ''slow'' used_up = (r, d1)" by fastforce
  from credit_granted_once [OF account_of_used_up ledger_used_up _ this] g show ?thesis by simp
qed

theorem credit_of_billed_job_witness:
  "fst (grant_credit 3 10 7 4 (f64 (1/2)) ''slow'' (used_up\<lparr>db_ledger := [blank_entry 2 7 4 9]\<rparr>)) = Skipped_duplicate"
proof -
  let ?d = "used_up\<lparr>db_ledger := [blank_entry 2 7 4 9]\<rparr>"
  have "account_of ?d 7 = account_of used_up 7" by (rule account_of_change_ledger)
  then have a: "account_of ?d 7 = Some ((default_account 1 7 0)\<lparr>ba_used_acu := 10, ba_reserved_acu := 3\<rparr>)" by simp
  have e: "ledger_entry ?d 7 4 = Some (blank_entry 2 7 4 9)" by (simp add: ledger_entry_def for_job_def)
  have w: "wf_db ?d" by (simp add: wf_db_def used_up_def one_account_def empty_db_def unique_on_def)
  have "\<not> ul_is_credit (blank_entry 2 7 4 9)" by (simp add: blank_entry_def)
  from credit_of_billed_job [OF a e w this, where i = 3 and now = 10 and amount = "f64 (1/2)" and why = "''slow''"] show ?thesis
    by (simp only: case_prod_beta)
qed

end
