(* ===== verification/Idempotency.thy ===== *)
theory Idempotency
  imports DataModel PyValue
begin

text \<open>
  Idempotency keys of requests (\<open>app/billing/idempotency_service.py\<close>): the header's validation, the
  lookup of a recorded response, the record of a request in progress, its completion, and the
  expiry of old keys. \<open>json.loads\<close> and \<open>json.dumps\<close> of a response body are the arguments \<open>loads\<close>
  and \<open>dumps\<close>, the digest of the request body is an input, and what the session does after a
  failed flush is the argument \<open>session_usable\<close>.
\<close>

datatype request_error = Http nat | Session_error

section \<open>Lookup, creation, completion\<close>

definition key_of :: "idempotency_key \<Rightarrow> uuid \<times> string \<times> string" where
  "key_of r = (ik_company_id r, ik_user_id r, ik_key r)"

definition idem_record :: "database \<Rightarrow> uuid \<Rightarrow> string \<Rightarrow> string \<Rightarrow> idempotency_key option" where
  "idem_record d company user key = row_by key_of (company, user, key) (db_idempotency d)"

definition get_idempotent_response ::
    "(string \<Rightarrow> pyval option) \<Rightarrow> database \<Rightarrow> uuid \<Rightarrow> string \<Rightarrow> string \<Rightarrow> string \<Rightarrow> request_error + pyval option" where
  \<comment> \<open>\<open>loads s\<close> is \<open>None\<close> when \<open>json.loads\<close> raises\<close>
  "get_idempotent_response loads d company user key request_hash =
     (case idem_record d company user key of
        None \<Rightarrow> Inr None
      | Some r \<Rightarrow>
          if ik_status r = ''processing'' then Inl (Http 409)
          else if ik_request_hash r \<noteq> request_hash then Inl (Http 422)
          else (case ik_response_json r of
                  Some s \<Rightarrow> if s \<noteq> [] then Inr (loads s) else Inr None
                | None \<Rightarrow> Inr None))"

definition new_record :: "uuid \<Rightarrow> micros \<Rightarrow> uuid \<Rightarrow> string \<Rightarrow> string \<Rightarrow> string \<Rightarrow> idempotency_key" where
  "new_record fresh now company user key request_hash =
     \<lparr>ik_id = fresh, ik_company_id = company, ik_user_id = user, ik_key = key, ik_request_hash = request_hash,
      ik_response_json = None, ik_status = ''processing'', ik_created_at = now\<rparr>"

definition create_idempotency_record ::
    "(string \<Rightarrow> pyval option) \<Rightarrow> bool \<Rightarrow> uuid \<Rightarrow> micros \<Rightarrow> uuid \<Rightarrow> string \<Rightarrow> string \<Rightarrow> string \<Rightarrow> database \<Rightarrow> request_error + database" where
  "create_idempotency_record loads session_usable fresh now company user key request_hash d =
     (if idem_record d company user key = None
      then Inr (d\<lparr>db_idempotency := db_idempotency d @ [new_record fresh now company user key request_hash]\<rparr>)
      else if \<not> session_usable then Inl Session_error
      else (case get_idempotent_response loads d company user key request_hash of
              Inl e \<Rightarrow> Inl e
            | Inr (Some _) \<Rightarrow> Inl (Http 409)
            | Inr None \<Rightarrow> Inl (Http 409)))"

definition complete_idempotency_record ::
    "(pyval \<Rightarrow> string) \<Rightarrow> uuid \<Rightarrow> string \<Rightarrow> string \<Rightarrow> pyval \<Rightarrow> string \<Rightarrow> database \<Rightarrow> database" where
  "complete_idempotency_record dumps company user key response_body status d =
     d\<lparr>db_idempotency := modify_by key_of (company, user, key)
        (\<lambda>r. r\<lparr>ik_status := status, ik_response_json := Some (dumps response_body)\<rparr>) (db_idempotency d)\<rparr>"

section \<open>The header\<close>

definition key_char :: "char \<Rightarrow> bool" where
  \<comment> \<open>the class \<open>[a-zA-Z0-9_.-]\<close>\<close>
  "key_char c \<longleftrightarrow>
     c \<in> set ''abcdefghijklmnopqrstuvwxyzABCDEFGHIJKLMNOPQRSTUVWXYZ0123456789_-.''"

definition extract_idempotency_key :: "string option \<Rightarrow> request_error + string option" where
  "extract_idempotency_key header =
     (case header of
        None \<Rightarrow> Inr None
      | Some raw \<Rightarrow>
          if raw = [] then Inr (Some [])
          else let key = strip raw in
            if 255 < length key then Inl (Http 422)
            else if key = [] then Inl (Http 422)
            else if \<not> list_all key_char key then Inl (Http 422)
            else Inr (Some key))"

section \<open>Expiry\<close>

definition IDEMPOTENCY_RETENTION_SECONDS :: int where
  "IDEMPOTENCY_RETENTION_SECONDS = 600"

definition cleanup_expired_idempotency_keys :: "bool \<Rightarrow> micros \<Rightarrow> database \<Rightarrow> database" where
  \<comment> \<open>\<open>db_ok\<close>: the session and the delete do not raise\<close>
  "cleanup_expired_idempotency_keys db_ok now d =
     (if db_ok
      then d\<lparr>db_idempotency := filter (\<lambda>r. now - seconds IDEMPOTENCY_RETENTION_SECONDS \<le> ik_created_at r) (db_idempotency d)\<rparr>
      else d)"

section \<open>The life of a key\<close>

lemma key_of_new [simp]: "key_of (new_record i now c u k h) = (c, u, k)"
  by (simp add: key_of_def new_record_def)

lemma key_of_update [simp]: "key_of (r\<lparr>ik_status := s, ik_response_json := j\<rparr>) = key_of r"
  by (simp add: key_of_def)

lemma record_after_create:
  assumes "create_idempotency_record loads su i now c u k h d = Inr d'"
  shows "idem_record d' c' u' k' = (if (c', u', k') = (c, u, k) then Some (new_record i now c u k h) else idem_record d c' u' k')"
proof -
  from assms have n: "idem_record d c u k = None" and d': "d' = d\<lparr>db_idempotency := db_idempotency d @ [new_record i now c u k h]\<rparr>"
    by (auto simp: create_idempotency_record_def split: if_splits sum.splits option.splits)
  from n show ?thesis
    by (auto simp: d' idem_record_def row_by_append row_by_Cons split: option.splits)
qed

lemma record_after_complete:
  "idem_record (complete_idempotency_record dumps c u k body status d) c' u' k' =
     (if (c', u', k') = (c, u, k)
      then map_option (\<lambda>r. r\<lparr>ik_status := status, ik_response_json := Some (dumps body)\<rparr>) (idem_record d c' u' k')
      else idem_record d c' u' k')"
  by (auto simp: idem_record_def complete_idempotency_record_def row_by_modify_by)

text \<open>
  The life of an idempotency key: once a request has created its key, the same request is
  answered 409 while it is in progress; once it is completed, the same request gets exactly the
  recorded response and a request with another body gets 422; a second creation is always
  refused; and the requests of other companies, users and keys are answered as before throughout.
  (\<open>dumps\<close> yields text that \<open>loads\<close> reads back, and never the empty text.)
\<close>

theorem idempotency_key_life:
  assumes created: "create_idempotency_record loads su i now c u k h d = Inr d1"
    and json: "loads (dumps body) = Some body" "dumps body \<noteq> []" and status: "status \<noteq> ''processing''"
  defines "d2 \<equiv> complete_idempotency_record dumps c u k body status d1"
  shows "get_idempotent_response loads d1 c u k h' = Inl (Http 409) \<and>
         get_idempotent_response loads d2 c u k h = Inr (Some body) \<and>
         (h' \<noteq> h \<longrightarrow> get_idempotent_response loads d2 c u k h' = Inl (Http 422)) \<and>
         (\<exists>e. create_idempotency_record loads su' i' now' c u k h' d1 = Inl e) \<and>
         (\<exists>e. create_idempotency_record loads su' i' now' c u k h' d2 = Inl e) \<and>
         ((c', u', k') \<noteq> (c, u, k) \<longrightarrow>
            get_idempotent_response loads d1 c' u' k' h' = get_idempotent_response loads d c' u' k' h' \<and>
            get_idempotent_response loads d2 c' u' k' h' = get_idempotent_response loads d c' u' k' h')"
proof -
  note r1 = record_after_create [OF created]
  have r2: "idem_record d2 c' u' k' = (if (c', u', k') = (c, u, k)
      then Some ((new_record i now c u k h)\<lparr>ik_status := status, ik_response_json := Some (dumps body)\<rparr>)
      else idem_record d c' u' k')" for c' u' k'
    by (auto simp: d2_def record_after_complete r1)
  have refused: "\<exists>e. create_idempotency_record loads su' i' now' c u k h' x = Inl e" if "idem_record x c u k \<noteq> None" for x
    using that by (auto simp: create_idempotency_record_def split: sum.split option.split)
  have "get_idempotent_response loads d1 c u k h' = Inl (Http 409)"
    by (simp add: get_idempotent_response_def r1) (simp add: new_record_def)
  moreover have "get_idempotent_response loads d2 c u k h = Inr (Some body)"
    using json status by (simp add: get_idempotent_response_def r2) (simp add: new_record_def)
  moreover have "h' \<noteq> h \<Longrightarrow> get_idempotent_response loads d2 c u k h' = Inl (Http 422)"
    using status by (simp add: get_idempotent_response_def r2) (simp add: new_record_def)
  moreover have "(c', u', k') \<noteq> (c, u, k) \<Longrightarrow>
      get_idempotent_response loads d1 c' u' k' h' = get_idempotent_response loads d c' u' k' h' \<and>
      get_idempotent_response loads d2 c' u' k' h' = get_idempotent_response loads d c' u' k' h'"
  proof -
    assume n: "(c', u', k') \<noteq> (c, u, k)"
    have "idem_record d1 c' u' k' = idem_record d c' u' k'" "idem_record d2 c' u' k' = idem_record d c' u' k'"
      by (simp_all only: r1 [of c' u' k'] r2 [of c' u' k'] if_not_P [OF n])
    then show ?thesis by (simp add: get_idempotent_response_def)
  qed
  ultimately show ?thesis using refused [of d1] refused [of d2] by (auto simp: r1 r2)
qed

theorem idempotency_key_life_witness:
  "get_idempotent_response (\<lambda>s. Some (VStr s)) (complete_idempotency_record (\<lambda>v. case v of VStr s \<Rightarrow> s | _ \<Rightarrow> ''?'') 7 ''user_1'' ''k1''
     (VStr ''done'') ''completed'' (empty_db\<lparr>db_idempotency := [new_record 1 5 7 ''user_1'' ''k1'' ''h'']\<rparr>)) 7 ''user_1'' ''k1'' ''h''
   = Inr (Some (VStr ''done''))"
proof -
  have "create_idempotency_record (\<lambda>s. Some (VStr s)) True 1 5 7 ''user_1'' ''k1'' ''h'' empty_db =
      Inr (empty_db\<lparr>db_idempotency := [new_record 1 5 7 ''user_1'' ''k1'' ''h'']\<rparr>)"
    by (simp add: create_idempotency_record_def idem_record_def empty_db_def)
  from idempotency_key_life [OF this, where dumps = "\<lambda>v. case v of VStr s \<Rightarrow> s | _ \<Rightarrow> ''?''" and body = "VStr ''done''"
      and status = "''completed''"]
  show ?thesis by simp
qed

text \<open>
  An accepted key is never empty, has at most 255 characters, all of them letters, digits,
  hyphens, underscores or dots (an absent or empty header is passed on as it is); and the
  cleanup frees exactly the keys whose retention has run out, whatever their status.
\<close>

theorem header_and_expiry:
  "(extract_idempotency_key (Some raw) = Inr (Some key) \<longrightarrow>
      raw = [] \<and> key = [] \<or> key = strip raw \<and> key \<noteq> [] \<and> length key \<le> 255 \<and> (\<forall>ch \<in> set key. key_char ch)) \<and>
   (r \<in> set (db_idempotency (cleanup_expired_idempotency_keys True now d)) \<longleftrightarrow>
      r \<in> set (db_idempotency d) \<and> \<not> ik_created_at r < now - seconds 600)"
  by (auto simp: extract_idempotency_key_def cleanup_expired_idempotency_keys_def Let_def list_all_iff
      IDEMPOTENCY_RETENTION_SECONDS_def split: if_splits)

theorem header_and_expiry_witness:
  "extract_idempotency_key (Some ''order-17'') = Inr (Some ''order-17'') \<and>
   ''order-17'' = strip ''order-17'' \<and> length ''order-17'' \<le> 255"
proof -
  have e: "extract_idempotency_key (Some ''order-17'') = Inr (Some ''order-17'')" by code_simp
  from header_and_expiry [of "''order-17''" "''order-17''"] e show ?thesis by simp
qed

end
