(* ===== verification/Abuse.thy ===== *)
theory Abuse
  imports DataModel "HOL-Library.AList"
begin

text \<open>
  The abuse detector (\<open>app/billing/abuse.py\<close>, class \<open>AbuseDetector\<close>): the sliding window of
  requests, in Redis or in the process, and the risk score of an account with its effects. Times
  are floats of seconds; a Redis sorted set is the set of its scores, which are also its members.
\<close>

section \<open>The request window\<close>

record detector =
  spike_counts :: "(string \<times> pyfloat list) list"
  spike_cleanup :: pyfloat
  estimated_workers :: int

text \<open>What a call of the Redis client meets: no client, an exception, or the sorted sets.\<close>

datatype redis_zsets = No_client | Client_raises | Zsets "string \<Rightarrow> pyfloat set"

definition window_seconds :: pyfloat where "window_seconds = 60"
definition spike_threshold :: int where "spike_threshold = 10"

definition prune :: "pyfloat \<Rightarrow> detector \<Rightarrow> detector" where
  \<comment> \<open>the cleanup that both routines start with, at most once a minute\<close>
  "prune now s =
     (if 60 < fsub now (spike_cleanup s)
      then s\<lparr>spike_counts := map (\<lambda>(k, v). (k, filter (\<lambda>t. fsub now window_seconds < t) v)) (spike_counts s),
             spike_cleanup := now\<rparr>
      else s)"

definition record_local :: "pyfloat \<Rightarrow> string \<Rightarrow> detector \<Rightarrow> detector" where
  "record_local now company s =
     (let s1 = prune now s in
      s1\<lparr>spike_counts := AList.update company
          ((case map_of (spike_counts s1) company of None \<Rightarrow> [] | Some ts \<Rightarrow> ts) @ [now]) (spike_counts s1)\<rparr>)"

definition record_request ::
    "redis_zsets \<Rightarrow> pyfloat \<Rightarrow> pyfloat \<Rightarrow> string \<Rightarrow> detector \<Rightarrow> redis_zsets \<times> detector" where
  \<comment> \<open>\<open>wall\<close> and \<open>tick\<close>: \<open>time.time()\<close> and \<open>time.monotonic()\<close>\<close>
  "record_request redis wall tick company s =
     (case redis of
        Zsets z \<Rightarrow> (Zsets (z(company := {t \<in> insert wall (z company). \<not> (0 \<le> t \<and> t \<le> fsub wall window_seconds)})), s)
      | _ \<Rightarrow> (redis, record_local tick company s))"

definition check_local :: "pyfloat \<Rightarrow> string \<Rightarrow> detector \<Rightarrow> bool \<times> detector" where
  "check_local now company s =
     (let s1 = prune now s in
      case map_of (spike_counts s1) company of
        None \<Rightarrow> (False, s1)
      | Some ts \<Rightarrow>
          let ts' = filter (\<lambda>t. fsub now window_seconds < t) ts;
              effective_threshold = max 2 (spike_threshold div max 1 (estimated_workers s1))
          in (effective_threshold < int (length ts'), s1\<lparr>spike_counts := AList.update company ts' (spike_counts s1)\<rparr>))"

definition check_usage_spike ::
    "redis_zsets \<Rightarrow> pyfloat \<Rightarrow> pyfloat \<Rightarrow> string \<Rightarrow> detector \<Rightarrow> bool \<times> detector" where
  "check_usage_spike redis wall tick company s =
     (case redis of
        Zsets z \<Rightarrow> (spike_threshold < int (card {t \<in> z company. fsub wall window_seconds \<le> t \<and> t \<le> wall}), s)
      | _ \<Rightarrow> check_local tick company s)"

section \<open>Risk\<close>

definition count_recent_failures :: "micros \<Rightarrow> uuid \<Rightarrow> database \<Rightarrow> int" where
  "count_recent_failures now company d =
     int (length (filter (\<lambda>r. ul_company_id r = company \<and> now - hours 1 \<le> ul_created_at r \<and> ul_cost_usd r = 0) (db_ledger d)))"

definition apply_risk :: "int \<Rightarrow> billing_account \<Rightarrow> billing_account" where
  "apply_risk risk_score a =
     (let a1 = (if 70 < risk_score then a\<lparr>ba_ai_disabled := True\<rparr>
                else if 50 < risk_score then a\<lparr>ba_temp_quota_multiplier := 1/2\<rparr>
                else if risk_score \<le> 20 \<and> ba_temp_quota_multiplier a < 1 then a\<lparr>ba_temp_quota_multiplier := 1\<rparr>
                else a)
      in a1\<lparr>ba_risk_score := risk_score\<rparr>)"

definition new_risk :: "bool \<Rightarrow> int \<Rightarrow> int \<Rightarrow> int" where
  "new_risk spike failures risk_score =
     (let r = risk_score + (if spike then 20 else 0) in r + (if 5 < failures then 10 else 0))"

definition check_and_update_risk ::
    "redis_zsets \<Rightarrow> pyfloat \<Rightarrow> pyfloat \<Rightarrow> micros \<Rightarrow> string \<Rightarrow> uuid \<Rightarrow> database \<Rightarrow> detector \<Rightarrow> int \<times> database \<times> detector" where
  \<comment> \<open>\<open>key\<close> is the company's id as the string that names its window\<close>
  "check_and_update_risk redis wall tick now key company d s =
     (case account_of d company of
        None \<Rightarrow> (0, d, s)
      | Some account \<Rightarrow>
          let (spike, s1) = check_usage_spike redis wall tick key s;
              risk_score = new_risk spike (count_recent_failures now company d) (ba_risk_score account)
          in (risk_score, change_account company (apply_risk risk_score) d, s1))"

definition disable_company :: "uuid \<Rightarrow> database \<Rightarrow> database" where
  "disable_company company d = change_account company (\<lambda>a. a\<lparr>ba_ai_disabled := True\<rparr>) d"

definition enable_company :: "uuid \<Rightarrow> database \<Rightarrow> database" where
  "enable_company company d = change_account company (\<lambda>a. a\<lparr>ba_ai_disabled := False, ba_risk_score := 0\<rparr>) d"

definition decay_risk_scores :: "int \<Rightarrow> int \<Rightarrow> database \<Rightarrow> database" where
  "decay_risk_scores decay_rate min_score d =
     d\<lparr>db_accounts := update_where (\<lambda>a. min_score < ba_risk_score a)
        (\<lambda>a. a\<lparr>ba_risk_score := ba_risk_score a - decay_rate\<rparr>) (db_accounts d)\<rparr>"

section \<open>The window counts the requests of the last minute\<close>

text \<open>The requests that the process has recorded for a company, oldest first.\<close>

definition times_of :: "detector \<Rightarrow> string \<Rightarrow> pyfloat list" where
  "times_of s company = (case map_of (spike_counts s) company of None \<Rightarrow> [] | Some ts \<Rightarrow> ts)"

definition window :: "pyfloat \<Rightarrow> pyfloat list \<Rightarrow> pyfloat list" where
  "window now ts = filter (\<lambda>t. fsub now window_seconds < t) ts"

lemma fsub_mono: "a \<le> b \<Longrightarrow> fsub a c \<le> fsub b c"
  by (simp add: fsub_def f64_mono)

lemma window_window: "now \<le> now' \<Longrightarrow> window now' (window now ts) = window now' ts"
  using fsub_mono [of now now' window_seconds] by (induction ts) (auto simp: window_def)

lemma window_append [simp]: "window now (xs @ ys) = window now xs @ window now ys"
  by (simp add: window_def)

lemma map_of_map_snd: "map_of (map (\<lambda>(k, v). (k, f v)) xs) = map_option f \<circ> map_of xs"
  by (induction xs) auto

lemma times_prune: "times_of (prune now s) c = (if 60 < fsub now (spike_cleanup s) then window now (times_of s c) else times_of s c)"
  by (simp add: times_of_def prune_def map_of_map_snd window_def split: option.split)

lemma times_record:
  "times_of (record_local now c s) c' = times_of (prune now s) c' @ (if c' = c then [now] else [])"
  by (auto simp: times_of_def record_local_def Let_def update_conv' split: option.split)

lemma times_check: "now \<le> now' \<Longrightarrow> window now' (times_of (snd (check_local now c s)) c') = window now' (times_of s c')"
proof -
  assume n: "now \<le> now'"
  have p: "window now' (times_of (prune now s) c') = window now' (times_of s c')"
    using n by (simp add: times_prune window_window)
  show ?thesis
  proof (cases "map_of (spike_counts (prune now s)) c")
    case None
    with p show ?thesis by (simp add: check_local_def Let_def)
  next
    case (Some ts)
    have "times_of (snd (check_local now c s)) c' = (if c' = c then window now ts else times_of (prune now s) c')"
      using Some by (simp add: check_local_def Let_def times_of_def update_conv' window_def)
    moreover have "times_of (prune now s) c = ts" using Some by (simp add: times_of_def)
    ultimately show ?thesis using p n by (auto simp: window_window)
  qed
qed

text \<open>A history of requests (\<open>True\<close>) and checks (\<open>False\<close>) of companies at increasing times.\<close>

type_synonym event = "bool \<times> pyfloat \<times> string"

fun happen :: "event list \<Rightarrow> detector \<Rightarrow> detector" where
  "happen [] s = s"
| "happen ((True, now, c) # es) s = happen es (record_local now c s)"
| "happen ((False, now, c) # es) s = happen es (snd (check_local now c s))"

definition requests :: "event list \<Rightarrow> string \<Rightarrow> pyfloat list" where
  "requests es c = map (fst \<circ> snd) (filter (\<lambda>(r, now, c'). r \<and> c' = c) es)"

lemma workers_prune [simp]: "estimated_workers (prune now s) = estimated_workers s"
  by (simp add: prune_def)

lemma workers_happen [simp]: "estimated_workers (happen es s) = estimated_workers s"
  by (induction es s rule: happen.induct)
     (auto simp: record_local_def check_local_def Let_def split: option.split)

lemma window_happen:
  "sorted (map (fst \<circ> snd) es) \<Longrightarrow> (\<forall>e \<in> set es. fst (snd e) \<le> now) \<Longrightarrow>
   window now (times_of (happen es s) c) = window now (times_of s c) @ window now (requests es c)"
proof (induction es s rule: happen.induct)
  case (2 t k es s)
  have "window now (times_of (record_local t k s) c) = window now (times_of s c) @ window now (if c = k then [t] else [])"
    using 2(3) by (simp add: times_record times_prune window_window)
  with 2 show ?case by (auto simp: requests_def simp flip: window_append)
next
  case (3 t k es s)
  then show ?case by (simp add: times_check requests_def)
qed (simp add: requests_def window_def)

text \<open>
  The in-process window is exact: whatever requests and checks of whatever companies came before (at
  increasing times), the local check of a company reports a spike exactly when the number of its
  own requests within the last minute exceeds the threshold, which is the configured one divided by
  the number of workers, and at least 2. The periodic cleanups never lose a request.
\<close>

theorem local_spike_exact:
  assumes "sorted (map (fst \<circ> snd) es)" "\<forall>e \<in> set es. fst (snd e) \<le> now"
    and "spike_counts s0 = []"
  shows "fst (check_local now c (happen es s0)) \<longleftrightarrow>
           max 2 (10 div max 1 (estimated_workers s0)) < int (length (window now (requests es c)))"
proof -
  let ?s = "happen es s0"
  have t0: "times_of s0 c = []" using assms(3) by (simp add: times_of_def)
  have w: "window now (times_of (prune now ?s) c) = window now (requests es c)"
    using window_happen [OF assms(1,2), of s0 c] t0 by (simp add: times_prune window_window window_def)
  show ?thesis
  proof (cases "map_of (spike_counts (prune now ?s)) c")
    case None
    then have "window now (requests es c) = []" using w by (simp add: times_of_def window_def)
    with None show ?thesis by (simp add: check_local_def Let_def)
  next
    case (Some ts)
    then have "window now ts = window now (requests es c)" using w by (simp add: times_of_def)
    with Some show ?thesis by (simp add: check_local_def Let_def spike_threshold_def flip: window_def)
  qed
qed

theorem local_spike_exact_witness:
  "fst (check_local 5 ''a'' (happen [(True, 1, ''a''), (True, 2, ''b''), (True, 3, ''a'')]
      \<lparr>spike_counts = [], spike_cleanup = 0, estimated_workers = 4\<rparr>)) = False"
proof -
  have "window 5 (requests [(True, 1, ''a''), (True, 2, ''b''), (True, 3, ''a'')] ''a'') = window 5 [1, 3]"
    by (simp add: requests_def)
  moreover have "length (window 5 [1, 3]) \<le> 2" by (simp add: window_def)
  ultimately show ?thesis
    using local_spike_exact [of "[(True, 1, ''a''), (True, 2, ''b''), (True, 3, ''a'')]" 5
        "\<lparr>spike_counts = [], spike_cleanup = 0, estimated_workers = 4\<rparr>" "''a''"]
    by simp
qed

section \<open>Risk and its effects\<close>

lemma keeps_apply_risk [simp]: "keeps_account_key (apply_risk r)"
  by (auto simp: apply_risk_def Let_def)

text \<open>
  What a risk update does: only the company's own account changes; the score never goes down by a
  check and the answer is the stored score; above 70 the account is disabled, and no check ever
  enables it again; the quota is halved between 51 and 70 and is restored only at 20 or below, so that
  an account does not flip between the two by a single check.
\<close>

theorem risk_update:
  assumes "account_of d c = Some a"
    and "check_and_update_risk redis wall tick now key c d s = (score, d', s')"
  shows "\<exists>a'. account_of d' c = Some a' \<and> (\<forall>c'. c' = c \<or> account_of d' c' = account_of d c') \<and>
           ba_risk_score a' = score \<and> ba_risk_score a \<le> score \<and> score \<le> ba_risk_score a + 30 \<and>
           ba_ai_disabled a' = (ba_ai_disabled a \<or> 70 < score) \<and>
           ba_temp_quota_multiplier a' =
             (if 50 < score \<and> score \<le> 70 then 1/2
              else if score \<le> 20 \<and> ba_temp_quota_multiplier a < 1 then 1 else ba_temp_quota_multiplier a) \<and>
           ba_used_acu a' = ba_used_acu a \<and> ba_reserved_acu a' = ba_reserved_acu a"
  using assms
  by (auto simp: check_and_update_risk_def Let_def case_prod_beta acct.fetch_change new_risk_def apply_risk_def
      split: if_splits)

definition risky_db :: database where
  "risky_db = empty_db\<lparr>db_accounts := [(default_account 1 7 0)\<lparr>ba_risk_score := 60\<rparr>]\<rparr>"

theorem risk_update_witness:
  "\<exists>a'. account_of (fst (snd (check_and_update_risk (Zsets (\<lambda>_. {})) 9 9 9 ''7'' 7 risky_db
      \<lparr>spike_counts = [], spike_cleanup = 0, estimated_workers = 1\<rparr>))) 7 = Some a' \<and> 60 \<le> ba_risk_score a'"
proof -
  let ?r = "check_and_update_risk (Zsets (\<lambda>_. {})) 9 9 9 ''7'' 7 risky_db
      \<lparr>spike_counts = [], spike_cleanup = 0, estimated_workers = 1\<rparr>"
  have a: "account_of risky_db 7 = Some ((default_account 1 7 0)\<lparr>ba_risk_score := 60\<rparr>)"
    by (simp add: risky_db_def account_of_def row_by_def default_account_def)
  have "?r = (fst ?r, fst (snd ?r), snd (snd ?r))" by simp
  from risk_update [OF a this] show ?thesis by auto
qed

text \<open>
  The decay can overshoot its floor: one tick lowers every score above the minimum by the rate, also
  when that takes it below the minimum (which the documentation calls a cap); scores at or below the minimum
  stay, and the disabled flag is not lifted.
\<close>

theorem decay_floor:
  "account_of (decay_risk_scores rate low d) c =
     map_option (\<lambda>a. if low < ba_risk_score a then a\<lparr>ba_risk_score := ba_risk_score a - rate\<rparr> else a) (account_of d c) \<and>
   (0 \<le> rate \<longrightarrow> (\<forall>a. account_of (decay_risk_scores rate low d) c = Some a \<longrightarrow>
      low - rate < ba_risk_score a \<or> account_of d c = Some a))"
proof -
  have "account_of (decay_risk_scores rate low d) c =
     map_option (\<lambda>a. if low < ba_risk_score a then a\<lparr>ba_risk_score := ba_risk_score a - rate\<rparr> else a) (account_of d c)"
    by (simp add: account_of_def decay_risk_scores_def row_by_update_where)
  then show ?thesis by auto
qed

theorem decay_floor_witness:
  "map_option ba_risk_score (account_of (decay_risk_scores 5 58 risky_db) 7) = Some 55"
proof -
  have a: "account_of risky_db 7 = Some ((default_account 1 7 0)\<lparr>ba_risk_score := 60\<rparr>)"
    by (simp add: risky_db_def account_of_def row_by_def default_account_def)
  from decay_floor [of 5 58 risky_db 7] show ?thesis by (simp add: a)
qed

end
