(* ===== verification/CircuitBreaker.thy ===== *)
theory CircuitBreaker
  imports PyNum
begin

text \<open>
  The circuit breaker of the AI backends (\<open>app/ai/circuit_breaker.py\<close>): the in-process state
  machine and its mirror in Redis. \<open>now\<close> is the reading of the monotonic clock; a Redis client is
  absent, failing, or holds the breaker's hash.
\<close>

datatype circuit_state = CLOSED | OPEN | HALF_OPEN

record breaker =
  failure_threshold :: int
  cooldown_seconds :: pyfloat
  half_open_max_retries :: int
  max_cooldown_seconds :: pyfloat
  stability_gate :: int
  base_cooldown :: pyfloat
  cb_state :: circuit_state
  failure_count :: int
  consecutive_successes :: int
  last_failure_time :: "pyfloat option"
  half_open_attempts :: int

record breaker_hash =
  h_open :: bool
  h_last_failure :: "int option"
  h_level :: "pyfloat option"
  h_half_open :: "bool option"
  h_half_open_probed :: "bool option"

datatype breaker_redis = Redis_none | Redis_failing | Redis_hash breaker_hash

definition new_breaker :: "int \<Rightarrow> pyfloat \<Rightarrow> int \<Rightarrow> pyfloat \<Rightarrow> int \<Rightarrow> breaker" where
  "new_breaker threshold cooldown retries max_cooldown gate =
     \<lparr>failure_threshold = threshold, cooldown_seconds = cooldown, half_open_max_retries = retries,
      max_cooldown_seconds = max_cooldown, stability_gate = gate, base_cooldown = cooldown,
      cb_state = CLOSED, failure_count = 0, consecutive_successes = 0, last_failure_time = None,
      half_open_attempts = 0\<rparr>"

section \<open>Operations\<close>

definition truthy_time :: "pyfloat option \<Rightarrow> pyfloat option" where
  \<comment> \<open>the test \<open>if self._last_failure_time\<close>: \<open>None\<close> and \<open>0.0\<close> are false\<close>
  "truthy_time t = (case t of Some x \<Rightarrow> if x = 0 then None else Some x | None \<Rightarrow> None)"

definition local_available :: "pyfloat \<Rightarrow> breaker \<Rightarrow> bool \<times> breaker" where
  "local_available now b =
     (case cb_state b of
        CLOSED \<Rightarrow> (True, b)
      | OPEN \<Rightarrow>
          (case truthy_time (last_failure_time b) of
             Some t \<Rightarrow> if cooldown_seconds b \<le> fsub now t
                       then (True, b\<lparr>cb_state := HALF_OPEN, half_open_attempts := 0\<rparr>) else (False, b)
           | None \<Rightarrow> (False, b))
      | HALF_OPEN \<Rightarrow>
          if half_open_attempts b < half_open_max_retries b
          then (True, b\<lparr>half_open_attempts := half_open_attempts b + 1\<rparr>) else (False, b))"

definition is_available :: "pyfloat \<Rightarrow> breaker_redis \<Rightarrow> breaker \<Rightarrow> bool \<times> breaker" where
  "is_available now redis b =
     (case redis of Redis_hash h \<Rightarrow> (\<not> h_open h, b) | _ \<Rightarrow> local_available now b)"

definition record_success :: "breaker_redis \<Rightarrow> breaker \<Rightarrow> breaker \<times> breaker_redis" where
  "record_success redis b =
     (let b1 = b\<lparr>consecutive_successes := consecutive_successes b + 1, failure_count := 0,
                 last_failure_time := None, half_open_attempts := 0\<rparr>;
          b2 = (if stability_gate b1 \<le> consecutive_successes b1
                then let b' = b1\<lparr>cb_state := CLOSED\<rparr>
                     in if 5 \<le> consecutive_successes b' then b'\<lparr>cooldown_seconds := base_cooldown b'\<rparr> else b'
                else b1)
      in (b2, case redis of
                Redis_hash h \<Rightarrow> Redis_hash \<lparr>h_open = False, h_last_failure = None, h_level = None,
                                           h_half_open = None, h_half_open_probed = None\<rparr>
              | r \<Rightarrow> r))"

definition record_failure :: "pyfloat \<Rightarrow> int \<Rightarrow> breaker_redis \<Rightarrow> breaker \<Rightarrow> breaker \<times> breaker_redis" where
  \<comment> \<open>\<open>wall\<close>: the whole seconds of the wall clock\<close>
  "record_failure now wall redis b =
     (let b1 = b\<lparr>failure_count := failure_count b + 1, consecutive_successes := 0, last_failure_time := Some now\<rparr>
      in if cb_state b1 = HALF_OPEN then
           (b1\<lparr>cb_state := OPEN\<rparr>,
            case redis of Redis_hash h \<Rightarrow> Redis_hash (h\<lparr>h_open := True, h_last_failure := Some wall\<rparr>) | r \<Rightarrow> r)
         else if failure_threshold b1 \<le> failure_count b1 then
           (let b2 = b1\<lparr>cooldown_seconds := min (fmul (cooldown_seconds b1) 2) (max_cooldown_seconds b1), cb_state := OPEN\<rparr>
            in (b2, case redis of
                      Redis_hash h \<Rightarrow> Redis_hash \<lparr>h_open = True, h_last_failure = Some wall,
                        h_level = Some (cooldown_seconds b2), h_half_open = Some False, h_half_open_probed = Some False\<rparr>
                    | r \<Rightarrow> r))
         else (b1, redis))"

definition reset_breaker :: "breaker_redis \<Rightarrow> breaker \<Rightarrow> breaker \<times> breaker_redis" where
  "reset_breaker redis b =
     (b\<lparr>cb_state := CLOSED, failure_count := 0, last_failure_time := None, half_open_attempts := 0\<rparr>,
      case redis of Redis_hash h \<Rightarrow> Redis_hash \<lparr>h_open = False, h_last_failure = None, h_level = None,
                                               h_half_open = None, h_half_open_probed = None\<rparr>
      | r \<Rightarrow> r)"

section \<open>Histories of a breaker without Redis\<close>

datatype breaker_call = Ask pyfloat | Succeed | Fail pyfloat

fun call :: "breaker_call \<Rightarrow> breaker \<Rightarrow> bool \<times> breaker" where
  \<comment> \<open>the flag: a request was admitted\<close>
  "call (Ask now) b = is_available now Redis_none b"
| "call Succeed b = (False, fst (record_success Redis_none b))"
| "call (Fail now) b = (False, fst (record_failure now 0 Redis_none b))"

fun calls :: "breaker_call list \<Rightarrow> breaker \<Rightarrow> nat \<times> breaker" where
  \<comment> \<open>the number of requests admitted\<close>
  "calls [] b = (0, b)"
| "calls (c # cs) b = (let (ok, b1) = call c b; (n, b2) = calls cs b1 in (n + (if ok then 1 else 0), b2))"

text \<open>The invariant: the settings do not change, and the current cooldown stays between its bounds.\<close>

definition breaker_ok :: "breaker \<Rightarrow> bool" where
  "breaker_ok b \<longleftrightarrow> is_f64 (cooldown_seconds b) \<and> is_f64 (base_cooldown b) \<and> is_f64 (max_cooldown_seconds b) \<and>
     0 \<le> base_cooldown b \<and> base_cooldown b \<le> cooldown_seconds b \<and> cooldown_seconds b \<le> max_cooldown_seconds b \<and>
     0 \<le> half_open_attempts b"

definition same_settings :: "breaker \<Rightarrow> breaker \<Rightarrow> bool" where
  "same_settings a b \<longleftrightarrow> failure_threshold a = failure_threshold b \<and> half_open_max_retries a = half_open_max_retries b \<and>
     max_cooldown_seconds a = max_cooldown_seconds b \<and> stability_gate a = stability_gate b \<and> base_cooldown a = base_cooldown b"

lemma doubled_cooldown:
  assumes "is_f64 c" "0 \<le> c"
  shows "c \<le> fmul c 2"
proof -
  have "c = f64 c" using assms by (simp add: is_f64_def)
  also have "\<dots> \<le> f64 (c * 2)" using assms by (intro f64_mono) simp
  finally show ?thesis by (simp add: fmul_def)
qed

lemma call_ok:
  assumes "breaker_ok b"
  shows "breaker_ok (snd (call c b)) \<and> same_settings (snd (call c b)) b"
proof (cases c)
  case (Ask now)
  then show ?thesis using assms
    by (auto simp: is_available_def local_available_def breaker_ok_def same_settings_def split: circuit_state.split option.split)
next
  case Succeed
  then show ?thesis using assms by (auto simp: record_success_def breaker_ok_def same_settings_def Let_def)
next
  case (Fail now)
  then show ?thesis using assms doubled_cooldown [of "cooldown_seconds b"]
    by (auto simp: record_failure_def breaker_ok_def same_settings_def Let_def fmul_def min_def)
qed

text \<open>
  Whatever the history, the cooldown stays between the configured base and maximum, and the settings
  never change.
\<close>

theorem cooldown_bounded:
  "breaker_ok b \<Longrightarrow> breaker_ok (snd (calls cs b)) \<and> same_settings (snd (calls cs b)) b"
proof (induction cs arbitrary: b)
  case Nil
  then show ?case by (simp add: same_settings_def)
next
  case (Cons c cs)
  then have "breaker_ok (snd (call c b))" "same_settings (snd (call c b)) b" using call_ok by blast+
  with Cons.IH [of "snd (call c b)"] show ?case
    by (auto simp: Let_def case_prod_beta same_settings_def)
qed

theorem cooldown_bounded_witness:
  "cooldown_seconds (snd (calls [Fail 1, Fail 2, Fail 3] (new_breaker 3 120 1 600 3))) \<le> 600"
proof -
  have "breaker_ok (new_breaker 3 120 1 600 3)"
    using f64_of_int [of 120] f64_of_int [of 600] by (simp add: breaker_ok_def new_breaker_def is_f64_def)
  from cooldown_bounded [OF this, of "[Fail 1, Fail 2, Fail 3]"] show ?thesis
    by (simp add: breaker_ok_def same_settings_def new_breaker_def del: calls.simps)
qed

section \<open>Opening, probing, and getting stuck\<close>

lemma failures_count:
  assumes "cb_state b = CLOSED" "int (length ts) < failure_threshold b - failure_count b"
  shows "cb_state (snd (calls (map Fail ts) b)) = CLOSED \<and>
         failure_count (snd (calls (map Fail ts) b)) = failure_count b + int (length ts) \<and>
         failure_threshold (snd (calls (map Fail ts) b)) = failure_threshold b"
  using assms
proof (induction ts arbitrary: b)
  case (Cons t ts)
  let ?b = "fst (record_failure t 0 Redis_none b)"
  have "cb_state ?b = CLOSED" "failure_count ?b = failure_count b + 1" "failure_threshold ?b = failure_threshold b"
    using Cons.prems by (auto simp: record_failure_def Let_def)
  with Cons.IH [of ?b] Cons.prems show ?case by (simp add: Let_def case_prod_beta)
qed simp

text \<open>
  The breaker opens exactly at the threshold: from closed with no failures counted, any number of
  consecutive failures below the threshold leaves it closed and admitting; the failure that
  reaches the threshold opens it, and from then on no request is admitted until the cooldown
  (doubled, up to the maximum) has passed since that failure; the first request after it is admitted as a probe.
\<close>

theorem opens_at_threshold:
  assumes "cb_state b = CLOSED" "failure_count b = 0" "int (length ts) + 1 = failure_threshold b" "t \<noteq> 0"
  shows "fst (call (Ask now) (snd (calls (map Fail ts) b))) \<and>
         (let b' = snd (call (Fail t) (snd (calls (map Fail ts) b))) in
          cb_state b' = OPEN \<and> (fst (call (Ask now) b') \<longleftrightarrow> cooldown_seconds b' \<le> fsub now t) \<and>
          (\<not> fst (call (Ask now) b') \<longrightarrow> snd (call (Ask now) b') = b'))"
proof -
  let ?c = "snd (calls (map Fail ts) b)"
  have c: "cb_state ?c = CLOSED" "failure_count ?c = int (length ts)" "failure_threshold ?c = failure_threshold b"
    using failures_count [of b ts] assms by simp_all
  then have "cb_state (snd (call (Fail t) ?c)) = OPEN" "last_failure_time (snd (call (Fail t) ?c)) = Some t"
    using assms(3) by (simp_all add: record_failure_def Let_def)
  then show ?thesis using c(1) assms(4)
    by (simp add: Let_def is_available_def local_available_def truthy_time_def)
qed

theorem opens_at_threshold_witness:
  "cb_state (snd (call (Fail 3) (snd (calls (map Fail [1, 2]) (new_breaker 3 120 1 600 3))))) = OPEN"
  using opens_at_threshold [of "new_breaker 3 120 1 600 3" "[1, 2]" 3]
  by (simp add: new_breaker_def Let_def del: call.simps calls.simps list.map)

lemma asks_half_open:
  "cb_state b = HALF_OPEN \<Longrightarrow> half_open_attempts b \<le> half_open_max_retries b \<Longrightarrow>
   int (fst (calls (map Ask ts) b)) \<le> half_open_max_retries b - half_open_attempts b"
proof (induction ts arbitrary: b)
  case (Cons t ts)
  let ?b = "b\<lparr>half_open_attempts := half_open_attempts b + 1\<rparr>"
  show ?case
  proof (cases "half_open_attempts b < half_open_max_retries b")
    case True
    with Cons.IH [of ?b] Cons.prems show ?thesis
      by (simp add: Let_def case_prod_beta is_available_def local_available_def)
  next
    case False
    with Cons.IH [of b] Cons.prems show ?thesis
      by (simp add: Let_def case_prod_beta is_available_def local_available_def)
  qed
qed simp

text \<open>
  Between two results, an open breaker lets through at most one request more than
  \<open>half_open_max_retries\<close>: the request that moves it to half-open is admitted but not counted.
\<close>

theorem probes_bounded:
  assumes "cb_state b = OPEN" "0 \<le> half_open_max_retries b"
  shows "int (fst (calls (map Ask ts) b)) \<le> half_open_max_retries b + 1"
  using assms
proof (induction ts arbitrary: b)
  case (Cons t ts)
  show ?case
  proof (cases "fst (call (Ask t) b)")
    case True
    then have "snd (call (Ask t) b) = b\<lparr>cb_state := HALF_OPEN, half_open_attempts := 0\<rparr>"
      using Cons.prems by (auto simp: is_available_def local_available_def split: option.splits if_splits)
    with asks_half_open [of "b\<lparr>cb_state := HALF_OPEN, half_open_attempts := 0\<rparr>" ts] Cons.prems True
    show ?thesis by (simp add: Let_def case_prod_beta)
  next
    case False
    then have "snd (call (Ask t) b) = b"
      using Cons.prems by (auto simp: is_available_def local_available_def split: option.splits if_splits)
    with Cons False show ?thesis by (simp add: Let_def case_prod_beta)
  qed
qed simp

theorem probes_bounded_witness:
  "int (fst (calls (map Ask [500, 501, 502]) ((new_breaker 3 120 1 600 3)\<lparr>cb_state := OPEN, last_failure_time := Some 1\<rparr>))) \<le> 2"
  using probes_bounded [of "(new_breaker 3 120 1 600 3)\<lparr>cb_state := OPEN, last_failure_time := Some 1\<rparr>" "[500, 501, 502]"]
  by (simp add: new_breaker_def del: calls.simps list.map)

text \<open>
  A late success wedges an open breaker: if a request that was under way when the breaker opened
  succeeds (and fewer than \<open>stability_gate\<close> successes have come in a row), the time of the last
  failure is forgotten while the breaker stays open, and no request is admitted at any later time,
  however long the wait.
\<close>

theorem late_success_wedges:
  assumes "cb_state b = OPEN" "consecutive_successes b + 1 < stability_gate b"
  shows "let b' = snd (call Succeed b) in cb_state b' = OPEN \<and> fst (calls (map Ask ts) b') = 0 \<and> snd (calls (map Ask ts) b') = b'"
proof -
  let ?b = "snd (call Succeed b)"
  have b: "cb_state ?b = OPEN" "last_failure_time ?b = None" using assms by (simp_all add: record_success_def Let_def)
  then have "fst (calls (map Ask ts) ?b) = 0 \<and> snd (calls (map Ask ts) ?b) = ?b"
    by (induction ts) (simp_all add: is_available_def local_available_def truthy_time_def Let_def case_prod_beta del: call.simps(2))
  with b show ?thesis by (simp add: Let_def)
qed

theorem late_success_wedges_witness:
  "fst (calls (map Ask [10000, 20000]) (snd (call Succeed ((new_breaker 3 120 1 600 3)\<lparr>cb_state := OPEN, last_failure_time := Some 1\<rparr>)))) = 0"
  using late_success_wedges [of "(new_breaker 3 120 1 600 3)\<lparr>cb_state := OPEN, last_failure_time := Some 1\<rparr>" "[10000, 20000]"]
  by (simp add: new_breaker_def Let_def del: calls.simps call.simps list.map)

end
