(* ===== verification/RateLimit.thy ===== *)
theory RateLimit
  imports PyNum "HOL-Library.AList"
begin

text \<open>
  Rate limiting of AI requests: the in-process token buckets (\<open>app/ai/local_rate_limiter.py\<close>), the
  Redis buckets, the limiter that falls back from one to the other, and the shared connection with
  its circuit breaker (\<open>app/ai/rate_limiter.py\<close>). Clock readings are arguments; a script or
  command of the Redis server either runs or raises.
\<close>

section \<open>Token buckets in the process\<close>

record bucket =
  b_rate :: pyfloat
  b_burst :: int
  b_tokens :: pyfloat
  b_last_refill :: pyfloat

definition new_bucket :: "pyfloat \<Rightarrow> pyfloat \<Rightarrow> int \<Rightarrow> bucket" where
  "new_bucket now rate burst = \<lparr>b_rate = rate, b_burst = burst, b_tokens = of_int burst, b_last_refill = now\<rparr>"

definition refilled :: "pyfloat \<Rightarrow> bucket \<Rightarrow> pyfloat" where
  "refilled now b =
     (let elapsed = fsub now (b_last_refill b)
      in min (of_int (b_burst b)) (fadd (b_tokens b) (fmul elapsed (b_rate b))))"

definition consume :: "pyfloat \<Rightarrow> pyfloat \<Rightarrow> bucket \<Rightarrow> bool \<times> bucket" where
  "consume now tokens b =
     (let t = refilled now b in
      if tokens \<le> t then (True, b\<lparr>b_tokens := fsub t tokens, b_last_refill := now\<rparr>)
      else (False, b\<lparr>b_tokens := t, b_last_refill := now\<rparr>))"

definition available :: "pyfloat \<Rightarrow> bucket \<Rightarrow> pyfloat" where
  "available now b = refilled now b"

section \<open>The local limiter\<close>

type_synonym buckets = "(string \<times> bucket \<times> pyfloat) list"

definition cleanup_ttl :: pyfloat where "cleanup_ttl = 30"

definition get_bucket :: "pyfloat \<Rightarrow> pyfloat \<Rightarrow> string \<Rightarrow> pyfloat \<Rightarrow> int \<Rightarrow> buckets \<Rightarrow> bucket \<times> pyfloat" where
  \<comment> \<open>the bucket to use and its creation time; \<open>now'\<close> is read by the constructor\<close>
  "get_bucket now now' key rate burst bs =
     (case map_of bs key of
        Some (b, created) \<Rightarrow> if fsub now created < cleanup_ttl then (b, created) else (new_bucket now' rate burst, now)
      | None \<Rightarrow> (new_bucket now' rate burst, now))"

definition check_key :: "(nat \<Rightarrow> pyfloat) \<Rightarrow> string \<Rightarrow> pyfloat \<Rightarrow> int \<Rightarrow> buckets \<Rightarrow> bool \<times> buckets" where
  \<comment> \<open>\<open>tick 0, tick 1, tick 2\<close>: the readings of the clock of one check\<close>
  "check_key tick key rate burst bs =
     (let (b, created) = get_bucket (tick 0) (tick 1) key rate burst bs;
          (ok, b') = consume (tick 2) 1 b
      in (ok, AList.update key (b', created) bs))"

definition local_user :: "(nat \<Rightarrow> pyfloat) \<Rightarrow> string \<Rightarrow> pyfloat option \<Rightarrow> int option \<Rightarrow> buckets \<Rightarrow> bool \<times> buckets" where
  "local_user tick user rate burst = check_key tick (''user:'' @ user)
     (case rate of Some r \<Rightarrow> r | None \<Rightarrow> 1) (case burst of Some b \<Rightarrow> b | None \<Rightarrow> 3)"

definition local_tenant :: "(nat \<Rightarrow> pyfloat) \<Rightarrow> string \<Rightarrow> pyfloat option \<Rightarrow> int option \<Rightarrow> buckets \<Rightarrow> bool \<times> buckets" where
  "local_tenant tick company rate burst = check_key tick (''tenant:'' @ company)
     (case rate of Some r \<Rightarrow> r | None \<Rightarrow> 5) (case burst of Some b \<Rightarrow> b | None \<Rightarrow> 15)"

definition local_global :: "(nat \<Rightarrow> pyfloat) \<Rightarrow> pyfloat option \<Rightarrow> int option \<Rightarrow> buckets \<Rightarrow> bool \<times> buckets" where
  "local_global tick rate burst = check_key tick ''global''
     (case rate of Some r \<Rightarrow> r | None \<Rightarrow> 5) (case burst of Some b \<Rightarrow> b | None \<Rightarrow> 10)"

definition local_ip :: "(nat \<Rightarrow> pyfloat) \<Rightarrow> string \<Rightarrow> pyfloat option \<Rightarrow> int option \<Rightarrow> buckets \<Rightarrow> bool \<times> buckets" where
  "local_ip tick ip rate burst = check_key tick (''ip:'' @ ip)
     (case rate of Some r \<Rightarrow> r | None \<Rightarrow> 10) (case burst of Some b \<Rightarrow> b | None \<Rightarrow> 20)"

datatype limit_answer = Allowed | Global_exceeded | Tenant_exceeded | User_exceeded | IP_exceeded

definition local_check_all :: "(nat \<Rightarrow> pyfloat) \<Rightarrow> string \<Rightarrow> string \<Rightarrow> string \<Rightarrow> buckets \<Rightarrow> limit_answer \<times> buckets" where
  "local_check_all tick user company ip bs =
     (let (ok, bs1) = local_global tick None None bs in
      if \<not> ok then (Global_exceeded, bs1) else
      let (ok, bs2) = (if company \<noteq> [] then local_tenant (\<lambda>i. tick (3 + i)) company None None bs1 else (True, bs1)) in
      if \<not> ok then (Tenant_exceeded, bs2) else
      let (ok, bs3) = (if user \<noteq> [] then local_user (\<lambda>i. tick (6 + i)) user None None bs2 else (True, bs2)) in
      if \<not> ok then (User_exceeded, bs3) else
      let (ok, bs4) = (if ip \<noteq> [] then local_ip (\<lambda>i. tick (9 + i)) ip None None bs3 else (True, bs3)) in
      if \<not> ok then (IP_exceeded, bs4) else (Allowed, bs4))"

definition local_cleanup :: "pyfloat \<Rightarrow> buckets \<Rightarrow> buckets" where
  "local_cleanup now bs = filter (\<lambda>(k, b, t). \<not> cleanup_ttl < fsub now t) bs"

section \<open>Redis buckets\<close>

record redis_bucket =
  rb_tokens :: pyfloat
  rb_ts :: pyfloat
  rb_expires :: pyfloat

definition live :: "pyfloat \<Rightarrow> redis_bucket option \<Rightarrow> redis_bucket option" where
  \<comment> \<open>a key whose time to live has run out is gone\<close>
  "live now h = (case h of Some r \<Rightarrow> if now < rb_expires r then Some r else None | None \<Rightarrow> None)"

definition run_script :: "pyfloat \<Rightarrow> pyfloat \<Rightarrow> int \<Rightarrow> pyfloat \<Rightarrow> redis_bucket option \<Rightarrow> bool \<times> redis_bucket" where
  "run_script now rate burst tokens stored =
     (let store = (\<lambda>t. \<lparr>rb_tokens = t, rb_ts = now, rb_expires = now + 3600\<rparr>) in
      case live now stored of
        Some r \<Rightarrow>
          let elapsed = fsub now (rb_ts r);
              new_tokens = min (of_int burst) (fadd (rb_tokens r) (fmul elapsed rate))
          in if tokens \<le> new_tokens then (True, store (fsub new_tokens tokens)) else (False, store new_tokens)
      | None \<Rightarrow> (True, store (fsub (of_int burst) tokens)))"

section \<open>The limiter with its fallback\<close>

datatype script_run = No_client | Script_raises | Script_runs

record limiter =
  lm_local :: buckets
  lm_redis :: "string \<Rightarrow> redis_bucket option"

record limits =
  user_rate :: pyfloat
  user_burst :: int
  tenant_rate :: pyfloat
  tenant_burst :: int
  global_rate :: pyfloat
  global_burst :: int
  workers :: int

definition check_with_fallback ::
    "script_run \<Rightarrow> pyfloat \<Rightarrow> (nat \<Rightarrow> pyfloat) \<Rightarrow> int \<Rightarrow> string \<Rightarrow> string \<Rightarrow> pyfloat \<Rightarrow> int \<Rightarrow> limiter \<Rightarrow> bool \<times> limiter" where
  \<comment> \<open>\<open>wall\<close>: \<open>time.time()\<close>; \<open>check_fn\<close> and \<open>local_key\<close> as in the code\<close>
  "check_with_fallback run wall tick n_workers check_fn local_key rate burst l =
     (if run = Script_runs then
        (let key = ''rl:'' @ local_key @ '':'' @ (if local_key = ''global'' then ''global'' else local_key);
             (ok, r) = run_script wall rate burst 1 (lm_redis l key)
         in (ok, l\<lparr>lm_redis := (lm_redis l)(key \<mapsto> r)\<rparr>))
      else
        (let scaled_rate = fdiv rate (fmul (of_int n_workers) (f64 (3/2)));
             scaled_burst = max 1 (burst div (n_workers * 2));
             (ok, bs) = (if local_key = ''global'' then local_global tick (Some scaled_rate) (Some scaled_burst) (lm_local l)
                         else if local_key = ''user'' then local_user tick check_fn (Some scaled_rate) (Some scaled_burst) (lm_local l)
                         else if local_key = ''ip'' then local_ip tick check_fn (Some scaled_rate) (Some scaled_burst) (lm_local l)
                         else local_tenant tick check_fn (Some scaled_rate) (Some scaled_burst) (lm_local l))
         in (ok, l\<lparr>lm_local := bs\<rparr>)))"

definition check_user :: "script_run \<Rightarrow> pyfloat \<Rightarrow> (nat \<Rightarrow> pyfloat) \<Rightarrow> limits \<Rightarrow> string \<Rightarrow> limiter \<Rightarrow> bool \<times> limiter" where
  "check_user run wall tick s user = check_with_fallback run wall tick (workers s) user ''user'' (user_rate s) (user_burst s)"

definition check_tenant :: "script_run \<Rightarrow> pyfloat \<Rightarrow> (nat \<Rightarrow> pyfloat) \<Rightarrow> limits \<Rightarrow> string \<Rightarrow> limiter \<Rightarrow> bool \<times> limiter" where
  "check_tenant run wall tick s company = check_with_fallback run wall tick (workers s) company ''tenant'' (tenant_rate s) (tenant_burst s)"

definition check_global :: "script_run \<Rightarrow> pyfloat \<Rightarrow> (nat \<Rightarrow> pyfloat) \<Rightarrow> limits \<Rightarrow> limiter \<Rightarrow> bool \<times> limiter" where
  "check_global run wall tick s = check_with_fallback run wall tick (workers s) ''global'' ''global'' (global_rate s) (global_burst s)"

definition check_ip :: "script_run \<Rightarrow> pyfloat \<Rightarrow> (nat \<Rightarrow> pyfloat) \<Rightarrow> limits \<Rightarrow> string \<Rightarrow> limiter \<Rightarrow> bool \<times> limiter" where
  "check_ip run wall tick s ip = check_with_fallback run wall tick (workers s) ip ''ip'' 10 20"

definition check_all ::
    "(nat \<Rightarrow> script_run) \<Rightarrow> (nat \<Rightarrow> pyfloat) \<Rightarrow> (nat \<Rightarrow> pyfloat) \<Rightarrow> limits \<Rightarrow> string \<Rightarrow> string \<Rightarrow> string \<Rightarrow> limiter \<Rightarrow> limit_answer \<times> limiter" where
  \<comment> \<open>\<open>run i\<close>, \<open>wall i\<close>: what the check of level \<open>i\<close> meets and reads\<close>
  "check_all run wall tick s user company ip l =
     (let (ok, l1) = check_global (run 0) (wall 0) tick s l in
      if \<not> ok then (Global_exceeded, l1) else
      let (ok, l2) = (if company \<noteq> [] then check_tenant (run 1) (wall 1) (\<lambda>i. tick (3 + i)) s company l1 else (True, l1)) in
      if \<not> ok then (Tenant_exceeded, l2) else
      let (ok, l3) = (if user \<noteq> [] then check_user (run 2) (wall 2) (\<lambda>i. tick (6 + i)) s user l2 else (True, l2)) in
      if \<not> ok then (User_exceeded, l3) else
      let (ok, l4) = (if ip \<noteq> [] then check_ip (run 3) (wall 3) (\<lambda>i. tick (9 + i)) s ip l3 else (True, l3)) in
      if \<not> ok then (IP_exceeded, l4) else (Allowed, l4))"

definition remaining_user :: "script_run \<Rightarrow> pyfloat \<Rightarrow> limits \<Rightarrow> string \<Rightarrow> limiter \<Rightarrow> int" where
  "remaining_user run wall s user l =
     (if run = Script_runs then
        (case live wall (lm_redis l (''rl:user:'' @ user)) of
           Some r \<Rightarrow> max 0 (if 0 \<le> rb_tokens r then \<lfloor>rb_tokens r\<rfloor> else - \<lfloor>- rb_tokens r\<rfloor>)
         | None \<Rightarrow> user_burst s)
      else user_burst s)"

section \<open>The shared connection\<close>

record connection =
  rc_client :: bool
  rc_available :: bool
  rc_last_check :: pyfloat
  rc_fallback :: bool
  rs_circuit :: "pyfloat option"
  rs_failures :: int

definition get_redis :: "bool \<Rightarrow> bool \<Rightarrow> pyfloat \<Rightarrow> connection \<Rightarrow> bool \<times> connection" where
  \<comment> \<open>\<open>cmds\<close>: ordinary commands run (otherwise each raises); \<open>ping\<close>: the ping runs. \<open>rs_circuit\<close> is the expiry of the circuit key on the server. The answer: a client is returned\<close>
  "get_redis cmds ping now c =
     (let open_now = (rc_client c \<and> cmds \<and> (case rs_circuit c of Some e \<Rightarrow> now < e | None \<Rightarrow> False)) in
      if open_now then (False, c\<lparr>rc_fallback := True\<rparr>)
      else if rc_available c \<and> fsub now (rc_last_check c) < 30 then (rc_client c, c\<lparr>rc_fallback := False\<rparr>)
      else if ping \<and> cmds then
        (True, c\<lparr>rc_client := True, rc_available := True, rc_last_check := now, rc_fallback := False,
                 rs_circuit := None, rs_failures := 0\<rparr>)
      else
        (let c1 = c\<lparr>rc_client := True\<rparr>;
             c2 = (if cmds then
                     let n = rs_failures c1 + 1; cooldown = min (60 * 2 ^ nat (n - 1)) 300
                     in c1\<lparr>rs_failures := n, rs_circuit := Some (now + cooldown)\<rparr>
                   else c1)
         in (False, c2\<lparr>rc_fallback := True, rc_available := False\<rparr>)))"

section \<open>How many requests a bucket lets through\<close>

text \<open>
  The contract of a leaky bucket, up to the rounding of floats: its level stays between nothing
  and its capacity, and a request costs one unit that only time gives back. The bound on the
  number of admitted requests is proved from it once.
\<close>

definition slack :: rat where
  "slack = 1 / 2 ^ 50"

fun takes :: "(rat \<Rightarrow> 's \<Rightarrow> bool \<times> 's) \<Rightarrow> rat list \<Rightarrow> 's \<Rightarrow> nat \<times> 's" where
  \<comment> \<open>requests at the given times; the number admitted\<close>
  "takes f [] s = (0, s)"
| "takes f (t # ts) s = (let (ok, s1) = f t s; (n, s2) = takes f ts s1 in (n + (if ok then 1 else 0), s2))"

locale leaky_bucket =
  fixes level :: "'s \<Rightarrow> rat" and clock :: "'s \<Rightarrow> rat" and cap :: "'s \<Rightarrow> rat" and rate :: "'s \<Rightarrow> rat"
    and take_one :: "rat \<Rightarrow> 's \<Rightarrow> bool \<times> 's" and ok :: "'s \<Rightarrow> bool"
  assumes bounds: "ok s \<Longrightarrow> 0 \<le> level s \<and> level s \<le> cap s \<and> 0 \<le> rate s"
    and take_ok: "ok s \<Longrightarrow> clock s \<le> now \<Longrightarrow> ok (snd (take_one now s)) \<and> clock (snd (take_one now s)) = now \<and>
          cap (snd (take_one now s)) = cap s \<and> rate (snd (take_one now s)) = rate s"
    and take_level: "ok s \<Longrightarrow> clock s \<le> now \<Longrightarrow>
          level (snd (take_one now s)) + (if fst (take_one now s) then 1 else 0)
            \<le> level s + rate s * (now - clock s) * (1 + slack) + cap s * slack"
begin

lemma takes_level:
  "ok s \<Longrightarrow> sorted (clock s # ts) \<Longrightarrow>
   level (snd (takes take_one ts s)) + of_nat (fst (takes take_one ts s))
     \<le> level s + rate s * (last (clock s # ts) - clock s) * (1 + slack) + of_nat (length ts) * (cap s * slack)"
proof (induction ts arbitrary: s)
  case (Cons t ts)
  let ?s = "snd (take_one t s)"
  have t: "clock s \<le> t" and ts: "sorted (t # ts)" using Cons.prems(2) by auto
  note k = take_ok [OF Cons.prems(1) t]
  let ?g = "if fst (take_one t s) then 1 else 0 :: rat"
  have run: "snd (takes take_one (t # ts) s) = snd (takes take_one ts ?s)"
    "of_nat (fst (takes take_one (t # ts) s)) = of_nat (fst (takes take_one ts ?s)) + ?g"
    by (simp_all add: case_prod_beta Let_def)
  have "level (snd (takes take_one ts ?s)) + of_nat (fst (takes take_one ts ?s))
      \<le> level ?s + rate s * (last (t # ts) - t) * (1 + slack) + of_nat (length ts) * (cap s * slack)"
    using Cons.IH [of ?s] k ts by simp
  moreover note take_level [OF Cons.prems(1) t]
  moreover have "rate s * (last (clock s # t # ts) - clock s) * (1 + slack)
      = rate s * (last (t # ts) - t) * (1 + slack) + rate s * (t - clock s) * (1 + slack)"
    by (simp add: algebra_simps)
  moreover have "of_nat (length (t # ts)) * (cap s * slack) = cap s * slack + of_nat (length ts) * (cap s * slack)"
    by (simp add: distrib_right)
  ultimately show ?case unfolding run by linarith
qed simp

lemma admitted_bound:
  assumes "ok s" "sorted (clock s # ts)"
  shows "of_nat (fst (takes take_one ts s))
     \<le> cap s + rate s * (last (clock s # ts) - clock s) * (1 + slack) + of_nat (length ts) * (cap s * slack)"
proof -
  have "ok (snd (takes take_one ts s))" using assms
    by (induction ts arbitrary: s) (simp_all add: case_prod_beta Let_def take_ok)
  then have "0 \<le> level (snd (takes take_one ts s))" using bounds by blast
  with takes_level [OF assms] bounds [OF assms(1)] show ?thesis by linarith
qed

end

subsection \<open>Rounding errors of a refill\<close>

lemma f64_upper: "0 \<le> x \<Longrightarrow> f64 x \<le> x * (1 + 1 / 2 ^ 53)"
proof -
  assume "0 \<le> x"
  then have "f64 x - x \<le> x / 2 ^ 53" using f64_err [of x] by (metis abs_le_D1 abs_of_nonneg)
  then show ?thesis by (simp add: algebra_simps)
qed

lemma refill_upper:
  assumes "0 \<le> tok" "tok \<le> burst" "0 \<le> r" "prev \<le> now"
  shows "fadd tok (fmul (fsub now prev) r) \<le> tok + r * (now - prev) * (1 + slack) + burst * (1 / 2 ^ 53)"
proof -
  define u where "u = (1 + 1 / 2 ^ 53 :: rat)"
  have u: "0 \<le> u" "u * u * u \<le> 1 + slack" "tok * u = tok + tok * (1 / 2 ^ 53)"
    by (simp_all add: u_def slack_def algebra_simps)
  have e: "fsub now prev \<le> (now - prev) * u" "0 \<le> fsub now prev"
    using assms(4) f64_upper [of "now - prev"] by (simp_all add: fsub_def u_def del: one_add_one)
  then have "fsub now prev * r \<le> (now - prev) * u * r" using assms(3) by (intro mult_right_mono)
  moreover have "fmul (fsub now prev) r \<le> (fsub now prev * r) * u"
    unfolding fmul_def u_def using e assms(3) by (intro f64_upper) simp
  ultimately have m: "fmul (fsub now prev) r \<le> (now - prev) * u * r * u"
    using u(1) by (meson order.trans mult_right_mono)
  have m0: "0 \<le> fmul (fsub now prev) r" using e assms(3) by (simp add: fmul_def)
  have "fadd tok (fmul (fsub now prev) r) \<le> (tok + fmul (fsub now prev) r) * u"
    unfolding fadd_def u_def using m0 assms(1) by (intro f64_upper) simp
  also have "\<dots> \<le> (tok + (now - prev) * u * r * u) * u" using m u(1) by (intro mult_right_mono) simp_all
  also have "\<dots> = tok * u + r * (now - prev) * (u * u * u)" by (simp add: algebra_simps)
  also have "\<dots> = tok + tok * (1 / 2 ^ 53) + r * (now - prev) * (u * u * u)" by (simp only: u(3))
  also have "\<dots> \<le> tok + burst * (1 / 2 ^ 53) + r * (now - prev) * (1 + slack)"
  proof (intro add_mono mult_left_mono mult_right_mono order_refl)
    show "u * u * u \<le> 1 + slack" by (rule u(2))
  qed (use assms in simp_all)
  finally show ?thesis by simp
qed

lemma spend_upper:
  assumes "1 \<le> t" "t \<le> burst" "is_f64 burst"
  shows "fsub t 1 \<le> t - 1 + burst * (1 / 2 ^ 53)" "0 \<le> fsub t 1" "fsub t 1 \<le> burst"
proof -
  have "fsub t 1 \<le> (t - 1) * (1 + 1 / 2 ^ 53)" unfolding fsub_def using assms by (intro f64_upper) simp
  also have "\<dots> = t - 1 + (t - 1) * (1 / 2 ^ 53)" by (simp only: distrib_left mult_1_right)
  also have "\<dots> \<le> t - 1 + burst * (1 / 2 ^ 53)" using assms(2) by (intro add_left_mono mult_right_mono) simp_all
  finally show "fsub t 1 \<le> t - 1 + burst * (1 / 2 ^ 53)" .
  show "0 \<le> fsub t 1" using assms by simp
  show "fsub t 1 \<le> burst" unfolding fsub_def using assms by (intro f64_le_iff) simp_all
qed

lemma two_errors: "0 \<le> burst \<Longrightarrow> burst * (1 / 2 ^ 53) + burst * (1 / 2 ^ 53) \<le> burst * slack"
  unfolding slack_def by (subst distrib_left [symmetric], intro mult_left_mono) simp_all

subsection \<open>The two kinds of bucket keep the contract\<close>

definition bucket_ok :: "bucket \<Rightarrow> bool" where
  "bucket_ok b \<longleftrightarrow> 0 \<le> b_rate b \<and> 0 \<le> b_tokens b \<and> b_tokens b \<le> of_int (b_burst b) \<and> b_burst b \<le> 2 ^ 53"

lemma is_f64_burst: "0 \<le> n \<Longrightarrow> n \<le> 2 ^ 53 \<Longrightarrow> is_f64 (of_int n)"
  by (simp add: is_f64_def f64_of_int)

lemma refilled_bounds:
  assumes "bucket_ok b" "b_last_refill b \<le> now"
  shows "0 \<le> refilled now b" "refilled now b \<le> of_int (b_burst b)"
    "refilled now b \<le> b_tokens b + b_rate b * (now - b_last_refill b) * (1 + slack) + of_int (b_burst b) * (1 / 2 ^ 53)"
proof -
  have burst: "0 \<le> (of_int (b_burst b) :: rat)" using assms by (simp add: bucket_ok_def)
  show "0 \<le> refilled now b" using assms burst by (simp add: refilled_def Let_def bucket_ok_def)
  show "refilled now b \<le> of_int (b_burst b)" by (simp add: refilled_def Let_def)
  show "refilled now b \<le> b_tokens b + b_rate b * (now - b_last_refill b) * (1 + slack) + of_int (b_burst b) * (1 / 2 ^ 53)"
    using refill_upper [of "b_tokens b" "of_int (b_burst b)" "b_rate b" "b_last_refill b" now] assms
    by (auto simp: refilled_def Let_def bucket_ok_def min_le_iff_disj)
qed

lemma consume_keeps:
  assumes "bucket_ok b" "b_last_refill b \<le> now"
  shows "bucket_ok (snd (consume now 1 b))"
    "b_tokens (snd (consume now 1 b)) + (if fst (consume now 1 b) then 1 else 0)
       \<le> b_tokens b + b_rate b * (now - b_last_refill b) * (1 + slack) + of_int (b_burst b) * slack"
proof -
  note r = refilled_bounds [OF assms]
  have b0: "0 \<le> b_burst b" using assms(1) by (simp add: bucket_ok_def)
  then have f: "is_f64 (of_int (b_burst b))" using assms(1) by (simp add: bucket_ok_def is_f64_burst)
  have e: "(of_int (b_burst b) :: rat) * (1 / 2 ^ 53) \<le> of_int (b_burst b) * slack"
    using two_errors [of "of_int (b_burst b)"] b0 by simp
  show "bucket_ok (snd (consume now 1 b))"
    using r assms(1) spend_upper [OF _ r(2) f] by (simp add: consume_def Let_def bucket_ok_def)
  show "b_tokens (snd (consume now 1 b)) + (if fst (consume now 1 b) then 1 else 0)
       \<le> b_tokens b + b_rate b * (now - b_last_refill b) * (1 + slack) + of_int (b_burst b) * slack"
  proof (cases "1 \<le> refilled now b")
    case True
    with spend_upper(1) [OF True r(2) f] r(3) two_errors [of "of_int (b_burst b)"] b0
    show ?thesis by (simp add: consume_def Let_def)
  next
    case False
    with r(3) e show ?thesis by (simp add: consume_def Let_def)
  qed
qed

interpretation local_bucket: leaky_bucket b_tokens b_last_refill "\<lambda>b. of_int (b_burst b)" b_rate "\<lambda>now. consume now 1" bucket_ok
proof unfold_locales
  fix b and now :: rat
  assume b: "bucket_ok b"
  then show "0 \<le> b_tokens b \<and> b_tokens b \<le> of_int (b_burst b) \<and> 0 \<le> b_rate b" by (simp add: bucket_ok_def)
  assume n: "b_last_refill b \<le> now"
  show "bucket_ok (snd (consume now 1 b)) \<and> b_last_refill (snd (consume now 1 b)) = now \<and>
      of_int (b_burst (snd (consume now 1 b))) = of_int (b_burst b) \<and> b_rate (snd (consume now 1 b)) = b_rate b"
    using consume_keeps(1) [OF b n] by (simp add: consume_def Let_def)
  show "b_tokens (snd (consume now 1 b)) + (if fst (consume now 1 b) then 1 else 0)
      \<le> b_tokens b + b_rate b * (now - b_last_refill b) * (1 + slack) + of_int (b_burst b) * slack"
    by (rule consume_keeps(2) [OF b n])
qed

record redis_state =
  rs_rate :: pyfloat
  rs_burst :: int
  rs_hash :: "redis_bucket option"

definition redis_consume :: "pyfloat \<Rightarrow> redis_state \<Rightarrow> bool \<times> redis_state" where
  \<comment> \<open>one request against one key with fixed settings\<close>
  "redis_consume now s =
     (let (ok, r) = run_script now (rs_rate s) (rs_burst s) 1 (rs_hash s) in (ok, s\<lparr>rs_hash := Some r\<rparr>))"

definition redis_level :: "redis_state \<Rightarrow> rat" where
  "redis_level s = (case rs_hash s of Some r \<Rightarrow> rb_tokens r | None \<Rightarrow> of_int (rs_burst s))"

definition redis_clock :: "redis_state \<Rightarrow> rat" where
  "redis_clock s = (case rs_hash s of Some r \<Rightarrow> rb_ts r | None \<Rightarrow> 0)"

definition redis_ok :: "redis_state \<Rightarrow> bool" where
  \<comment> \<open>an idle hour fills the bucket, so that expiry of the key gives nothing away\<close>
  "redis_ok s \<longleftrightarrow> 1 \<le> rs_burst s \<and> rs_burst s \<le> 2 ^ 53 \<and> 0 \<le> rs_rate s \<and> of_int (rs_burst s) \<le> rs_rate s * 3600 \<and>
     (case rs_hash s of
        Some r \<Rightarrow> 0 \<le> rb_tokens r \<and> rb_tokens r \<le> of_int (rs_burst s) \<and> rb_expires r = rb_ts r + 3600
      | None \<Rightarrow> True)"

lemma redis_keeps:
  assumes ok: "redis_ok s" and now: "redis_clock s \<le> now"
  shows "redis_ok (snd (redis_consume now s)) \<and> redis_clock (snd (redis_consume now s)) = now \<and>
         redis_level (snd (redis_consume now s)) + (if fst (redis_consume now s) then 1 else 0)
           \<le> redis_level s + rs_rate s * (now - redis_clock s) * (1 + slack) + of_int (rs_burst s) * slack"
proof -
  let ?B = "of_int (rs_burst s) :: rat"
  have B: "1 \<le> ?B" "is_f64 ?B" "0 \<le> rs_rate s" using ok by (simp_all add: redis_ok_def is_f64_burst)
  have e: "?B * (1 / 2 ^ 53) \<le> ?B * slack" using two_errors [of ?B] B by simp
  have e2: "?B * (1 / 2 ^ 53) + ?B * (1 / 2 ^ 53) \<le> ?B * slack" using two_errors [of ?B] B by simp
  show ?thesis
  proof (cases "live now (rs_hash s)")
    case (Some r)
    then have r: "rs_hash s = Some r" by (auto simp: live_def split: option.splits if_splits)
    let ?t = "min ?B (fadd (rb_tokens r) (fmul (fsub now (rb_ts r)) (rs_rate s)))"
    have rt: "0 \<le> rb_tokens r" "rb_tokens r \<le> ?B" "rb_ts r \<le> now"
      using ok now r by (simp_all add: redis_ok_def redis_clock_def)
    have up: "?t \<le> rb_tokens r + rs_rate s * (now - rb_ts r) * (1 + slack) + ?B * (1 / 2 ^ 53)"
      using refill_upper [OF rt(1,2) B(3) rt(3)] by (simp add: min_le_iff_disj)
    have t: "0 \<le> ?t" "?t \<le> ?B" using rt B by simp_all
    have run: "redis_consume now s = (1 \<le> ?t, s\<lparr>rs_hash := Some \<lparr>rb_tokens = (if 1 \<le> ?t then fsub ?t 1 else ?t),
        rb_ts = now, rb_expires = now + 3600\<rparr>\<rparr>)"
      using Some r by (simp add: redis_consume_def run_script_def Let_def)
    have lv: "redis_level s = rb_tokens r" "redis_clock s = rb_ts r" using r by (simp_all add: redis_level_def redis_clock_def)
    show ?thesis
    proof (cases "1 \<le> ?t")
      case True
      note sp = spend_upper [OF True t(2) B(2)]
      have "fsub ?t 1 + 1 \<le> rb_tokens r + rs_rate s * (now - rb_ts r) * (1 + slack) + ?B * slack"
        using sp(1) up e2 by linarith
      then show ?thesis using sp(2,3) ok True unfolding run lv
        by (simp add: redis_ok_def redis_level_def redis_clock_def)
    next
      case False
      have "?t \<le> rb_tokens r + rs_rate s * (now - rb_ts r) * (1 + slack) + ?B * slack" using up e by linarith
      then show ?thesis using t ok False unfolding run lv
        by (simp add: redis_ok_def redis_level_def redis_clock_def)
    qed
  next
    case None
    note sp = spend_upper [OF B(1) order_refl B(2)]
    have run: "redis_consume now s = (True, s\<lparr>rs_hash := Some \<lparr>rb_tokens = fsub ?B 1, rb_ts = now, rb_expires = now + 3600\<rparr>\<rparr>)"
      using None by (simp add: redis_consume_def run_script_def Let_def)
    have full: "?B \<le> redis_level s + rs_rate s * (now - redis_clock s) * (1 + slack)"
    proof (cases "rs_hash s")
      case None
      then show ?thesis using B now by (simp add: redis_level_def redis_clock_def slack_def)
    next
      case (Some r)
      then have "rb_ts r + 3600 \<le> now" "0 \<le> rb_tokens r" "?B \<le> rs_rate s * 3600"
        using None ok by (auto simp: live_def redis_ok_def split: if_splits)
      moreover from this have "rs_rate s * 3600 \<le> rs_rate s * (now - rb_ts r)" using B(3) by (intro mult_left_mono) simp_all
      moreover have "rs_rate s * (now - rb_ts r) * 1 \<le> rs_rate s * (now - rb_ts r) * (1 + slack)"
        using B(3) \<open>rb_ts r + 3600 \<le> now\<close> by (intro mult_left_mono) (simp_all add: slack_def)
      ultimately show ?thesis using Some by (simp add: redis_level_def redis_clock_def)
    qed
    have "fsub ?B 1 + 1 \<le> redis_level s + rs_rate s * (now - redis_clock s) * (1 + slack) + ?B * slack"
      using sp(1) full e by linarith
    then show ?thesis using sp(2,3) ok unfolding run
      by (simp add: redis_ok_def redis_level_def redis_clock_def)
  qed
qed

interpretation redis_bucket: leaky_bucket redis_level redis_clock "\<lambda>s. of_int (rs_burst s)" rs_rate redis_consume redis_ok
proof unfold_locales
  fix s and now :: rat
  assume s: "redis_ok s"
  then show "0 \<le> redis_level s \<and> redis_level s \<le> of_int (rs_burst s) \<and> 0 \<le> rs_rate s"
    by (auto simp: redis_ok_def redis_level_def split: option.splits)
  assume n: "redis_clock s \<le> now"
  have same: "rs_burst (snd (redis_consume now s)) = rs_burst s" "rs_rate (snd (redis_consume now s)) = rs_rate s"
    by (simp_all add: redis_consume_def Let_def case_prod_beta)
  show "redis_ok (snd (redis_consume now s)) \<and> redis_clock (snd (redis_consume now s)) = now \<and>
      of_int (rs_burst (snd (redis_consume now s))) = of_int (rs_burst s) \<and> rs_rate (snd (redis_consume now s)) = rs_rate s"
    using redis_keeps [OF s n] same by simp
  show "redis_level (snd (redis_consume now s)) + (if fst (redis_consume now s) then 1 else 0)
      \<le> redis_level s + rs_rate s * (now - redis_clock s) * (1 + slack) + of_int (rs_burst s) * slack"
    using redis_keeps [OF s n] by blast
qed

text \<open>
  The in-process bucket really limits: over any sequence of requests at increasing times, the
  number admitted is at most the burst plus rate times the time that passed, up to one part in
  2^50 for the rounding of floats.
\<close>

theorem local_bucket_admits:
  assumes "bucket_ok b" "sorted (b_last_refill b # ts)"
  shows "of_nat (fst (takes (\<lambda>now. consume now 1) ts b)) \<le>
           of_int (b_burst b) + b_rate b * (last (b_last_refill b # ts) - b_last_refill b) * (1 + slack)
             + of_nat (length ts) * (of_int (b_burst b) * slack)"
  using assms by (rule local_bucket.admitted_bound)

theorem local_bucket_admits_witness:
  "of_nat (fst (takes (\<lambda>now. consume now 1) [0, 1/2, 1] (new_bucket 0 1 3))) \<le> 3 + (1 + slack) + 3 * (3 * slack)"
  using local_bucket_admits [of "new_bucket 0 1 3" "[0, 1/2, 1]"]
  by (simp add: new_bucket_def bucket_ok_def del: takes.simps)

text \<open>
  The Redis script keeps the same bound for a key, from the first request on, also across
  the expiry of the key after an idle hour, whenever an hour refills the bucket.
\<close>

theorem redis_bucket_admits:
  assumes "redis_ok s" "sorted (redis_clock s # ts)"
  shows "of_nat (fst (takes redis_consume ts s)) \<le>
           of_int (rs_burst s) + rs_rate s * (last (redis_clock s # ts) - redis_clock s) * (1 + slack)
             + of_nat (length ts) * (of_int (rs_burst s) * slack)"
  using assms by (rule redis_bucket.admitted_bound)

theorem redis_bucket_admits_witness:
  "of_nat (fst (takes redis_consume [1, 2] \<lparr>rs_rate = 5, rs_burst = 15, rs_hash = Some \<lparr>rb_tokens = 2, rb_ts = 1, rb_expires = 3601\<rparr>\<rparr>))
     \<le> 15 + 5 * (1 + slack) + 2 * (15 * slack)"
  using redis_bucket_admits [of "\<lparr>rs_rate = 5, rs_burst = 15, rs_hash = Some \<lparr>rb_tokens = 2, rb_ts = 1, rb_expires = 3601\<rparr>\<rparr>" "[1, 2]"]
  by (simp add: redis_ok_def redis_clock_def del: takes.simps)

section \<open>Whose bucket is it?\<close>

text \<open>
  With Redis, the per-user (and per-tenant, and per-address) limit is one limit for everybody: the
  key of the bucket is made from the kind of limit, not from the user, so a request of any user
  is decided by, and charged to, the same bucket; and the remaining budget, which is read under the
  user's own key, is always reported as the full burst.
\<close>

theorem redis_limit_shared_by_all_users:
  "check_user Script_runs wall tick s u l = check_user Script_runs wall tick s v l \<and>
   check_tenant Script_runs wall tick s u l = check_tenant Script_runs wall tick s v l \<and>
   check_ip Script_runs wall tick s u l = check_ip Script_runs wall tick s v l \<and>
   (lm_redis l (''rl:user:'' @ u) = None \<and> u \<noteq> ''user'' \<longrightarrow>
      remaining_user Script_runs wall' s u (snd (check_user Script_runs wall tick s v l)) = user_burst s)"
  by (auto simp: check_user_def check_tenant_def check_ip_def check_with_fallback_def remaining_user_def live_def
      Let_def case_prod_beta)

theorem redis_limit_shared_by_all_users_witness:
  "remaining_user Script_runs 9 \<lparr>user_rate = 1, user_burst = 3, tenant_rate = 5, tenant_burst = 15, global_rate = 5,
     global_burst = 10, workers = 5\<rparr> ''ann'' (snd (check_user Script_runs 8 (\<lambda>_. 8) \<lparr>user_rate = 1, user_burst = 3,
     tenant_rate = 5, tenant_burst = 15, global_rate = 5, global_burst = 10, workers = 5\<rparr> ''ann''
     \<lparr>lm_local = [], lm_redis = (\<lambda>_. None)\<rparr>)) = 3"
  using redis_limit_shared_by_all_users [of 8 "\<lambda>_. 8" "\<lparr>user_rate = 1, user_burst = 3, tenant_rate = 5, tenant_burst = 15,
     global_rate = 5, global_burst = 10, workers = 5\<rparr>" "''ann''" "\<lparr>lm_local = [], lm_redis = (\<lambda>_. None)\<rparr>" "''ann''" 9]
  by simp

text \<open>
  In the process, each user has an own bucket: a check of one key leaves the others alone.
\<close>

lemma local_check_isolated:
  "key' \<noteq> key \<Longrightarrow> map_of (snd (check_key tick key rate burst bs)) key' = map_of bs key'"
  by (simp add: check_key_def Let_def case_prod_beta update_conv')

end
