(* ===== verification/Retries.thy ===== *)
theory Retries
  imports RateLimit
begin

text \<open>
  The two brakes on task retries: the per-job storm guard (\<open>app/tasks/retry_guard.py\<close>), with its
  counters in Redis and its in-process fallback, and the process-wide retry budget
  (\<open>app/tasks/retry_budget.py\<close>), a token bucket in integer arithmetic. Clock readings are arguments.
\<close>

section \<open>The storm guard\<close>

definition RETRY_WINDOW_SECONDS :: pyfloat where "RETRY_WINDOW_SECONDS = 300"
definition RETRY_MAX_PER_WINDOW :: int where "RETRY_MAX_PER_WINDOW = 5"

record retry_guard =
  rg_counts :: "(string \<times> int \<times> pyfloat) list"
  rg_last_cleanup :: pyfloat

definition guard_cleanup :: "pyfloat \<Rightarrow> retry_guard \<Rightarrow> retry_guard" where
  "guard_cleanup now s =
     (if 60 < fsub now (rg_last_cleanup s)
      then s\<lparr>rg_counts := filter (\<lambda>(k, c, ts). \<not> ts < fsub now RETRY_WINDOW_SECONDS) (rg_counts s), rg_last_cleanup := now\<rparr>
      else s)"

definition guard_set :: "string \<Rightarrow> int \<Rightarrow> pyfloat \<Rightarrow> retry_guard \<Rightarrow> retry_guard" where
  "guard_set key count ts s = s\<lparr>rg_counts := AList.update key (count, ts) (rg_counts s)\<rparr>"

definition guard_local :: "pyfloat \<Rightarrow> string \<Rightarrow> retry_guard \<Rightarrow> bool \<times> retry_guard" where
  "guard_local now key s0 =
     (let s = guard_cleanup now s0 in
      case map_of (rg_counts s) key of
        None \<Rightarrow> (True, guard_set key 1 now s)
      | Some (count, ts) \<Rightarrow>
          if RETRY_WINDOW_SECONDS < fsub now ts then (True, guard_set key 1 now s)
          else if RETRY_MAX_PER_WINDOW \<le> count then (False, s)
          else (True, guard_set key (count + 1) ts s))"

datatype guard_redis = No_redis | Redis_fails | Redis_counters "string \<rightharpoonup> int \<times> rat"
  \<comment> \<open>a counter with the time at which it expires\<close>

definition retry_key :: "string \<Rightarrow> string \<Rightarrow> string" where
  "retry_key task_name job_id = ''retry:'' @ task_name @ '':'' @ job_id"

definition live_counter :: "rat \<Rightarrow> (string \<rightharpoonup> int \<times> rat) \<Rightarrow> string \<Rightarrow> int" where
  "live_counter srv m key = (case m key of Some (n, expires) \<Rightarrow> if srv < expires then n else 0 | None \<Rightarrow> 0)"

definition check_retry_storm ::
    "pyfloat \<Rightarrow> rat \<Rightarrow> string \<Rightarrow> string \<Rightarrow> guard_redis \<times> retry_guard \<Rightarrow> bool \<times> guard_redis \<times> retry_guard" where
  \<comment> \<open>\<open>srv\<close> is the time of the server, \<open>now\<close> the monotonic clock of the process\<close>
  "check_retry_storm now srv job_id task_name = (\<lambda>(redis, s).
     let key = retry_key task_name job_id in
     case redis of
       Redis_counters m \<Rightarrow>
         if RETRY_MAX_PER_WINDOW \<le> live_counter srv m key then (False, redis, s)
         else (True, Redis_counters (m(key \<mapsto> (live_counter srv m key + 1, srv + 300))), s)
     | _ \<Rightarrow> (case guard_local now key s of (ok, s') \<Rightarrow> (ok, redis, s')))"

definition get_storm_status :: "pyfloat \<Rightarrow> retry_guard \<Rightarrow> (string \<times> int) list \<times> nat" where
  "get_storm_status now s =
     (map (\<lambda>(k, c, ts). (k, c))
        (filter (\<lambda>(k, c, ts). fsub now ts \<le> RETRY_WINDOW_SECONDS \<and> RETRY_MAX_PER_WINDOW \<le> c) (rg_counts s)),
      length (rg_counts s))"

fun admitted :: "string \<Rightarrow> (pyfloat \<times> string) list \<Rightarrow> retry_guard \<Rightarrow> nat" where
  \<comment> \<open>how many of the calls for \<open>key\<close> the local guard lets through\<close>
  "admitted key [] s = 0"
| "admitted key ((t, k) # es) s =
     (case guard_local t k s of (ok, s') \<Rightarrow> (if ok \<and> k = key then 1 else 0) + admitted key es s')"

lemma map_of_filter_keep:
  "map_of xs k = Some v \<Longrightarrow> P (k, v) \<Longrightarrow> map_of (filter P xs) k = Some v"
  by (induction xs) auto

lemma guard_cleanup_keeps:
  assumes "map_of (rg_counts s) key = Some (n, t0)" "is_f64 t0" "now \<le> t0 + 300"
  shows "map_of (rg_counts (guard_cleanup now s)) key = Some (n, t0)"
proof -
  have "fsub now 300 \<le> t0" unfolding fsub_def using assms(2,3) by (intro f64_le_iff) simp_all
  then show ?thesis using assms(1)
    by (auto simp: guard_cleanup_def RETRY_WINDOW_SECONDS_def intro!: map_of_filter_keep)
qed

lemma guard_local_other:
  "k \<noteq> key \<Longrightarrow> map_of (rg_counts (snd (guard_local t k s))) key = map_of (rg_counts (guard_cleanup t s)) key"
  by (auto simp: guard_local_def Let_def guard_set_def update_conv split: option.split)

lemma guard_local_same:
  assumes "map_of (rg_counts (guard_cleanup t s)) key = Some (n, t0)" "t0 \<le> t" "t \<le> t0 + 300"
  shows "guard_local t key s =
    (if 5 \<le> n then (False, guard_cleanup t s) else (True, guard_set key (n + 1) t0 (guard_cleanup t s)))"
proof -
  have "is_f64 300" by (simp add: is_f64_def f64_numeral)
  then have "fsub t t0 \<le> 300" unfolding fsub_def using assms(3) by (intro f64_le_iff) simp_all
  then show ?thesis
    by (simp add: guard_local_def Let_def assms(1) RETRY_WINDOW_SECONDS_def RETRY_MAX_PER_WINDOW_def)
qed

lemma admitted_in_window:
  assumes "map_of (rg_counts s) key = Some (n, t0)" "is_f64 t0" "0 \<le> n" "n \<le> 5"
    and "\<forall>(t, k) \<in> set es. t0 \<le> t \<and> t \<le> t0 + 300"
  shows "int (admitted key es s) = min (5 - n) (int (length (filter (\<lambda>(t, k). k = key) es)))"
  using assms(1,3,4,5)
proof (induction es arbitrary: s n)
  case (Cons e es)
  obtain t k where e: "e = (t, k)" by force
  then have t: "t0 \<le> t" "t \<le> t0 + 300" using Cons.prems(4) by auto
  note kept = guard_cleanup_keeps [OF Cons.prems(1) assms(2) t(2)]
  show ?case
  proof (cases "k = key")
    case True
    note step = guard_local_same [OF kept t]
    show ?thesis
    proof (cases "n = 5")
      case True
      then show ?thesis using Cons.IH [OF kept] Cons.prems step \<open>k = key\<close> by (simp add: e)
    next
      case False
      have "map_of (rg_counts (guard_set key (n + 1) t0 (guard_cleanup t s))) key = Some (n + 1, t0)"
        by (simp add: guard_set_def update_conv)
      then show ?thesis using Cons.IH [of _ "n + 1"] Cons.prems step False \<open>k = key\<close> by (simp add: e)
    qed
  next
    case False
    then have "map_of (rg_counts (snd (guard_local t k s))) key = Some (n, t0)"
      using kept by (simp add: guard_local_other)
    then show ?thesis using Cons.IH Cons.prems False by (simp add: e case_prod_beta)
  qed
qed simp

text \<open>
  C40. A retry storm is cut at five: from the first retry of a job (no live entry for its key), of all
  the retries of that job within the next 300 seconds exactly the first five are let through by
  the in-process guard, whatever other jobs do in between and whenever its cleanup runs.
\<close>

theorem storm_guard_window:
  assumes "map_of (rg_counts (guard_cleanup t0 s)) key = None" "is_f64 t0"
    and "\<forall>(t, k) \<in> set es. t0 \<le> t \<and> t \<le> t0 + 300"
  shows "admitted key ((t0, key) # es) s = min 5 (Suc (length (filter (\<lambda>(t, k). k = key) es)))"
proof -
  have g: "guard_local t0 key s = (True, guard_set key 1 t0 (guard_cleanup t0 s))"
    using assms(1) by (simp add: guard_local_def Let_def)
  have "map_of (rg_counts (guard_set key 1 t0 (guard_cleanup t0 s))) key = Some (1, t0)"
    by (simp add: guard_set_def update_conv)
  from admitted_in_window [OF this assms(2) _ _ assms(3)] show ?thesis by (simp add: g)
qed

theorem storm_guard_window_witness:
  "admitted ''a'' ((0, ''a'') # replicate 9 (1, ''a'')) \<lparr>rg_counts = [], rg_last_cleanup = 0\<rparr> = 5"
  using storm_guard_window [of 0 "\<lparr>rg_counts = [], rg_last_cleanup = 0\<rparr>" "''a''" "replicate 9 (1, ''a'')"]
  by (simp add: guard_cleanup_def is_f64_def)

section \<open>The retry budget\<close>

definition TOKEN_SCALE :: int where "TOKEN_SCALE = 10000"

record retry_budget =
  bg_budget :: int
  bg_window :: int
  bg_tokens :: int
  bg_last_refill :: pyfloat

definition new_budget :: "int \<Rightarrow> int \<Rightarrow> pyfloat \<Rightarrow> retry_budget" where
  "new_budget budget wnd now =
     \<lparr>bg_budget = budget, bg_window = wnd, bg_tokens = budget * TOKEN_SCALE, bg_last_refill = now\<rparr>"

definition py_int :: "pyfloat \<Rightarrow> int" where
  \<comment> \<open>\<open>int(x)\<close>: towards zero\<close>
  "py_int x = (if 0 \<le> x then \<lfloor>x\<rfloor> else - \<lfloor>- x\<rfloor>)"

definition refill :: "pyfloat \<Rightarrow> retry_budget \<Rightarrow> retry_budget" where
  "refill now b =
     (let elapsed = fsub now (bg_last_refill b) in
      if elapsed \<le> 0 then b
      else let amount = py_int (fdiv (fmul elapsed (f64 (of_int (bg_budget b * TOKEN_SCALE)))) (f64 (of_int (bg_window b))))
           in b\<lparr>bg_tokens := min (bg_budget b * TOKEN_SCALE) (bg_tokens b + amount), bg_last_refill := now\<rparr>)"

definition scaled :: "pyfloat \<Rightarrow> int" where
  "scaled cost = py_int (fmul cost (of_int TOKEN_SCALE))"

definition consume_retry_budget :: "pyfloat \<Rightarrow> pyfloat \<Rightarrow> retry_budget \<Rightarrow> bool \<times> retry_budget" where
  "consume_retry_budget cost now b0 =
     (let b = refill now b0 in
      if scaled cost \<le> bg_tokens b then (True, b\<lparr>bg_tokens := bg_tokens b - scaled cost\<rparr>) else (False, b))"

definition get_budget_status :: "pyfloat \<Rightarrow> retry_budget \<Rightarrow> (pyfloat \<times> int \<times> int) \<times> retry_budget" where
  "get_budget_status now b0 =
     (let b = refill now b0 in
      ((fdiv (f64 (of_int (bg_tokens b))) (of_int TOKEN_SCALE), bg_budget b, bg_window b), b))"

definition budget_ok :: "pyfloat \<Rightarrow> retry_budget \<Rightarrow> bool" where
  "budget_ok cost b \<longleftrightarrow> 0 < scaled cost \<and> 0 \<le> bg_tokens b \<and> bg_tokens b \<le> bg_budget b * TOKEN_SCALE \<and>
     bg_budget b * TOKEN_SCALE \<le> 2 ^ 53 \<and> 0 < bg_window b \<and> bg_window b \<le> 2 ^ 53"

definition budget_rate :: "pyfloat \<Rightarrow> retry_budget \<Rightarrow> rat" where
  \<comment> \<open>tasks of the given cost per second\<close>
  "budget_rate cost b = of_int (bg_budget b * TOKEN_SCALE) / (of_int (bg_window b) * of_int (scaled cost))"

lemma refill_amount:
  assumes "0 \<le> B" "B \<le> 2 ^ 53" "0 < W" "W \<le> 2 ^ 53" "prev \<le> now"
  defines "x \<equiv> fdiv (fmul (fsub now prev) (f64 (of_int B))) (f64 (of_int W))"
  shows "0 \<le> py_int x" "of_int (py_int x) \<le> of_int B / of_int W * (now - prev) * (1 + slack)"
proof -
  define u where "u = (1 + 1 / 2 ^ 53 :: rat)"
  have u: "0 \<le> u" "u * u * u \<le> 1 + slack" by (simp_all add: u_def slack_def)
  have BW: "f64 (of_int B) = of_int B" "f64 (of_int W) = of_int W" using assms(1-4) by (simp_all add: f64_of_int)
  have b: "0 \<le> (of_int B :: rat)" "0 < (of_int W :: rat)" using assms(1,3) by simp_all
  have e: "fsub now prev \<le> (now - prev) * u" "0 \<le> fsub now prev"
    using assms(5) f64_upper [of "now - prev"] by (simp_all add: fsub_def u_def del: one_add_one)
  have m: "fmul (fsub now prev) (of_int B) \<le> (now - prev) * u * of_int B * u" "0 \<le> fmul (fsub now prev) (of_int B)"
  proof -
    have "fmul (fsub now prev) (of_int B) \<le> fsub now prev * of_int B * u"
      unfolding fmul_def u_def using e(2) b(1) by (intro f64_upper) simp
    also have "\<dots> \<le> (now - prev) * u * of_int B * u" using e b u by (intro mult_right_mono) simp_all
    finally show "fmul (fsub now prev) (of_int B) \<le> (now - prev) * u * of_int B * u" .
    show "0 \<le> fmul (fsub now prev) (of_int B)" using e b by (simp add: fmul_def)
  qed
  have "x \<le> fmul (fsub now prev) (of_int B) / of_int W * u"
    unfolding x_def BW fdiv_def u_def using m b by (intro f64_upper) simp
  also have "\<dots> \<le> (now - prev) * u * of_int B * u / of_int W * u"
    using m b u by (intro mult_right_mono divide_right_mono) simp_all
  also have "\<dots> = of_int B / of_int W * (now - prev) * (u * u * u)" by (simp add: algebra_simps)
  also have "\<dots> \<le> of_int B / of_int W * (now - prev) * (1 + slack)"
    using u b assms(5) by (intro mult_left_mono) simp_all
  finally have le: "x \<le> of_int B / of_int W * (now - prev) * (1 + slack)" .
  have x0: "0 \<le> x" unfolding x_def BW using m(2) b by (simp add: fdiv_def)
  then show "0 \<le> py_int x" by (simp add: py_int_def)
  show "of_int (py_int x) \<le> of_int B / of_int W * (now - prev) * (1 + slack)"
    using le x0 by (simp add: py_int_def) (meson of_int_floor_le order.trans)
qed

lemma refill_keeps:
  assumes "budget_ok cost b" "bg_last_refill b \<le> now"
  shows "bg_last_refill (refill now b) = now" "budget_ok cost (refill now b)" "bg_budget (refill now b) = bg_budget b"
    "bg_window (refill now b) = bg_window b"
    "of_int (bg_tokens (refill now b)) \<le>
       of_int (bg_tokens b) + of_int (bg_budget b * TOKEN_SCALE) / of_int (bg_window b) * (now - bg_last_refill b) * (1 + slack)"
proof -
  let ?B = "bg_budget b * TOKEN_SCALE"
  have B: "0 \<le> ?B" "?B \<le> 2 ^ 53" "0 < bg_window b" "bg_window b \<le> 2 ^ 53" using assms(1) by (auto simp: budget_ok_def)
  note r = refill_amount [OF B assms(2)]
  have z: "now = bg_last_refill b" if "fsub now (bg_last_refill b) \<le> 0"
    using that f64_zero [of "now - bg_last_refill b"] fsub_nonneg [OF assms(2)] unfolding fsub_def by (metis antisym eq_iff_diff_eq_0)
  have extra: "0 \<le> of_int ?B / of_int (bg_window b) * (now - bg_last_refill b) * (1 + slack :: rat)"
  proof -
    have "0 \<le> (of_int ?B :: rat)" using B(1) by (simp only: of_int_0_le_iff)
    then show ?thesis using B(3) assms(2)
      by (intro mult_nonneg_nonneg divide_nonneg_nonneg) (simp_all add: slack_def del: of_int_mult)
  qed
  show "bg_last_refill (refill now b) = now" using z by (auto simp: refill_def Let_def)
  show "budget_ok cost (refill now b)" using assms(1) r(1) by (auto simp: refill_def Let_def budget_ok_def)
  show "bg_budget (refill now b) = bg_budget b" "bg_window (refill now b) = bg_window b" by (simp_all add: refill_def Let_def)
  show "of_int (bg_tokens (refill now b)) \<le>
       of_int (bg_tokens b) + of_int ?B / of_int (bg_window b) * (now - bg_last_refill b) * (1 + slack)"
  proof (cases "fsub now (bg_last_refill b) \<le> 0")
    case True
    then show ?thesis using extra by (simp add: refill_def)
  next
    case False
    let ?a = "py_int (fdiv (fmul (fsub now (bg_last_refill b)) (f64 (of_int ?B))) (f64 (of_int (bg_window b))))"
    have "bg_tokens (refill now b) \<le> bg_tokens b + ?a" using False by (simp add: refill_def Let_def)
    then have "(of_int (bg_tokens (refill now b)) :: rat) \<le> of_int (bg_tokens b) + of_int ?a"
      by (metis of_int_add of_int_le_iff)
    with r(2) show ?thesis by linarith
  qed
qed

interpretation budget: leaky_bucket "\<lambda>b. of_int (bg_tokens b) / of_int (scaled cost)" bg_last_refill
    "\<lambda>b. of_int (bg_budget b * TOKEN_SCALE) / of_int (scaled cost)" "budget_rate cost" "consume_retry_budget cost" "budget_ok cost"
proof unfold_locales
  fix b and now :: rat
  assume b: "budget_ok cost b"
  then have k: "0 < (of_int (scaled cost) :: rat)" by (simp add: budget_ok_def)
  have le: "(of_int (bg_tokens b) :: rat) \<le> of_int (bg_budget b * TOKEN_SCALE)" using b by (simp only: budget_ok_def of_int_le_iff)
  have "0 \<le> (of_int (bg_tokens b) :: rat)" using b by (simp add: budget_ok_def)
  then have cap: "0 \<le> (of_int (bg_budget b * TOKEN_SCALE) / of_int (scaled cost) :: rat)"
    using le k by (intro divide_nonneg_nonneg) linarith+
  show "0 \<le> of_int (bg_tokens b) / (of_int (scaled cost) :: rat) \<and>
      of_int (bg_tokens b) / of_int (scaled cost) \<le> (of_int (bg_budget b * TOKEN_SCALE) / of_int (scaled cost) :: rat) \<and>
      0 \<le> budget_rate cost b"
    using b k le by (auto simp: budget_ok_def budget_rate_def intro!: divide_right_mono divide_nonneg_nonneg mult_nonneg_nonneg)
  assume n: "bg_last_refill b \<le> now"
  note r = refill_keeps [OF b n]
  show "budget_ok cost (snd (consume_retry_budget cost now b)) \<and> bg_last_refill (snd (consume_retry_budget cost now b)) = now \<and>
      of_int (bg_budget (snd (consume_retry_budget cost now b)) * TOKEN_SCALE) / (of_int (scaled cost) :: rat) =
        of_int (bg_budget b * TOKEN_SCALE) / of_int (scaled cost) \<and>
      budget_rate cost (snd (consume_retry_budget cost now b)) = budget_rate cost b"
    using r by (auto simp: consume_retry_budget_def Let_def budget_ok_def budget_rate_def)
  let ?g = "if fst (consume_retry_budget cost now b) then 1 else 0 :: rat"
  have "of_int (bg_tokens (snd (consume_retry_budget cost now b))) + ?g * of_int (scaled cost) = of_int (bg_tokens (refill now b))"
    by (simp add: consume_retry_budget_def Let_def)
  then have "of_int (bg_tokens (snd (consume_retry_budget cost now b))) / of_int (scaled cost) + ?g =
      of_int (bg_tokens (refill now b)) / of_int (scaled cost)"
    using k by (simp add: field_simps)
  also have "\<dots> \<le> (of_int (bg_tokens b) + of_int (bg_budget b * TOKEN_SCALE) / of_int (bg_window b) * (now - bg_last_refill b) * (1 + slack))
      / of_int (scaled cost)"
    using r(5) k by (intro divide_right_mono) simp_all
  also have "\<dots> = of_int (bg_tokens b) / of_int (scaled cost) + budget_rate cost b * (now - bg_last_refill b) * (1 + slack)"
    by (simp add: budget_rate_def add_divide_distrib)
  also have "\<dots> \<le> of_int (bg_tokens b) / of_int (scaled cost) + budget_rate cost b * (now - bg_last_refill b) * (1 + slack)
      + of_int (bg_budget b * TOKEN_SCALE) / of_int (scaled cost) * slack"
    using mult_nonneg_nonneg [OF cap, of slack] by (simp add: slack_def)
  finally show "of_int (bg_tokens (snd (consume_retry_budget cost now b))) / of_int (scaled cost) + ?g
      \<le> of_int (bg_tokens b) / of_int (scaled cost) + budget_rate cost b * (now - bg_last_refill b) * (1 + slack)
      + of_int (bg_budget b * TOKEN_SCALE) / of_int (scaled cost) * slack" .
qed

text \<open>
  The retry budget holds: over any sequence of retries of one cost the number let through is at most
  the budget (divided by the cost) plus what the elapsed time refills, up to a relative error of
  \<open>2 ^ -50\<close> for the float product, so the documented 100 per minute at cost 1 is never exceeded by more
  than the initial hundred.
\<close>

theorem retry_budget_bound:
  assumes "budget_ok cost b" "sorted (bg_last_refill b # ts)"
  shows "of_nat (fst (takes (consume_retry_budget cost) ts b)) * of_int (scaled cost)
    \<le> of_int (bg_budget b * TOKEN_SCALE) *
        (1 + (last (bg_last_refill b # ts) - bg_last_refill b) / of_int (bg_window b) * (1 + slack) + of_nat (length ts) * slack)"
proof -
  have k: "0 < (of_int (scaled cost) :: rat)" using assms(1) by (simp add: budget_ok_def)
  have factor: "C / k + C / (w * k) * t * (1 + slack) + n * (C / k * slack) = C * (1 + t / w * (1 + slack) + n * slack) / k"
    if "0 < k" "0 < w" for k w C t n :: rat
    using that by (simp add: field_simps)
  let ?C = "of_int (bg_budget b * TOKEN_SCALE) :: rat"
  let ?T = "last (bg_last_refill b # ts) - bg_last_refill b"
  have "of_nat (fst (takes (consume_retry_budget cost) ts b))
      \<le> ?C / of_int (scaled cost) + budget_rate cost b * ?T * (1 + slack) + of_nat (length ts) * (?C / of_int (scaled cost) * slack)"
    by (rule budget.admitted_bound [OF assms])
  also have "\<dots> = ?C * (1 + ?T / of_int (bg_window b) * (1 + slack) + of_nat (length ts) * slack) / of_int (scaled cost)"
    using factor [OF k, of "of_int (bg_window b)" ?C] assms(1) by (simp add: budget_rate_def budget_ok_def)
  finally show ?thesis using k by (simp add: pos_le_divide_eq)
qed

lemma scaled_one: "scaled 1 = 10000"
  by (simp add: scaled_def TOKEN_SCALE_def fmul_def py_int_def f64_numeral)

theorem retry_budget_bound_witness:
  "of_nat (fst (takes (consume_retry_budget 1) [1, 2, 3] (new_budget 100 60 0))) * of_int (scaled 1)
    \<le> (of_int 1000000 * (1 + 3 / 60 * (1 + slack) + 3 * slack) :: rat)"
  using retry_budget_bound [of 1 "new_budget 100 60 0" "[1, 2, 3]"]
  by (simp add: budget_ok_def new_budget_def scaled_one TOKEN_SCALE_def)

end
