(* ===== verification/StaleJobs.thy ===== *)
theory StaleJobs
  imports JobState Ledger Idempotency
begin

text \<open>
  The periodic repair of stuck jobs, \<open>app/tasks/heartbeat.py\<close>: three sweeps over jobs that have been
  reserved, processing or queued for too long, each of which releases the reservation of the job's
  company and fails the job, and a sweep over orphan reservations. Rows locked by others
  (\<open>SKIP LOCKED\<close>), the outcomes of the account locks and the writes of other transactions are arguments;
  traces and metrics are left out. The only statement that may raise is the lock of an account: it leaves the
  transaction of the sweep aborted, every later statement of the sweep raises as well, and the \<open>COMMIT\<close> at the end of the
  sweep is answered by a rollback.
\<close>

section \<open>The sweeps\<close>

definition RESERVED_TIMEOUT_MINUTES :: int where "RESERVED_TIMEOUT_MINUTES = PROCESSING_TIMEOUT_MINUTES"
definition RUNNING_TIMEOUT_MINUTES :: int where "RUNNING_TIMEOUT_MINUTES = 30"
definition QUEUED_TIMEOUT_MINUTES :: int where "QUEUED_TIMEOUT_MINUTES = 60"
definition BATCH_SIZE :: nat where "BATCH_SIZE = 200"

record sweep_env =
  sw_now :: micros
  sw_later :: micros
  sw_locked :: "uuid \<Rightarrow> bool"
  sw_locks :: "uuid \<Rightarrow> nat \<Rightarrow> lock_outcome"
  sw_session :: session
  sw_elsewhere :: "database \<Rightarrow> database"

definition overdue :: "ai_state \<Rightarrow> micros \<Rightarrow> job \<Rightarrow> bool" where
  "overdue state cutoff j \<longleftrightarrow>
     job_ai_state j = Some state \<and> (case job_ai_updated_at j of None \<Rightarrow> False | Some t \<Rightarrow> t < cutoff)"

definition batch :: "sweep_env \<Rightarrow> ai_state \<Rightarrow> int \<Rightarrow> database \<Rightarrow> job list" where
  "batch env state timeout d =
     take BATCH_SIZE (filter (\<lambda>j. overdue state (sw_now env - minutes timeout) j \<and> \<not> sw_locked env (job_id j)) (db_jobs d))"

definition release_all :: "session \<Rightarrow> uuid \<Rightarrow> database \<Rightarrow> database" where
  \<comment> \<open>release whatever the company's account has reserved\<close>
  "release_all s company d =
     (case account_of d company of
        None \<Rightarrow> d
      | Some account \<Rightarrow>
          let reserved = f64 (ba_reserved_acu account) in
          if 0 < reserved
          then qs_db (release_reserved s False company reserved None \<lparr>qs_db = d, qs_reservations = (\<lambda>_. None)\<rparr>)
          else d)"

definition fail_stuck_job :: "sweep_env \<Rightarrow> job \<Rightarrow> database \<Rightarrow> database option" where
  \<comment> \<open>\<open>None\<close>: the lock of the account raised, and the transaction is aborted\<close>
  "fail_stuck_job env j d =
     (let d1 = release_all (sw_session env) (job_company_id j) d in
      map_option snd (transition_job_state d1 (job_id j) (job_company_id j) S_failed
             (Some (heartbeat_reservation (sw_later env))) (sw_locks env (job_id j)) (sw_now env) (sw_later env)))"

fun fail_stuck_jobs :: "sweep_env \<Rightarrow> job list \<Rightarrow> nat \<times> nat \<times> database option \<Rightarrow> nat \<times> nat \<times> database option" where
  \<comment> \<open>the loop over the jobs of a sweep: the jobs failed, the errors logged, and the database in the transaction unless it is aborted\<close>
  "fail_stuck_jobs env [] r = r"
| "fail_stuck_jobs env (j # js) (n, errors, t) =
     (case Option.bind t (fail_stuck_job env j) of
        Some d \<Rightarrow> fail_stuck_jobs env js (n + 1, errors, Some d)
      | None \<Rightarrow> fail_stuck_jobs env js (n, errors + 1, None))"

definition sweep :: "sweep_env \<Rightarrow> ai_state \<Rightarrow> int \<Rightarrow> database \<Rightarrow> nat \<times> nat \<times> database" where
  \<comment> \<open>\<open>sw_elsewhere\<close>: what others have committed by the time an aborted sweep is rolled back\<close>
  "sweep env state timeout d =
     (case fail_stuck_jobs env (batch env state timeout d) (0, 0, Some d) of
        (n, errors, t) \<Rightarrow> (n, errors, case t of Some d' \<Rightarrow> d' | None \<Rightarrow> sw_elsewhere env d))"

record sweep_stats =
  stuck_reserved :: nat
  stuck_running :: nat
  orphaned_queued :: nat
  orphan_reservations :: nat
  errors :: nat

definition cleanup_stale_jobs :: "sweep_env \<Rightarrow> bool \<Rightarrow> database \<Rightarrow> sweep_stats \<times> database" where
  "cleanup_stale_jobs env idempotency_ok d0 =
     (let d = cleanup_expired_idempotency_keys idempotency_ok (sw_now env) d0;
          (n1, e1, d1) = sweep env S_reserved RESERVED_TIMEOUT_MINUTES d;
          (n2, e2, d2) = sweep env S_processing RUNNING_TIMEOUT_MINUTES d1;
          (n3, e3, d3) = sweep env S_queued QUEUED_TIMEOUT_MINUTES d2;
          orphans = filter (stale_account (sw_now env)) (db_accounts d3)
      in (\<lparr>stuck_reserved = n1, stuck_running = n2, orphaned_queued = n3, orphan_reservations = length orphans,
           errors = e1 + e2 + e3\<rparr>,
          d3\<lparr>db_accounts := update_where (stale_account (sw_now env)) clear_reservation (db_accounts d3)\<rparr>))"

section \<open>Which jobs are failed\<close>

definition keeps_jobs :: "session \<Rightarrow> bool" where
  "keeps_jobs s \<longleftrightarrow> (\<forall>n d. db_jobs (other s n d) = db_jobs d)"

definition jobs_left_alone :: "sweep_env \<Rightarrow> bool" where
  \<comment> \<open>nobody else writes to the jobs during the repair\<close>
  "jobs_left_alone env \<longleftrightarrow> keeps_jobs (sw_session env) \<and> (\<forall>d. db_jobs (sw_elsewhere env d) = db_jobs d)"

lemma update_loop_jobs: "keeps_jobs s \<Longrightarrow> db_jobs (snd (update_loop s c f ns d)) = db_jobs d"
  by (induction ns arbitrary: d)
    (auto simp: keeps_jobs_def cas_account_def Let_def change_account_def split: option.split prod.split)

lemma release_all_jobs [simp]: "keeps_jobs s \<Longrightarrow> db_jobs (release_all s c d) = db_jobs d"
  using update_loop_jobs [of s c _ _ d]
  by (auto simp: release_all_def release_reserved_def Let_def split: option.split prod.split loop_end.split)
    (metis snd_conv)+

definition fail_job :: "sweep_env \<Rightarrow> job \<Rightarrow> job" where
  "fail_job env j = snd (transition_job S_failed (sw_now env) (sw_later env) j)"

lemma fail_job_simps [simp]: "job_id (fail_job env j) = job_id j" "job_company_id (fail_job env j) = job_company_id j"
  by (simp_all add: fail_job_def)

lemma db_jobs_change_job: "db_jobs (change_job i f d) = map (\<lambda>r. if job_id r = i then f r else r) (db_jobs d)"
  by (simp add: change_job_def modify_by_def update_where_def)

lemma fail_stuck_job_None: "fail_stuck_job env j d = None \<longleftrightarrow> sw_locks env (job_id j) 0 \<noteq> Locked"
  by (simp add: fail_stuck_job_def transition_job_state_None Let_def)

lemma fail_stuck_job_jobs:
  assumes "keeps_jobs (sw_session env)" "job_of d (job_id j) (job_company_id j) \<noteq> None" "fail_stuck_job env j d = Some d'"
  shows "db_jobs d' = map (\<lambda>r. if job_id r = job_id j then fail_job env r else r) (db_jobs d)"
proof -
  let ?d1 = "release_all (sw_session env) (job_company_id j) d"
  let ?d2 = "account_locked (job_company_id j) ?d1"
  have locked: "sw_locks env (job_id j) 0 = Locked" using assms(3) fail_stuck_job_None [of env j d] by auto
  have jobs: "db_jobs ?d2 = db_jobs d" "db_jobs ?d1 = db_jobs d" using assms(1) by simp_all
  then obtain r where r: "job_of ?d1 (job_id j) (job_company_id j) = Some r"
    using assms(2) by (auto simp: job_of_def job_row_def)
  have "db_jobs d' = db_jobs (change_job (job_id j) (fail_job env) ?d2)"
    using assms(3) by (auto simp: fail_stuck_job_def transition_job_state_def lock_account_first locked Let_def r
        fail_job_def [abs_def] heartbeat_reservation_def)
  then show ?thesis by (simp add: jobs db_jobs_change_job)
qed

lemma fail_stuck_jobs_aborted: "snd (snd (fail_stuck_jobs env js (n, e, None))) = None"
  by (induction js arbitrary: e) simp_all

lemma fail_stuck_jobs_result:
  assumes "keeps_jobs (sw_session env)" "distinct (map job_id js)"
    and "\<And>j. j \<in> set js \<Longrightarrow> job_of d (job_id j) (job_company_id j) \<noteq> None"
  shows "map_option db_jobs (snd (snd (fail_stuck_jobs env js (n, e, Some d)))) =
    (if \<forall>j \<in> set js. sw_locks env (job_id j) 0 = Locked
     then Some (map (\<lambda>r. if job_id r \<in> job_id ` set js then fail_job env r else r) (db_jobs d)) else None)"
  using assms(2,3)
proof (induction js arbitrary: d n)
  case (Cons j js)
  show ?case
  proof (cases "fail_stuck_job env j d")
    case None
    then show ?thesis using fail_stuck_job_None [of env j d] by (simp add: fail_stuck_jobs_aborted)
  next
    case (Some d')
    then have jobs: "db_jobs d' = map (\<lambda>r. if job_id r = job_id j then fail_job env r else r) (db_jobs d)"
      using assms(1) Cons.prems(2) by (auto intro: fail_stuck_job_jobs)
    have "job_row d' i = map_option (\<lambda>r. if job_id r = job_id j then fail_job env r else r) (job_row d i)" for i
      unfolding job_row_def jobs by (rule row_by_update_where [unfolded update_where_def]) simp
    then have "job_of d' i c \<noteq> None" if "job_of d i c \<noteq> None" for i c
      using that by (auto simp: job_of_def split: option.splits if_splits)
    then have "map_option db_jobs (snd (snd (fail_stuck_jobs env js (n + 1, e, Some d')))) =
      (if \<forall>j \<in> set js. sw_locks env (job_id j) 0 = Locked
       then Some (map (\<lambda>r. if job_id r \<in> job_id ` set js then fail_job env r else r) (db_jobs d')) else None)"
      using Cons by simp
    moreover have "sw_locks env (job_id j) 0 = Locked" using Some fail_stuck_job_None [of env j d] by auto
    ultimately show ?thesis using Cons.prems(1) Some by (auto simp: jobs)
  qed
qed simp

lemma fail_job_overdue: "overdue st limit j \<Longrightarrow> st \<in> {S_reserved, S_processing, S_queued} \<Longrightarrow> fail_job env j = move_job S_failed (sw_later env) j"
  by (auto simp: overdue_def fail_job_def transition_job_def current_state_def validate_job_transition_def Let_def)

definition due_in :: "sweep_env \<Rightarrow> ai_state \<Rightarrow> int \<Rightarrow> job \<Rightarrow> bool" where
  \<comment> \<open>the jobs that a sweep selects\<close>
  "due_in env st timeout j \<longleftrightarrow> overdue st (sw_now env - minutes timeout) j \<and> \<not> sw_locked env (job_id j)"

definition all_granted :: "sweep_env \<Rightarrow> ai_state \<Rightarrow> int \<Rightarrow> database \<Rightarrow> bool" where
  \<comment> \<open>for every job of a sweep the account row is locked at once\<close>
  "all_granted env st timeout d \<longleftrightarrow> (\<forall>j \<in> set (db_jobs d). due_in env st timeout j \<longrightarrow> sw_locks env (job_id j) 0 = Locked)"

definition failed_by :: "sweep_env \<Rightarrow> ai_state \<Rightarrow> int \<Rightarrow> bool \<Rightarrow> job \<Rightarrow> job" where
  "failed_by env st timeout granted j =
     (if granted \<and> due_in env st timeout j then move_job S_failed (sw_later env) j else j)"

lemma failed_by_id [simp]: "job_id (failed_by env st timeout g j) = job_id j"
  by (simp add: failed_by_def)

lemma sweep_jobs:
  assumes "jobs_left_alone env" "distinct (map job_id (db_jobs d))" "st \<in> {S_reserved, S_processing, S_queued}"
    and small: "length (filter (due_in env st timeout) (db_jobs d)) \<le> 200"
  shows "db_jobs (snd (snd (sweep env st timeout d))) = map (failed_by env st timeout (all_granted env st timeout d)) (db_jobs d)"
proof -
  let ?js = "filter (due_in env st timeout) (db_jobs d)"
  have alone: "keeps_jobs (sw_session env)" "\<And>d. db_jobs (sw_elsewhere env d) = db_jobs d"
    using assms(1) by (simp_all add: jobs_left_alone_def)
  have b: "batch env st timeout d = ?js" using small by (simp add: batch_def BATCH_SIZE_def due_in_def [abs_def])
  have mem: "job_id r \<in> job_id ` set ?js \<longleftrightarrow> due_in env st timeout r" if "r \<in> set (db_jobs d)" for r
    using that assms(2) by (auto simp: distinct_map dest: inj_onD)
  have own: "job_of d (job_id j) (job_company_id j) \<noteq> None" if "j \<in> set ?js" for j
    using that assms(2) row_by_unique [of job_id "db_jobs d" j] by (auto simp: unique_on_def job_of_def job_row_def)
  have "distinct (map job_id ?js)" using assms(2) by simp
  note r = fail_stuck_jobs_result [OF alone(1) this own, of 0 0]
  have g: "(\<forall>j \<in> set ?js. sw_locks env (job_id j) 0 = Locked) \<longleftrightarrow> all_granted env st timeout d"
    by (auto simp: all_granted_def)
  have f: "map (\<lambda>r. if job_id r \<in> job_id ` set ?js then fail_job env r else r) (db_jobs d) = map (failed_by env st timeout True) (db_jobs d)"
    using mem fail_job_overdue [OF _ assms(3)] by (intro map_cong refl) (auto simp: failed_by_def due_in_def)
  show ?thesis
  proof (cases "all_granted env st timeout d")
    case True
    with r g f show ?thesis by (auto simp: sweep_def b split: prod.split simp del: set_filter)
  next
    case False
    moreover have "map (failed_by env st timeout False) js = js" for js by (intro map_idI) (simp add: failed_by_def)
    ultimately show ?thesis using r g alone(2) by (auto simp: sweep_def b split: prod.split simp del: set_filter)
  qed
qed

definition sweeps :: "(ai_state \<times> int) list" where
  \<comment> \<open>reserved for a quarter of an hour, processing for half an hour or queued for an hour\<close>
  "sweeps = [(S_reserved, 15), (S_processing, 30), (S_queued, 60)]"

definition repaired :: "sweep_env \<Rightarrow> database \<Rightarrow> job \<Rightarrow> bool" where
  "repaired env d j \<longleftrightarrow> (\<exists>(st, timeout) \<in> set sweeps. due_in env st timeout j \<and> all_granted env st timeout d)"

lemma due_in_failed_by: "st \<noteq> S_failed \<Longrightarrow> st \<noteq> st' \<Longrightarrow> due_in env st t (failed_by env st' t' g j) = due_in env st t j"
  by (auto simp: failed_by_def due_in_def overdue_def move_job_def)

lemma due_in_state: "due_in env st t j \<Longrightarrow> job_ai_state j = Some st"
  by (simp add: due_in_def overdue_def)

lemma three_sweeps:
  "failed_by env S_queued t3 g3 (failed_by env S_processing t2 g2 (failed_by env S_reserved t1 g1 j)) =
     (if due_in env S_reserved t1 j \<and> g1 \<or> due_in env S_processing t2 j \<and> g2 \<or> due_in env S_queued t3 j \<and> g3
      then move_job S_failed (sw_later env) j else j)"
proof -
  have failed: "\<not> due_in env st t (move_job S_failed now j)" if "st \<noteq> S_failed" for st t now
    using that by (auto simp: move_job_def dest: due_in_state)
  show ?thesis
    by (cases "job_ai_state j = Some S_reserved"; cases "job_ai_state j = Some S_processing")
      (auto simp: failed_by_def failed dest: due_in_state)
qed

text \<open>
  C29. One run of the repair works sweep by sweep. If in each of the three states at most 200 jobs are overdue and not locked by
  others, and nobody else writes to the jobs meanwhile, then the jobs that have been
  reserved, processing or queued for longer than the limit of their sweep and that nobody has locked are
  failed with the current time, provided that the sweep could lock the accounts of all its jobs at once; if the lock of one
  account raised, the sweep fails none of its jobs. Every other job row is untouched.
\<close>

theorem sweep_fails_stuck_jobs:
  assumes "wf_db d" "jobs_left_alone env"
    and "\<And>st timeout. (st, timeout) \<in> set sweeps \<Longrightarrow> length (filter (due_in env st timeout) (db_jobs d)) \<le> 200"
  shows "job_row (snd (cleanup_stale_jobs env ok d)) i =
    map_option (\<lambda>j. if repaired env d j then move_job S_failed (sw_later env) j else j) (job_row d i)"
proof -
  let ?d = "cleanup_expired_idempotency_keys ok (sw_now env) d"
  let ?f = "\<lambda>st t. failed_by env st t (all_granted env st t d)"
  note limits = RESERVED_TIMEOUT_MINUTES_def PROCESSING_TIMEOUT_MINUTES_def RUNNING_TIMEOUT_MINUTES_def QUEUED_TIMEOUT_MINUTES_def
  have jobs: "db_jobs ?d = db_jobs d" by (simp add: cleanup_expired_idempotency_keys_def)
  have dist: "distinct (map job_id (db_jobs d))" using assms(1) by (simp add: wf_db_def unique_on_def)
  have step: "db_jobs (snd (snd (sweep env st t e))) = map (?f st t \<circ> g) (db_jobs d)"
    if e: "db_jobs e = map g (db_jobs d)" and st: "(st, t) \<in> set sweeps"
      and g: "\<And>j. job_id (g j) = job_id j" "\<And>j. due_in env st t (g j) = due_in env st t j" for e g st t
  proof -
    have "filter (due_in env st t) (db_jobs e) = map g (filter (due_in env st t) (db_jobs d))"
      by (simp add: e filter_map comp_def g(2))
    moreover have "all_granted env st t e = all_granted env st t d" by (simp add: all_granted_def e g)
    moreover have "st \<in> {S_reserved, S_processing, S_queued}" using st by (auto simp: sweeps_def)
    ultimately show ?thesis using sweep_jobs [OF assms(2), of e st t] assms(3) [OF st] dist by (simp add: e comp_def g(1))
  qed
  let ?d1 = "snd (snd (sweep env S_reserved RESERVED_TIMEOUT_MINUTES ?d))"
  let ?d2 = "snd (snd (sweep env S_processing RUNNING_TIMEOUT_MINUTES ?d1))"
  let ?d3 = "snd (snd (sweep env S_queued QUEUED_TIMEOUT_MINUTES ?d2))"
  let ?g = "?f S_queued 60 \<circ> (?f S_processing 30 \<circ> ?f S_reserved 15)"
  have s1: "db_jobs ?d1 = map (?f S_reserved 15) (db_jobs d)"
    unfolding limits using step [of ?d id S_reserved 15] by (simp add: jobs sweeps_def)
  have s2: "db_jobs ?d2 = map (?f S_processing 30 \<circ> ?f S_reserved 15) (db_jobs d)"
    unfolding RUNNING_TIMEOUT_MINUTES_def by (rule step [OF s1]) (simp_all add: sweeps_def due_in_failed_by)
  have s3: "db_jobs ?d3 = map ?g (db_jobs d)"
    unfolding QUEUED_TIMEOUT_MINUTES_def by (rule step [OF s2]) (simp_all add: sweeps_def due_in_failed_by)
  have all: "db_jobs (snd (cleanup_stale_jobs env ok d)) = map ?g (db_jobs d)"
    using s3 by (simp add: cleanup_stale_jobs_def case_prod_beta Let_def)
  have f: "?g j = (if repaired env d j then move_job S_failed (sw_later env) j else j)" for j
    by (simp add: three_sweeps repaired_def sweeps_def)
  have "job_row (snd (cleanup_stale_jobs env ok d)) i = map_option ?g (job_row d i)"
    unfolding job_row_def all by (rule row_by_map) simp
  then show ?thesis using f by (cases "job_row d i") (simp_all only: option.map)
qed

definition sample_env :: sweep_env where
  "sample_env = \<lparr>sw_now = minutes 20, sw_later = minutes 21, sw_locked = (\<lambda>_. False), sw_locks = (\<lambda>_ _. Locked), sw_session = quiet,
     sw_elsewhere = (\<lambda>d. d)\<rparr>"

definition stuck_db :: database where
  \<comment> \<open>an enterprise company with 25 ACU reserved and one job that has been reserved since the start\<close>
  "stuck_db = (one_account (\<lambda>a. (enterprise_account a)\<lparr>ba_reserved_acu := 25\<rparr>))
     \<lparr>db_jobs := [move_job S_reserved 0 (default_job 4 7 3 ''user_1'' 0)]\<rparr>"

lemma stuck_db_facts:
  "account_of stuck_db 7 = Some ((enterprise_account (default_account 1 7 0))\<lparr>ba_reserved_acu := 25\<rparr>)"
  "job_row stuck_db 4 = Some (move_job S_reserved 0 (default_job 4 7 3 ''user_1'' 0))"
  "db_ledger stuck_db = []" "wf_db stuck_db" "keeps_jobs quiet"
proof -
  have k: "keeps_account_key (\<lambda>a. (enterprise_account a)\<lparr>ba_reserved_acu := 25\<rparr>)" by (auto simp: enterprise_account_def)
  show "account_of stuck_db 7 = Some ((enterprise_account (default_account 1 7 0))\<lparr>ba_reserved_acu := 25\<rparr>)"
    using account_of_one_account [OF k, of 7] by (simp add: stuck_db_def account_of_def)
  show "job_row stuck_db 4 = Some (move_job S_reserved 0 (default_job 4 7 3 ''user_1'' 0))"
    by (simp add: stuck_db_def job_row_def row_by_Cons default_job_def)
  show "db_ledger stuck_db = []" by (simp add: stuck_db_def one_account_def empty_db_def)
  show "wf_db stuck_db" by (simp add: wf_db_def stuck_db_def one_account_def empty_db_def unique_on_def)
  show "keeps_jobs quiet" by (simp add: keeps_jobs_def quiet_def)
qed

theorem sweep_fails_stuck_jobs_witness:
  "map_option current_state (job_row (snd (cleanup_stale_jobs sample_env True stuck_db)) 4) = Some S_failed \<and>
   map_option current_state (job_row (snd (cleanup_stale_jobs (sample_env\<lparr>sw_locks := \<lambda>_ _. Deadlock_detected\<rparr>) True stuck_db)) 4) = Some S_reserved"
proof -
  let ?j = "move_job S_reserved 0 (default_job 4 7 3 ''user_1'' 0)" and ?env = "sample_env\<lparr>sw_locks := \<lambda>_ _. Deadlock_detected\<rparr>"
  have few: "length (filter P (db_jobs stuck_db)) \<le> 200" for P by (simp add: stuck_db_def)
  have alone: "jobs_left_alone sample_env" "jobs_left_alone ?env"
    using stuck_db_facts(5) by (simp_all add: jobs_left_alone_def sample_env_def)
  have yes: "repaired sample_env stuck_db ?j"
    by (simp add: repaired_def sweeps_def due_in_def overdue_def all_granted_def move_job_def sample_env_def)
  have no: "\<not> repaired ?env stuck_db ?j"
    by (simp add: repaired_def sweeps_def due_in_def overdue_def all_granted_def move_job_def sample_env_def stuck_db_def)
  from yes no show ?thesis
    using sweep_fails_stuck_jobs [OF stuck_db_facts(4) alone(1), of True 4] sweep_fails_stuck_jobs [OF stuck_db_facts(4) alone(2), of True 4]
      few stuck_db_facts(2) by simp
qed

section \<open>The reservations of the other jobs\<close>

lemma numeric12_float:
  assumes "numeric12 4 r"
  shows "repr_dec (f64 r) = r"
proof -
  from assms obtain m where "r = of_int m / 10 powi 4" "\<bar>m\<bar> < 10 ^ 12" by (auto simp: on_grid_def)
  then show ?thesis using repr_dec_of_decimal [of m 4] by (simp only:) simp
qed

lemma release_all_quiet:
  assumes "account_of d c = Some a" "numeric12 4 (ba_reserved_acu a)" "0 < ba_reserved_acu a"
  shows "map_option ba_reserved_acu (account_of (release_all quiet c d) c) = Some 0"
proof -
  have p: "0 < f64 (ba_reserved_acu a)"
    using f64_nonneg [of "ba_reserved_acu a"] f64_zero [of "ba_reserved_acu a"] assms(3) by (metis less_le)
  have "minus_clamped (ba_reserved_acu a) (repr_dec (f64 (ba_reserved_acu a))) = 0"
    using assms(2) by (simp add: numeric12_float minus_clamped_def)
  then show ?thesis
    using release_quiet(1) [of "\<lparr>qs_db = d, qs_reservations = (\<lambda>_. None)\<rparr>" c a False "f64 (ba_reserved_acu a)" None] assms(1) p
    by (simp add: release_all_def Let_def)
qed

lemma release_all_ledger:
  assumes "account_of d c = Some a"
  shows "db_ledger (release_all quiet c d) = db_ledger d"
  using assms by (simp add: release_all_def release_reserved_def update_loop_quiet Let_def)

text \<open>
  One stuck job takes the reservations of all the others: the repair releases everything that the company's
  account has reserved, not the stuck job's share, so (with no other writer) any other job of the
  company that finishes afterwards cannot be settled: its reconciliation raises
  \<open>BillingIntegrityError\<close> for every positive reserved amount, and its cost is never charged.
\<close>

theorem stuck_job_drops_reservations:
  assumes "account_of d c = Some a" "account_ok a" "0 < ba_reserved_acu a" "job_company_id j = c"
    and "sw_session env = quiet" "fail_stuck_job env j d = Some d'" "ledger_entry d c k = None" "0 < repr_dec r"
  shows "map_option ba_reserved_acu (account_of d' c) = Some 0 \<and>
    (\<exists>err. reconcile_cost True i t c k est act r u d' = (Inl err, d'))"
proof -
  let ?d1 = "release_all quiet c d"
  have locked: "sw_locks env (job_id j) 0 = Locked" using assms(6) fail_stuck_job_None [of env j d] by auto
  note open_it = fail_stuck_job_def transition_job_state_def lock_account_first locked Let_def heartbeat_reservation_def
  have "map_option ba_reserved_acu (account_of ?d1 c) = Some 0"
    using assms(1-3) by (intro release_all_quiet) (simp_all add: account_ok_def)
  moreover have "map_option ba_reserved_acu (account_of d' c) = map_option ba_reserved_acu (account_of ?d1 c)"
    using assms(6) by (auto simp: open_it assms(4,5) account_of_account_locked
        acct.fetch_change keeps_account_keyI option.map_comp comp_def split: option.split_asm if_splits)
  ultimately have z: "map_option ba_reserved_acu (account_of d' c) = Some 0" by simp
  have "db_ledger d' = db_ledger d"
    using assms(6) release_all_ledger [OF assms(1)]
    by (auto simp: open_it assms(4,5) change_account_def change_job_def split: option.split_asm if_splits)
  then have "ledger_entry d' c k = None" using assms(7) by (simp add: ledger_entry_def)
  with z assms(8) show ?thesis by (auto simp: reconcile_cost_def Let_def)
qed

theorem stuck_job_drops_reservations_witness:
  "\<exists>err d'. fail_stuck_job sample_env (move_job S_reserved 0 (default_job 4 7 3 ''user_1'' 0)) stuck_db = Some d' \<and>
      fst (reconcile_cost True 9 0 7 5 (f64 (1/10)) (f64 (1/10)) 10
      \<lparr>ju_text_units = 1, ju_vision_units = 0, ju_audio_units = 0, ju_model_used = ''gateway'', ju_execution_time_ms = 9, ju_user_id = None\<rparr>
      d') = Inl err"
proof -
  have a: "account_ok ((enterprise_account (default_account 1 7 0))\<lparr>ba_reserved_acu := 25\<rparr>)"
    using enterprise_ok by (auto simp: account_ok_def on_grid_def intro!: exI [of _ 250000])
  have r: "0 < repr_dec 10" using repr_dec_of_decimal [of 10 0] by (simp add: f64_numeral)
  have l: "ledger_entry stuck_db 7 5 = None" by (simp add: ledger_entry_def stuck_db_facts)
  have c: "job_company_id (move_job S_reserved 0 (default_job 4 7 3 ''user_1'' 0)) = 7" by (simp add: default_job_def)
  obtain d' where d: "fail_stuck_job sample_env (move_job S_reserved 0 (default_job 4 7 3 ''user_1'' 0)) stuck_db = Some d'"
    using fail_stuck_job_None [of sample_env "move_job S_reserved 0 (default_job 4 7 3 ''user_1'' 0)" stuck_db]
    by (auto simp: sample_env_def)
  from stuck_job_drops_reservations [OF stuck_db_facts(1) a _ c _ d, of 5 10 9 0 "f64 (1/10)" "f64 (1/10)"
      "\<lparr>ju_text_units = 1, ju_vision_units = 0, ju_audio_units = 0, ju_model_used = ''gateway'', ju_execution_time_ms = 9, ju_user_id = None\<rparr>"] l r
  show ?thesis using d by (auto simp: sample_env_def)
qed

end
