(* ===== verification/Concurrency.thy ===== *)
theory Concurrency
  imports Prelude
begin

text \<open>
  The limiter on concurrent AI requests, \<open>app/ai/concurrency.py\<close>: a semaphore in the process, and a
  counter in Redis shared by all replicas. An acquisition that has to wait for the semaphore is
  \<open>None\<close>. What other replicas and the expiry of the key do to the shared counter is a step of the
  environment.
\<close>

section \<open>The limiter\<close>

datatype slot_counter = No_counter | Counter_fails | Counter int

record limiter =
  max_concurrent :: int
  permits :: int
  active_count :: int

definition new_limiter :: "int \<Rightarrow> limiter" where
  "new_limiter n = \<lparr>max_concurrent = n, permits = n, active_count = 0\<rparr>"

definition available_slots :: "limiter \<Rightarrow> int" where
  "available_slots l = max_concurrent l - active_count l"

definition acquire :: "slot_counter \<times> limiter \<Rightarrow> (bool \<times> slot_counter \<times> limiter) option" where
  "acquire = (\<lambda>(r, l).
     if permits l \<le> 0 then None
     else
       let l1 = l\<lparr>permits := permits l - 1\<rparr>;
           granted = l1\<lparr>active_count := active_count l1 + 1\<rparr>;
           refused = l1\<lparr>permits := permits l1 + 1\<rparr>
       in case r of
            No_counter \<Rightarrow> Some (True, r, granted)
          | Counter_fails \<Rightarrow> Some (False, r, refused)
          | Counter n \<Rightarrow>
              let count = n + 1 in
              if max_concurrent l < count then Some (False, Counter (count - 1), refused)
              else Some (True, Counter count, granted))"

definition release :: "slot_counter \<times> limiter \<Rightarrow> slot_counter \<times> limiter" where
  "release = (\<lambda>(r, l).
     let r' = (case r of Counter n \<Rightarrow> (let new_count = n - 1 in if new_count \<le> 0 then Counter 0 else Counter new_count) | _ \<Rightarrow> r)
     in (r', l\<lparr>active_count := active_count l - 1, permits := permits l + 1\<rparr>))"

definition aenter :: "slot_counter \<times> limiter \<Rightarrow> (slot_counter \<times> limiter) option" where
  \<comment> \<open>the answer of \<open>acquire\<close> is dropped\<close>
  "aenter s = map_option snd (acquire s)"

definition aexit :: "slot_counter \<times> limiter \<Rightarrow> slot_counter \<times> limiter" where
  "aexit s = release s"

definition execute :: "slot_counter \<times> limiter \<Rightarrow> (slot_counter \<times> limiter) option" where
  \<comment> \<open>the state after \<open>async with self: await coro\<close>; the coroutine runs in between\<close>
  "execute s = map_option aexit (aenter s)"

section \<open>Callers that respect the answer\<close>

inductive slot_step :: "slot_counter \<times> limiter \<Rightarrow> slot_counter \<times> limiter \<Rightarrow> bool" where
  acquire: "acquire s = Some (ok, s') \<Longrightarrow> slot_step s s'"
| release: "0 < active_count (snd s) \<Longrightarrow> slot_step s (release s)"
| others: "slot_step (r, l) (r', l)"

inductive_cases slot_stepE: "slot_step s s'"

definition balanced :: "limiter \<Rightarrow> bool" where
  "balanced l \<longleftrightarrow> permits l + active_count l = max_concurrent l \<and> 0 \<le> permits l \<and> 0 \<le> active_count l"

lemma acquire_cases:
  assumes "acquire (r, l) = Some (ok, r', l')"
  shows "0 < permits l \<and>
    (if ok then l' = l\<lparr>permits := permits l - 1, active_count := active_count l + 1\<rparr> else l' = l \<and> r' = r)"
  using assms by (auto simp: acquire_def Let_def split: if_splits slot_counter.splits)

lemma slot_step_balanced [inv_intros]:
  assumes "slot_step s s'" "balanced (snd s)"
  shows "balanced (snd s')" "max_concurrent (snd s') = max_concurrent (snd s)"
proof -
  obtain r l r' l' where s: "s = (r, l)" "s' = (r', l')" by (cases s; cases s')
  have "balanced l' \<and> max_concurrent l' = max_concurrent l"
    using assms(1)
  proof (rule slot_stepE)
    fix ok assume "acquire s = Some (ok, s')"
    then have "acquire (r, l) = Some (ok, r', l')" by (simp add: s)
    from acquire_cases [OF this] assms(2) show ?thesis by (auto simp: s balanced_def split: if_splits)
  next
    assume "s' = release s" "0 < active_count (snd s)"
    with assms(2) show ?thesis by (auto simp: s release_def Let_def balanced_def)
  next
    fix x l0 y assume "s = (x, l0)" "s' = (y, l0)"
    with assms(2) show ?thesis by (simp add: s)
  qed
  then show "balanced (snd s')" "max_concurrent (snd s') = max_concurrent (snd s)" by (simp_all add: s)
qed

text \<open>
  Callers that only release what they were granted never exceed the limit: whatever other replicas do to
  the shared counter, in every reachable state at most \<open>max_concurrent\<close> requests of the process
  are active, the permits and the active requests add up to the limit, and an acquisition waits
  exactly when all slots of the process are taken.
\<close>

theorem concurrency_bounded:
  assumes "slot_step\<^sup>*\<^sup>* (r, new_limiter n) (r', l)" "0 \<le> n"
  shows "0 \<le> active_count l \<and> active_count l \<le> n \<and> permits l + active_count l = n \<and>
    (acquire (r', l) = None \<longleftrightarrow> active_count l = n)"
proof -
  have "balanced (snd s') \<and> max_concurrent (snd s') = n" if "slot_step\<^sup>*\<^sup>* (r, new_limiter n) s'" for s'
    using that
  proof (induction rule: rtranclp_induct)
    case base
    then show ?case using assms(2) by (simp add: balanced_def new_limiter_def)
  next
    case (step y z)
    then show ?case using slot_step_balanced by metis
  qed
  from this [OF assms(1)] show ?thesis
    by (auto simp: balanced_def acquire_def Let_def split: slot_counter.splits)
qed

theorem concurrency_bounded_witness:
  "acquire (Counter 0, \<lparr>max_concurrent = 1, permits = 0, active_count = 1\<rparr>) = None"
proof -
  have "slot_step\<^sup>*\<^sup>* (Counter 0, new_limiter 1) (Counter 1, \<lparr>max_concurrent = 1, permits = 0, active_count = 1\<rparr>)"
    by (rule r_into_rtranclp, rule slot_step.acquire [of _ True]) (simp add: acquire_def new_limiter_def)
  moreover have "slot_step (Counter 1, l) (Counter 0, l)" for l by (rule slot_step.others)
  ultimately have "slot_step\<^sup>*\<^sup>* (Counter 0, new_limiter 1) (Counter 0, \<lparr>max_concurrent = 1, permits = 0, active_count = 1\<rparr>)"
    by (meson rtranclp.rtrancl_into_rtrancl)
  from concurrency_bounded [OF this] show ?thesis by simp
qed

section \<open>Replicas that share the counter\<close>

inductive replica_step :: "int \<times> limiter list \<Rightarrow> int \<times> limiter list \<Rightarrow> bool" where
  take: "i < length ls \<Longrightarrow> acquire (Counter k, ls ! i) = Some (ok, Counter k', l) \<Longrightarrow> replica_step (k, ls) (k', ls[i := l])"
| give: "i < length ls \<Longrightarrow> 0 < active_count (ls ! i) \<Longrightarrow> release (Counter k, ls ! i) = (Counter k', l) \<Longrightarrow>
     replica_step (k, ls) (k', ls[i := l])"

inductive_cases replica_stepE: "replica_step s s'"

definition total_active :: "limiter list \<Rightarrow> int" where
  "total_active ls = sum_list (map active_count ls)"

lemma total_active_update:
  "i < length ls \<Longrightarrow> total_active (ls[i := l]) = total_active ls - active_count (ls ! i) + active_count l"
  by (induction ls arbitrary: i) (auto simp: total_active_def split: nat.split)

lemma total_active_ge: "i < length ls \<Longrightarrow> (\<And>l. l \<in> set ls \<Longrightarrow> 0 \<le> active_count l) \<Longrightarrow> active_count (ls ! i) \<le> total_active ls"
  unfolding total_active_def by (rule member_le_sum_list [where x = "active_count (ls ! i)", simplified]) auto

definition replicas_ok :: "int \<Rightarrow> int \<times> limiter list \<Rightarrow> bool" where
  "replicas_ok n = (\<lambda>(k, ls). total_active ls = k \<and> k \<le> n \<and> (\<forall>l \<in> set ls. max_concurrent l = n \<and> 0 \<le> active_count l))"

lemma replica_step_ok:
  assumes "replica_step s s'" "replicas_ok n s"
  shows "replicas_ok n s'"
  using assms(1)
proof (cases rule: replica_step.cases)
  case (take i ls k ok k' l)
  then have "ls ! i \<in> set ls" by simp
  then have m: "max_concurrent (ls ! i) = n" "0 \<le> active_count (ls ! i)" using assms(2) take(1) by (auto simp: replicas_ok_def)
  have "k' = k \<and> l = ls ! i \<or> k' = k + 1 \<and> k' \<le> n \<and> active_count l = active_count (ls ! i) + 1 \<and> max_concurrent l = n"
    using take(4) m by (auto simp: acquire_def Let_def split: if_splits)
  then show ?thesis using assms(2) take(1-3) m
    by (auto simp: replicas_ok_def total_active_update dest!: set_update_subset_insert [THEN subsetD])
next
  case (give i ls k k' l)
  then have "ls ! i \<in> set ls" by simp
  then have m: "max_concurrent (ls ! i) = n" "0 \<le> active_count (ls ! i)" using assms(2) give(1) by (auto simp: replicas_ok_def)
  have "active_count (ls ! i) \<le> k"
    using total_active_ge [OF give(3)] assms(2) give(1) by (auto simp: replicas_ok_def)
  then have "k' = k - 1 \<and> active_count l = active_count (ls ! i) - 1 \<and> max_concurrent l = n"
    using give(4,5) m by (auto simp: release_def Let_def split: if_splits)
  then show ?thesis using assms(2) give(1-4) m
    by (auto simp: replicas_ok_def total_active_update dest!: set_update_subset_insert [THEN subsetD])
qed

text \<open>
  The limit holds across processes: any number of replicas that start with the limit \<open>n\<close> and share the Redis
  counter, and that only release what they were granted, never have more than \<open>n\<close> requests
  active together (as long as Redis answers and the key does not expire), and the counter is
  exactly the number of active requests.
\<close>

theorem replicas_bounded:
  assumes "replica_step\<^sup>*\<^sup>* (0, replicate m (new_limiter n)) (k, ls)" "0 \<le> n"
  shows "total_active ls = k \<and> k \<le> n"
proof -
  have "replicas_ok n (0, replicate m (new_limiter n))"
    using assms(2) by (simp add: replicas_ok_def total_active_def new_limiter_def sum_list_replicate)
  with assms(1) have "replicas_ok n (k, ls)"
    by (induction rule: rtranclp_induct) (auto intro: replica_step_ok)
  then show ?thesis by (simp add: replicas_ok_def)
qed

theorem replicas_bounded_witness:
  "total_active [\<lparr>max_concurrent = 1, permits = 0, active_count = 1\<rparr>, new_limiter 1] = 1"
proof -
  let ?l = "\<lparr>max_concurrent = 1, permits = 0, active_count = 1\<rparr>"
  have "replica_step (0, replicate 2 (new_limiter 1)) (1, (replicate 2 (new_limiter 1))[0 := ?l])"
    by (rule replica_step.take [where ok = True]) (simp_all add: acquire_def new_limiter_def)
  then have "replica_step\<^sup>*\<^sup>* (0, replicate 2 (new_limiter 1)) (1, [?l, new_limiter 1])"
    by (auto simp: numeral_2_eq_2)
  from replicas_bounded [OF this] show ?thesis by simp
qed

section \<open>The context manager\<close>

text \<open>
  The context manager does not limit: when the shared counter is full, \<open>async with\<close> enters although the
  slot was refused, and its exit gives back what was never taken: a permit too many in the
  process, an active count below the truth, and one of the slots of another replica.
\<close>

theorem context_manager_overruns:
  assumes "0 < permits l" "max_concurrent l \<le> n" "0 < n"
  shows "fst (the (acquire (Counter n, l))) = False \<and> aenter (Counter n, l) = Some (Counter n, l) \<and>
    execute (Counter n, l) =
      Some (Counter (n - 1), l\<lparr>permits := permits l + 1, active_count := active_count l - 1\<rparr>)"
  using assms by (auto simp: acquire_def aenter_def execute_def aexit_def release_def Let_def)

theorem context_manager_overruns_witness:
  "execute (Counter 1, new_limiter 1) = Some (Counter 0, \<lparr>max_concurrent = 1, permits = 2, active_count = -1\<rparr>)"
  using context_manager_overruns [of "new_limiter 1" 1] by (simp add: new_limiter_def)

end
