(* ===== verification/Canary.thy ===== *)
theory Canary
  imports PyNum
begin

text \<open>
  Operations: the canary controller of \<open>app/deploy/canary.py\<close> and the health score of
  \<open>app/monitoring/slo.py\<close>. The environment variables and the module variables of the controller are
  one record; clock readings and the random draw are arguments.
\<close>

section \<open>The canary controller\<close>

record canary =
  cn_enabled :: bool
  cn_stage :: string
  cn_error_threshold :: pyfloat
  cn_latency_threshold :: pyfloat
  cn_min_duration :: pyfloat
  cn_version :: string
  cn_previous_version :: string
  cn_rollback_triggered :: bool
  cn_rollback_reason :: "(string \<times> pyfloat \<times> pyfloat) list"
  cn_rollback_timestamp :: pyfloat
  cn_stage_start :: pyfloat
  cn_promotions :: int
  cn_rollbacks :: int

record canary_status =
  cs_enabled :: bool
  cs_stage :: string
  cs_weight_pct :: int
  cs_version :: string
  cs_previous_version :: string
  cs_stage_elapsed_seconds :: pyfloat
  cs_rollback_triggered :: bool
  cs_rollback_reason :: "(string \<times> pyfloat \<times> pyfloat) list"
  cs_promotion_count :: int
  cs_rollback_count :: int

record rollback_decision =
  rd_should_rollback :: bool
  rd_reason :: "(string \<times> pyfloat \<times> pyfloat) list"
  rd_error_rate_pct :: pyfloat
  rd_p95_latency_ms :: pyfloat
  rd_current_stage :: "string option"

definition CANARY_STAGES :: "string list" where
  "CANARY_STAGES = [''off'', ''pct5'', ''pct25'', ''pct50'', ''pct100'']"

definition CANARY_WEIGHTS :: "(string \<times> int) list" where
  "CANARY_WEIGHTS = [(''off'', 0), (''pct5'', 5), (''pct25'', 25), (''pct50'', 50), (''pct100'', 100)]"

definition get_stage_weight :: "string \<Rightarrow> int" where
  "get_stage_weight stage = (case map_of CANARY_WEIGHTS stage of None \<Rightarrow> 0 | Some w \<Rightarrow> w)"

fun index_of :: "string \<Rightarrow> string list \<Rightarrow> nat option" where
  "index_of x [] = None"
| "index_of x (y # ys) = (if y = x then Some 0 else map_option Suc (index_of x ys))"

definition get_next_stage :: "string \<Rightarrow> string option" where
  "get_next_stage current =
     (case index_of current CANARY_STAGES of
        None \<Rightarrow> None
      | Some idx \<Rightarrow> if idx < length CANARY_STAGES - 1 then Some (CANARY_STAGES ! (idx + 1)) else None)"

definition get_previous_stage :: "string \<Rightarrow> string option" where
  "get_previous_stage current =
     (case index_of current CANARY_STAGES of
        None \<Rightarrow> None
      | Some idx \<Rightarrow> if 0 < idx then Some (CANARY_STAGES ! (idx - 1)) else None)"

definition get_canary_status :: "pyfloat \<Rightarrow> canary \<Rightarrow> canary_status" where
  "get_canary_status now c =
     \<lparr>cs_enabled = cn_enabled c, cs_stage = cn_stage c, cs_weight_pct = get_stage_weight (cn_stage c),
      cs_version = cn_version c, cs_previous_version = cn_previous_version c,
      cs_stage_elapsed_seconds = (if 0 < cn_stage_start c then fsub now (cn_stage_start c) else 0),
      cs_rollback_triggered = cn_rollback_triggered c, cs_rollback_reason = cn_rollback_reason c,
      cs_promotion_count = cn_promotions c, cs_rollback_count = cn_rollbacks c\<rparr>"

definition is_canary_active :: "canary \<Rightarrow> bool" where
  "is_canary_active c \<longleftrightarrow> cn_enabled c \<and> cn_stage c \<noteq> ''off'' \<and> cn_stage c \<noteq> ''pct100''"

definition should_accept_canary_traffic :: "int \<Rightarrow> canary \<Rightarrow> bool" where
  \<comment> \<open>\<open>draw\<close> is \<open>random.randint(1, 100)\<close>\<close>
  "should_accept_canary_traffic draw c =
     (if \<not> cn_enabled c \<or> cn_stage c = ''off'' then False
      else if cn_stage c = ''pct100'' then True
      else draw \<le> get_stage_weight (cn_stage c))"

definition evaluate_rollback :: "pyfloat \<Rightarrow> pyfloat \<Rightarrow> pyfloat \<Rightarrow> canary \<Rightarrow> rollback_decision \<times> canary" where
  "evaluate_rollback now err p95 c =
     (let reasons = (if cn_error_threshold c < err then [(''error_rate'', err, cn_error_threshold c)] else []) @
                    (if cn_latency_threshold c < p95 then [(''p95_latency'', p95, cn_latency_threshold c)] else []) in
      if reasons \<noteq> [] then
        let c1 = c\<lparr>cn_rollbacks := cn_rollbacks c + 1\<rparr>;
            c2 = (if cn_rollback_triggered c1 then c1
                  else c1\<lparr>cn_rollback_triggered := True, cn_rollback_reason := reasons, cn_rollback_timestamp := now\<rparr>)
        in (\<lparr>rd_should_rollback = True, rd_reason = cn_rollback_reason c2, rd_error_rate_pct = err,
             rd_p95_latency_ms = p95, rd_current_stage = Some (cn_stage c2)\<rparr>, c2)
      else (\<lparr>rd_should_rollback = False, rd_reason = [], rd_error_rate_pct = err, rd_p95_latency_ms = p95,
             rd_current_stage = None\<rparr>, c))"

datatype promotion_reason = Canary_disabled | Rollback_active | Already_at_pct100 | Stage_too_young pyfloat pyfloat | Elapsed pyfloat

definition promote_canary_stage :: "pyfloat \<Rightarrow> pyfloat \<Rightarrow> canary \<Rightarrow> (bool \<times> string \<times> promotion_reason) \<times> canary" where
  \<comment> \<open>the two readings of the clock\<close>
  "promote_canary_stage now now2 c =
     (if \<not> cn_enabled c then ((False, cn_stage c, Canary_disabled), c)
      else if cn_rollback_triggered c then ((False, cn_stage c, Rollback_active), c)
      else case get_next_stage (cn_stage c) of
        None \<Rightarrow> ((False, cn_stage c, Already_at_pct100), c)
      | Some next_stage \<Rightarrow>
          let elapsed = (if 0 < cn_stage_start c then fsub now (cn_stage_start c) else fadd (cn_min_duration c) 1) in
          if elapsed < cn_min_duration c
          then ((False, cn_stage c, Stage_too_young elapsed (cn_min_duration c)), c)
          else ((True, next_stage, Elapsed elapsed),
                c\<lparr>cn_promotions := cn_promotions c + 1, cn_stage_start := now2\<rparr>))"

definition init_canary :: "pyfloat \<Rightarrow> canary \<Rightarrow> canary" where
  "init_canary now c = (if cn_enabled c \<and> cn_stage c \<noteq> ''off'' then c\<lparr>cn_stage_start := now\<rparr> else c)"

subsection \<open>Histories of the controller\<close>

datatype canary_call = Evaluate pyfloat pyfloat pyfloat | Promote pyfloat pyfloat

fun canary_after :: "canary_call \<Rightarrow> canary \<Rightarrow> canary" where
  "canary_after (Evaluate now err p95) c = snd (evaluate_rollback now err p95 c)"
| "canary_after (Promote now now2) c = snd (promote_canary_stage now now2 c)"

lemma canary_after_stage [simp]:
  "cn_stage (canary_after op c) = cn_stage c" "cn_enabled (canary_after op c) = cn_enabled c"
  by (cases op; simp add: evaluate_rollback_def promote_canary_stage_def Let_def split: option.split)+

lemma canary_after_latch:
  "cn_rollback_triggered c \<Longrightarrow>
   cn_rollback_triggered (canary_after op c) \<and> cn_rollback_reason (canary_after op c) = cn_rollback_reason c"
  by (cases op; auto simp: evaluate_rollback_def promote_canary_stage_def Let_def split: option.split)

lemma fold_stage [simp]: "cn_stage (fold canary_after ops c) = cn_stage c" "cn_enabled (fold canary_after ops c) = cn_enabled c"
  by (induction ops arbitrary: c) simp_all

lemma fold_latch:
  "cn_rollback_triggered c \<Longrightarrow>
   cn_rollback_triggered (fold canary_after ops c) \<and> cn_rollback_reason (fold canary_after ops c) = cn_rollback_reason c"
  by (induction ops arbitrary: c) (simp_all add: canary_after_latch)

text \<open>
  A rollback is a latch without an effect on traffic: once a rate or a latency is above its threshold, every
  later promotion is refused with \<open>rollback_active\<close> and the reason stays the first one, whatever
  happens; but the share of requests that the canary accepts is the same as before.
\<close>

theorem rollback_latches:
  fixes t :: pyfloat and ops :: "canary_call list"
  assumes "cn_error_threshold c < err \<or> cn_latency_threshold c < lat" "cn_enabled c"
  defines "c' \<equiv> fold canary_after ops (snd (evaluate_rollback t err lat c))"
  shows "fst (promote_canary_stage now now2 c') = (False, cn_stage c, Rollback_active) \<and>
    cs_rollback_reason (get_canary_status now c') = rd_reason (fst (evaluate_rollback t err lat c)) \<and>
    should_accept_canary_traffic draw c' = should_accept_canary_traffic draw c"
proof -
  let ?c = "snd (evaluate_rollback t err lat c)"
  have "cn_rollback_triggered ?c" "cn_rollback_reason ?c = rd_reason (fst (evaluate_rollback t err lat c))"
    "cn_stage ?c = cn_stage c" "cn_enabled ?c = cn_enabled c"
    using assms(1) by (auto simp: evaluate_rollback_def Let_def)
  then show ?thesis using assms(2) fold_latch [of ?c ops]
    by (simp add: c'_def promote_canary_stage_def get_canary_status_def should_accept_canary_traffic_def)
qed

definition sample_canary :: canary where
  "sample_canary = \<lparr>cn_enabled = True, cn_stage = ''pct5'', cn_error_threshold = 5, cn_latency_threshold = 5000,
     cn_min_duration = 300, cn_version = ''v2'', cn_previous_version = ''v1'', cn_rollback_triggered = False,
     cn_rollback_reason = [], cn_rollback_timestamp = 0, cn_stage_start = 1, cn_promotions = 0, cn_rollbacks = 0\<rparr>"

theorem rollback_latches_witness:
  "should_accept_canary_traffic 3 (snd (evaluate_rollback 9 60 10 sample_canary)) = should_accept_canary_traffic 3 sample_canary"
proof -
  have "cn_error_threshold sample_canary < 60" "cn_enabled sample_canary" by (simp_all add: sample_canary_def)
  with rollback_latches [where c = sample_canary and err = 60 and lat = 10 and t = 9 and ops = "[]" and draw = 3]
  show ?thesis by simp
qed

text \<open>
  A promotion promotes nothing: however often the controller answers that the stage was promoted, the stage, the
  weight and the traffic stay those of the environment variable, and an accepted promotion announces the same
  next stage every time.
\<close>

theorem promotion_keeps_stage:
  "cs_weight_pct (get_canary_status now (fold canary_after ops c)) = get_stage_weight (cn_stage c) \<and>
   should_accept_canary_traffic draw (fold canary_after ops c) = should_accept_canary_traffic draw c \<and>
   (case promote_canary_stage t t' (fold canary_after ops c) of ((done, stage, why), c') \<Rightarrow>
      if done then get_next_stage (cn_stage c) = Some stage else stage = cn_stage c)"
  by (auto simp: get_canary_status_def should_accept_canary_traffic_def promote_canary_stage_def Let_def
      split: option.split)

section \<open>The health score\<close>

datatype health = Healthy | Degraded | Critical

record health_score =
  hs_score :: pyfloat
  hs_status :: health
  hs_availability :: pyfloat
  hs_error_rate :: pyfloat
  hs_latency :: pyfloat

definition avail_score :: "pyfloat \<Rightarrow> pyfloat" where
  "avail_score availability = min 100 (fmul (fdiv availability (f64 (999/1000))) 40)"

definition error_score :: "pyfloat \<Rightarrow> pyfloat" where
  "error_score error_rate = max 0 (fmul (fsub 1 (fdiv error_rate (f64 (1/100)))) 30)"

definition latency_score :: "pyfloat \<Rightarrow> pyfloat" where
  "latency_score p95 = max 0 (min 30 (fmul (fsub 1 (fdiv p95 1000)) 30))"

definition calculate_health_score :: "pyfloat \<Rightarrow> pyfloat \<Rightarrow> pyfloat \<Rightarrow> health_score" where
  "calculate_health_score availability error_rate p95 =
     (let a = avail_score availability; e = error_score error_rate; l = latency_score p95;
          total = py_round 1 (fadd (fadd a e) l) in
      \<lparr>hs_score = total,
       hs_status = (if total < 60 then Critical else if total < 80 then Degraded else Healthy),
       hs_availability = py_round 1 a, hs_error_rate = py_round 1 e, hs_latency = py_round 1 l\<rparr>)"

lemma score_parts_mono:
  "a \<le> a' \<Longrightarrow> avail_score a \<le> avail_score a'"
  "e' \<le> e \<Longrightarrow> error_score e \<le> error_score e'"
  "l' \<le> l \<Longrightarrow> latency_score l \<le> latency_score l'"
proof -
  have m: "x \<le> y \<Longrightarrow> 0 \<le> b \<Longrightarrow> fmul x b \<le> fmul y b" for x y b :: rat
    unfolding fmul_def by (intro f64_mono mult_right_mono)
  have s: "x \<le> y \<Longrightarrow> fsub 1 y \<le> fsub 1 x" for x y unfolding fsub_def by (intro f64_mono) simp
  show "a \<le> a' \<Longrightarrow> avail_score a \<le> avail_score a'"
    unfolding avail_score_def by (intro min.mono order_refl m fdiv_mono) simp_all
  show "e' \<le> e \<Longrightarrow> error_score e \<le> error_score e'"
    unfolding error_score_def by (intro max.mono order_refl m s fdiv_mono) simp_all
  show "l' \<le> l \<Longrightarrow> latency_score l \<le> latency_score l'"
    unfolding latency_score_def by (intro max.mono min.mono order_refl m s fdiv_mono) simp_all
qed

text \<open>
  The health score is monotone: it never falls when the availability rises, the error rate falls or the latency
  falls, rounding included; so an improvement never turns a healthy service critical.
\<close>

theorem health_score_monotone:
  assumes "a \<le> a'" "e' \<le> e" "l' \<le> l"
  shows "hs_score (calculate_health_score a e l) \<le> hs_score (calculate_health_score a' e' l') \<and>
    (hs_status (calculate_health_score a' e' l') = Critical \<longrightarrow> hs_status (calculate_health_score a e l) = Critical)"
proof -
  have "hs_score (calculate_health_score a e l) \<le> hs_score (calculate_health_score a' e' l')"
    using score_parts_mono assms by (simp add: calculate_health_score_def Let_def py_round_mono fadd_mono)
  then show ?thesis by (auto simp: calculate_health_score_def Let_def split: if_splits)
qed

theorem health_score_monotone_witness:
  "hs_score (calculate_health_score (1/2) (1/4) 900) \<le> hs_score (calculate_health_score 1 0 100)"
  using health_score_monotone [of "1/2" 1 0 "1/4" 100 900] by simp

end
