(* ===== verification/TaskQueue.thy ===== *)
theory TaskQueue
  imports PyValue DataModel Retries
begin

text \<open>
  Between the web process and the workers, \<open>celery_config/broker.py\<close>: the health of the broker, the
  signing key and the signatures of task payloads, the enqueue wrapper with its backpressure, and the
  dead letter queue with its poison counter. The HMAC of the JSON text of a dictionary with sorted keys
  is the parameter \<open>mac\<close>, a function of the key and of the dictionary as a map; Celery's
  \<open>apply_async\<close> is a parameter too. The polling for a sentinel key after a dispatch, which only
  logs, and the metrics are left out.
\<close>

section \<open>Health of the broker\<close>

definition BROKER_HEALTH_CHECK_INTERVAL :: pyfloat where "BROKER_HEALTH_CHECK_INTERVAL = 5"
definition BROKER_UNHEALTHY_THRESHOLD :: pyfloat where "BROKER_UNHEALTHY_THRESHOLD = 60"

record broker =
  br_unhealthy_since :: "pyfloat option"
  br_last_check :: pyfloat

definition new_broker :: broker where
  "new_broker = \<lparr>br_unhealthy_since = None, br_last_check = 0\<rparr>"

definition is_broker_healthy :: "pyfloat \<Rightarrow> bool \<Rightarrow> broker \<Rightarrow> bool \<times> broker" where
  \<comment> \<open>\<open>probe\<close>: the connection answers the ping and takes the write\<close>
  "is_broker_healthy now probe b =
     (if fsub now (br_last_check b) < BROKER_HEALTH_CHECK_INTERVAL then
        (case br_unhealthy_since b of None \<Rightarrow> True | Some t \<Rightarrow> fsub now t < BROKER_UNHEALTHY_THRESHOLD, b)
      else
        let b1 = b\<lparr>br_last_check := now\<rparr> in
        if probe then (True, b1\<lparr>br_unhealthy_since := None\<rparr>)
        else let since = (case br_unhealthy_since b of None \<Rightarrow> now | Some t \<Rightarrow> t)
             in (fsub now since < BROKER_UNHEALTHY_THRESHOLD, b1\<lparr>br_unhealthy_since := Some since\<rparr>))"

section \<open>Signing\<close>

definition PAYLOAD_VERSION :: int where "PAYLOAD_VERSION = 1"
definition MIN_SUPPORTED_VERSION :: int where "MIN_SUPPORTED_VERSION = 1"
definition MAX_SUPPORTED_VERSION :: int where "MAX_SUPPORTED_VERSION = 1"
definition SIGNING_KEY_REFRESH_INTERVAL :: pyfloat where "SIGNING_KEY_REFRESH_INTERVAL = 300"

record signing =
  sg_key :: "string option"
  sg_loaded :: pyfloat
  sg_old_key :: "string option"
  sg_old_expiry :: pyfloat

definition new_signing :: signing where
  "new_signing = \<lparr>sg_key = None, sg_loaded = 0, sg_old_key = None, sg_old_expiry = 0\<rparr>"

record key_sources =
  \<comment> \<open>\<open>celery_task_signing_key\<close> of the settings, and the environment variable\<close>
  ks_settings :: "string option"
  ks_environ :: "string option"

definition configured_key :: "key_sources \<Rightarrow> string option" where
  "configured_key ks =
     (if \<not> truthy_str (ks_settings ks) \<or> ks_settings ks = Some ''__REQUIRED__'' then ks_environ ks else ks_settings ks)"

definition get_signing_key :: "pyfloat \<Rightarrow> key_sources \<Rightarrow> signing \<Rightarrow> string option \<times> signing" where
  \<comment> \<open>the old key and its expiry are assigned to local variables of the function: the statement
      \<open>global\<close> names only the key and its load time\<close>
  "get_signing_key now ks s =
     (if sg_key s \<noteq> None \<and> fsub now (sg_loaded s) < SIGNING_KEY_REFRESH_INTERVAL then (sg_key s, s)
      else (configured_key ks, s\<lparr>sg_key := configured_key ks, sg_loaded := now\<rparr>))"

type_synonym mac = "string \<Rightarrow> (string \<rightharpoonup> pyval) \<Rightarrow> string"

definition sign_task_payload ::
    "mac \<Rightarrow> pyfloat \<Rightarrow> key_sources \<Rightarrow> (string \<times> pyval) list \<Rightarrow> signing \<Rightarrow> string \<times> signing" where
  "sign_task_payload mac now ks payload s =
     (let (key, s1) = get_signing_key now ks s
      in (if truthy_str key then mac (the key) (map_of payload) else '''', s1))"

definition verify_task_payload ::
    "mac \<Rightarrow> pyfloat \<Rightarrow> key_sources \<Rightarrow> (string \<times> pyval) list \<Rightarrow> string \<Rightarrow> signing \<Rightarrow> bool \<times> signing" where
  "verify_task_payload mac now ks payload signature s =
     (let (key, s1) = get_signing_key now ks s in
      if \<not> truthy_str key then (False, s1)
      else if signature = '''' then (False, s1)
      else let (expected, s2) = sign_task_payload mac now ks payload s1 in
           if expected = signature then (True, s2)
           else (case sg_old_key s2 of
                   Some old \<Rightarrow> now < sg_old_expiry s2 \<and> mac old (map_of payload) = signature
                 | None \<Rightarrow> False, s2))"

section \<open>Tasks\<close>

fun hex_digits :: "nat \<Rightarrow> nat \<Rightarrow> string" where
  "hex_digits 0 n = []"
| "hex_digits (Suc k) n = hex_digits k (n div 16) @ [''0123456789abcdef'' ! (n mod 16)]"

definition str_uuid :: "uuid \<Rightarrow> string" where
  "str_uuid u = hex_digits 8 (u div 16 ^ 24) @ ''-'' @ hex_digits 4 (u div 16 ^ 20) @ ''-'' @
     hex_digits 4 (u div 16 ^ 16) @ ''-'' @ hex_digits 4 (u div 16 ^ 12) @ ''-'' @ hex_digits 12 u"

function nat_text :: "nat \<Rightarrow> string" where
  "nat_text n = (if n < 10 then [] else nat_text (n div 10)) @ [''0123456789'' ! (n mod 10)]"
  by pat_completeness auto

termination nat_text
  by (relation "measure (\<lambda>n. n)") auto

declare nat_text.simps [simp del]

definition int_text :: "int \<Rightarrow> string" where
  "int_text i = (if i < 0 then ''-'' else []) @ nat_text (nat \<bar>i\<bar>)"

definition opt_str :: "string option \<Rightarrow> pyval" where
  "opt_str s = (case s of None \<Rightarrow> VNone | Some t \<Rightarrow> VStr t)"

record task_args =
  ta_job :: uuid
  ta_company :: uuid
  ta_user :: "string option"
  ta_audio_url :: "string option"
  ta_image_urls :: "string list option"
  ta_description :: string
  ta_trade_type :: string
  ta_trace_id :: "string option"
  ta_estimated_cost_usd :: pyfloat
  ta_reserved_acu :: pyfloat
  ta_payload_version :: int
  ta_hmac :: string

definition task_params :: "string list" where
  \<comment> \<open>the parameters of \<open>process_job_task\<close>\<close>
  "task_params = [''job_id'', ''company_id'', ''user_id'', ''audio_url'', ''image_urls'', ''description'', ''trade_type'',
     ''trace_id'', ''estimated_cost_usd'', ''reserved_acu'', ''payload_version'', ''_hmac'']"

definition worker_payload :: "task_args \<Rightarrow> (string \<times> pyval) list" where
  \<comment> \<open>the dictionary that the worker verifies\<close>
  "worker_payload t =
     [(''payload_version'', VInt (ta_payload_version t)), (''job_id'', VStr (str_uuid (ta_job t))),
      (''company_id'', VStr (str_uuid (ta_company t))), (''user_id'', opt_str (ta_user t)),
      (''audio_url'', opt_str (ta_audio_url t)),
      (''image_urls'', (case ta_image_urls t of None \<Rightarrow> VNone | Some us \<Rightarrow> VList (map VStr us))),
      (''description'', VStr (ta_description t)), (''trade_type'', VStr (ta_trade_type t)),
      (''trace_id'', opt_str (ta_trace_id t)), (''estimated_cost_usd'', VFloat (ta_estimated_cost_usd t)),
      (''reserved_acu'', VFloat (ta_reserved_acu t))]"

definition enqueue_payload :: "task_args \<Rightarrow> string option \<Rightarrow> (string \<times> pyval) list" where
  \<comment> \<open>the dictionary that the web process signs and sends\<close>
  "enqueue_payload t request_id =
     [(''payload_version'', VInt PAYLOAD_VERSION), (''job_id'', VStr (str_uuid (ta_job t))),
      (''company_id'', VStr (str_uuid (ta_company t))), (''user_id'', opt_str (ta_user t)),
      (''audio_url'', opt_str (ta_audio_url t)),
      (''image_urls'', VList (map VStr (case ta_image_urls t of None \<Rightarrow> [] | Some us \<Rightarrow> us))),
      (''description'', VStr (ta_description t)), (''trade_type'', VStr (ta_trade_type t)),
      (''trace_id'', VStr (case ta_trace_id t of None \<Rightarrow> '''' | Some s \<Rightarrow> s)),
      (''request_id'', VStr (case request_id of None \<Rightarrow> '''' | Some s \<Rightarrow> s)),
      (''estimated_cost_usd'', VFloat (ta_estimated_cost_usd t)), (''reserved_acu'', VFloat (ta_reserved_acu t))]"

section \<open>Enqueueing\<close>

definition queue_thresholds :: "(string \<times> int) list" where
  "queue_thresholds = [(''default'', 500), (''ai_text'', 200), (''ai_audio'', 200), (''ai_image'', 200), (''beat'', 50)]"

fun too_deep :: "(string \<Rightarrow> int option) \<Rightarrow> (string \<times> int) list \<Rightarrow> string option" where
  \<comment> \<open>the first queue over its threshold; \<open>None\<close> as a depth: the call raises, which ends the check\<close>
  "too_deep depth [] = None"
| "too_deep depth ((q, threshold) # qs) =
     (case depth q of None \<Rightarrow> None | Some d \<Rightarrow> if threshold < d then Some q else too_deep depth qs)"

datatype enqueue_error = Queue_too_deep string | Broker_unhealthy | Key_not_configured | Dispatch_raises pyerr

record dispatch =
  dp_task_id :: "string option"
  dp_job_id :: string
  dp_company_id :: string
  dp_signed :: bool
  dp_queue :: string

record enqueue_env =
  eq_now :: pyfloat
  eq_depths :: "(string \<Rightarrow> int option) option"  \<comment> \<open>\<open>None\<close>: no connection\<close>
  eq_probe :: bool
  eq_debug :: bool
  eq_keys :: key_sources
  eq_mac :: mac
  eq_apply_async :: "string option \<Rightarrow> (string \<times> pyval) list \<Rightarrow> pyerr + string option"
    \<comment> \<open>the queue, if one is named, and the keyword arguments; the id of the sent task\<close>

record client =
  cl_broker :: broker
  cl_signing :: signing

definition enqueue_job_task ::
    "enqueue_env \<Rightarrow> task_args \<Rightarrow> string option \<Rightarrow> string \<Rightarrow> client \<Rightarrow> (enqueue_error + dispatch) \<times> client" where
  "enqueue_job_task env t request_id queue c =
     (case (case eq_depths env of None \<Rightarrow> None | Some depth \<Rightarrow> too_deep depth queue_thresholds) of
        Some q \<Rightarrow> (Inl (Queue_too_deep q), c)
      | None \<Rightarrow>
          let (ok, b) = is_broker_healthy (eq_now env) (eq_probe env) (cl_broker c); c1 = c\<lparr>cl_broker := b\<rparr> in
          if \<not> ok \<and> \<not> eq_debug env then (Inl Broker_unhealthy, c1)
          else
            let (key, s1) = get_signing_key (eq_now env) (eq_keys env) (cl_signing c); c2 = c1\<lparr>cl_signing := s1\<rparr> in
            if \<not> truthy_str key then (Inl Key_not_configured, c2)
            else
              let payload = enqueue_payload t request_id;
                  (signature, s2) = sign_task_payload (eq_mac env) (eq_now env) (eq_keys env) payload s1;
                  sent = eq_apply_async env (if queue = '''' then None else Some queue)
                           (payload @ [(''_hmac'', VStr signature)])
              in (case sent of
                    Inl err \<Rightarrow> Inl (Dispatch_raises err)
                  | Inr task_id \<Rightarrow> Inr \<lparr>dp_task_id = task_id, dp_job_id = str_uuid (ta_job t),
                      dp_company_id = str_uuid (ta_company t), dp_signed = (signature \<noteq> ''''), dp_queue = queue\<rparr>,
                  c2\<lparr>cl_signing := s2\<rparr>))"

section \<open>Dead letters\<close>

datatype poison_redis = Poison_down | Poison_counters "string \<rightharpoonup> int \<times> rat"
  \<comment> \<open>Redis cannot be reached, or the counters with their expiry\<close>

definition poison_key :: "uuid \<Rightarrow> string \<Rightarrow> string" where
  "poison_key job task_name = ''poison:'' @ str_uuid job @ '':'' @ task_name"

record letter =
  lt_job :: uuid
  lt_company :: uuid
  lt_user :: "string option"
  lt_task_name :: string
  lt_error_message :: string
  lt_failure_category :: string
  lt_last_state :: string
  lt_retry_count :: int
  lt_trace_id :: "string option"

definition dead_letter_of :: "uuid \<Rightarrow> micros \<Rightarrow> letter \<Rightarrow> dead_letter_job" where
  "dead_letter_of fresh now l =
     \<lparr>dl_id = fresh, dl_job_id = lt_job l, dl_company_id = lt_company l, dl_user_id = lt_user l,
      dl_task_name = lt_task_name l, dl_error_message = Some (take 500 (lt_error_message l)),
      dl_failure_category = Some (lt_failure_category l), dl_last_state = Some (lt_last_state l),
      dl_retry_count = lt_retry_count l, dl_trace_id = lt_trace_id l, dl_created_at = now,
      dl_expires_at = Some (now + hours 720)\<rparr>"

record dead_letters =
  dd_poison :: poison_redis
  dd_rows :: "dead_letter_job list"
  dd_fallback :: "letter list"  \<comment> \<open>the JSONL file\<close>

record letter_env =
  le_srv :: rat
  le_fresh :: uuid
  le_now :: micros
  le_write_ok :: "nat \<Rightarrow> bool"
  le_file_ok :: bool

definition poisoned :: "rat \<Rightarrow> string \<Rightarrow> poison_redis \<Rightarrow> bool" where
  "poisoned srv key p = (case p of Poison_down \<Rightarrow> False | Poison_counters m \<Rightarrow> 5 \<le> live_counter srv m key)"

definition count_attempt :: "rat \<Rightarrow> string \<Rightarrow> poison_redis \<Rightarrow> poison_redis" where
  "count_attempt srv key p =
     (case p of Poison_down \<Rightarrow> p | Poison_counters m \<Rightarrow> Poison_counters (m(key \<mapsto> (live_counter srv m key + 1, srv + 86400))))"

definition move_to_dead_letter :: "letter_env \<Rightarrow> letter \<Rightarrow> dead_letters \<Rightarrow> dead_letters" where
  "move_to_dead_letter env l d =
     (let key = poison_key (lt_job l) (lt_task_name l) in
      if poisoned (le_srv env) key (dd_poison d) then d
      else
        let d1 = d\<lparr>dd_poison := count_attempt (le_srv env) key (dd_poison d)\<rparr> in
        if list_ex (le_write_ok env) [0..<3]
        then d1\<lparr>dd_rows := dd_rows d1 @ [dead_letter_of (le_fresh env) (le_now env) l]\<rparr>
        else if le_file_ok env
             then d1\<lparr>dd_fallback := dd_fallback d1 @ [l\<lparr>lt_error_message := take 500 (lt_error_message l)\<rparr>]\<rparr>
             else d1)"

section \<open>What a signature proves\<close>

definition signing_fresh :: "signing \<Rightarrow> bool" where
  \<comment> \<open>no old key: how the module starts, and what every call keeps\<close>
  "signing_fresh s \<longleftrightarrow> sg_old_key s = None"

lemma get_signing_key_fresh [simp]: "signing_fresh (snd (get_signing_key now ks s)) = signing_fresh s"
  by (simp add: get_signing_key_def signing_fresh_def)

lemma get_signing_key_again:
  "get_signing_key now ks s = (key, s1) \<Longrightarrow> truthy_str key \<Longrightarrow> get_signing_key now ks s1 = (key, s1)"
  by (auto simp: get_signing_key_def split: if_splits)

lemma verify_exact:
  assumes "signing_fresh s"
  shows "fst (verify_task_payload mac now ks payload sig s) \<longleftrightarrow>
    truthy_str (fst (get_signing_key now ks s)) \<and> sig \<noteq> [] \<and> sig = mac (the (fst (get_signing_key now ks s))) (map_of payload)"
proof -
  obtain key s1 where k: "get_signing_key now ks s = (key, s1)" by fastforce
  then have f: "sg_old_key s1 = None" using assms get_signing_key_fresh [of now ks s] by (simp add: signing_fresh_def)
  show ?thesis
  proof (cases "truthy_str key")
    case True
    show ?thesis using f True get_signing_key_again [OF k True]
      by (auto simp: verify_task_payload_def sign_task_payload_def k Let_def)
  qed (simp add: verify_task_payload_def k)
qed

text \<open>
  A signature is accepted only under the key of the moment: what was signed with a key verifies as long as that
  key is the current one, and after the key has been replaced it never verifies, the documented
  grace period of five minutes notwithstanding (the old key is stored in local variables).
\<close>

theorem signature_roundtrip:
  assumes "signing_fresh s" "signing_fresh s'" "get_signing_key now ks s = (Some key, s1)" "key \<noteq> []"
    and "get_signing_key now' ks' s' = (Some key', s1')" "key' \<noteq> []"
    and "mac key (map_of payload) \<noteq> []" "key' \<noteq> key \<longrightarrow> mac key (map_of payload) \<noteq> mac key' (map_of payload)"
  shows "fst (verify_task_payload mac now' ks' payload (fst (sign_task_payload mac now ks payload s)) s') \<longleftrightarrow> key' = key"
  using assms by (auto simp: verify_exact sign_task_payload_def)

definition checks_arguments :: "(string option \<Rightarrow> (string \<times> pyval) list \<Rightarrow> pyerr + string option) \<Rightarrow> bool" where
  \<comment> \<open>documented of Celery's \<open>apply_async\<close>: an argument that the task does not take raises \<open>TypeError\<close>\<close>
  "checks_arguments apply_async \<longleftrightarrow>
     (\<forall>q kwargs. \<not> fst ` set kwargs \<subseteq> set task_params \<longrightarrow> apply_async q kwargs = Inl TypeError)"

definition tells_apart :: "mac \<Rightarrow> bool" where
  \<comment> \<open>of HMAC-SHA256: dictionaries with and without a request id do not collide\<close>
  "tells_apart mac \<longleftrightarrow>
     (\<forall>k k' p p'. p ''request_id'' \<noteq> None \<and> p' ''request_id'' = None \<longrightarrow> mac k p \<noteq> mac k' p')"

text \<open>
  C35. No task of the enqueue wrapper reaches a worker: its arguments contain \<open>request_id\<close>, which the task
  does not take, so that Celery's check of the arguments raises; and a worker would not accept the
  signature either, since it verifies a dictionary without that entry.
\<close>

theorem enqueued_task_never_accepted:
  assumes "checks_arguments (eq_apply_async env)" "tells_apart mac" "signing_fresh s'"
  shows "(\<nexists>r. fst (enqueue_job_task env t request_id queue c) = Inr r) \<and>
    \<not> fst (verify_task_payload mac now' ks' (worker_payload t')
            (fst (sign_task_payload mac now ks (enqueue_payload t request_id) s)) s')"
proof
  have "\<not> fst ` set (enqueue_payload t request_id @ [(''_hmac'', VStr x)]) \<subseteq> set task_params" for x
    by (simp add: enqueue_payload_def task_params_def)
  then have "eq_apply_async env q (enqueue_payload t request_id @ [(''_hmac'', VStr x)]) = Inl TypeError" for q x
    using assms(1) unfolding checks_arguments_def by blast
  then show "\<nexists>r. fst (enqueue_job_task env t request_id queue c) = Inr r"
    by (simp add: enqueue_job_task_def Let_def case_prod_beta split: option.split)
  have "map_of (enqueue_payload t request_id) ''request_id'' \<noteq> None" "map_of (worker_payload t') ''request_id'' = None"
    by (simp_all add: enqueue_payload_def worker_payload_def)
  then have "mac k (map_of (enqueue_payload t request_id)) \<noteq> mac k' (map_of (worker_payload t'))" for k k'
    using assms(2) unfolding tells_apart_def by blast
  then show "\<not> fst (verify_task_payload mac now' ks' (worker_payload t')
            (fst (sign_task_payload mac now ks (enqueue_payload t request_id) s)) s')"
    by (auto simp: verify_exact [OF assms(3)] sign_task_payload_def Let_def case_prod_beta split: if_splits)
qed

section \<open>Poisonous tasks\<close>

definition letters_for :: "uuid \<Rightarrow> string \<Rightarrow> dead_letters \<Rightarrow> nat" where
  \<comment> \<open>dead letters of a job and task, in the table and in the fallback file\<close>
  "letters_for j task_name d =
     length (filter (\<lambda>r. dl_job_id r = j \<and> dl_task_name r = task_name) (dd_rows d)) +
     length (filter (\<lambda>l. lt_job l = j \<and> lt_task_name l = task_name) (dd_fallback d))"

definition counted :: "rat \<Rightarrow> uuid \<Rightarrow> string \<Rightarrow> nat \<Rightarrow> dead_letters \<Rightarrow> bool" where
  \<comment> \<open>the counter of the key stays alive until \<open>until\<close> and bounds the letters written beyond \<open>base\<close>\<close>
  "counted until j task_name base d \<longleftrightarrow>
     (\<exists>m n e. dd_poison d = Poison_counters m \<and>
        (m (poison_key j task_name) = None \<and> n = 0 \<or> m (poison_key j task_name) = Some (n, e) \<and> until \<le> e) \<and>
        0 \<le> n \<and> n \<le> 5 \<and> int (letters_for j task_name d) \<le> int base + n)"

lemma live_counter_cases:
  "m key = None \<Longrightarrow> live_counter srv m key = 0" "m key = Some (n, e) \<Longrightarrow> srv < e \<Longrightarrow> live_counter srv m key = n"
  by (simp_all add: live_counter_def)

lemma letter_counted:
  assumes "counted until j task_name base d" "until - 86400 \<le> le_srv env" "le_srv env < until"
  shows "counted until j task_name base (move_to_dead_letter env l d)"
proof -
  let ?key = "poison_key j task_name" and ?k = "poison_key (lt_job l) (lt_task_name l)"
  obtain m n e where m: "dd_poison d = Poison_counters m"
      "m ?key = None \<and> n = 0 \<or> m ?key = Some (n, e) \<and> until \<le> e" "0 \<le> n" "n \<le> 5"
      "int (letters_for j task_name d) \<le> int base + n"
    using assms(1) unfolding counted_def by blast
  have live: "live_counter (le_srv env) m ?key = n" using m(2) assms(3) by (auto simp: live_counter_def)
  show ?thesis
  proof (cases "poisoned (le_srv env) ?k (dd_poison d)")
    case True
    then show ?thesis using assms(1) by (simp add: move_to_dead_letter_def)
  next
    case False
    let ?d' = "move_to_dead_letter env l d"
    let ?m' = "m(?k \<mapsto> (live_counter (le_srv env) m ?k + 1, le_srv env + 86400))"
    have p: "dd_poison ?d' = Poison_counters ?m'"
      using False m(1) by (simp add: move_to_dead_letter_def Let_def count_attempt_def)
    have le: "letters_for j task_name ?d' \<le> letters_for j task_name d + (if ?k = ?key then 1 else 0)"
      using False by (auto simp: move_to_dead_letter_def Let_def letters_for_def dead_letter_of_def)
    show ?thesis
    proof (cases "?k = ?key")
      case True
      then have "n < 5" using False m(1) live by (simp add: poisoned_def)
      then show ?thesis using p le True live m(3,5) assms(2) unfolding counted_def
        by (intro exI [of _ ?m'] exI [of _ "n + 1"] exI [of _ "le_srv env + 86400"]) auto
    next
      case other: False
      then have "?m' ?key = m ?key" by simp
      then show ?thesis using p le other m(2-5) unfolding counted_def
        by (intro exI [of _ ?m'] exI [of _ n] exI [of _ e]) auto
    qed
  qed
qed

text \<open>
  A poisonous task is buried at most five times in a day: while Redis keeps its counters, whatever letters of
  whatever tasks are written within 24 hours, whether the table or the fallback file takes them,
  at most five of them are for the same job and task.
\<close>

theorem dead_letters_bounded:
  assumes "dd_poison d = Poison_counters m" "m (poison_key j task_name) = None"
    and "\<forall>c \<in> set calls. start \<le> le_srv (fst c) \<and> le_srv (fst c) < start + 86400"
  shows "letters_for j task_name (fold (\<lambda>c. move_to_dead_letter (fst c) (snd c)) calls d) \<le> letters_for j task_name d + 5"
proof -
  have "counted (start + 86400) j task_name (letters_for j task_name d) d" using assms(1,2) by (auto simp: counted_def)
  then have "counted (start + 86400) j task_name (letters_for j task_name d) (fold (\<lambda>c. move_to_dead_letter (fst c) (snd c)) calls d)"
    using assms(3) by (induction calls arbitrary: d rule: rev_induct) (auto intro!: letter_counted)
  then show ?thesis unfolding counted_def by (elim exE conjE) linarith
qed

section \<open>Concrete calls\<close>

definition env_key :: "string \<Rightarrow> key_sources" where
  "env_key k = \<lparr>ks_settings = None, ks_environ = Some k\<rparr>"

theorem signature_roundtrip_witness:
  "fst (verify_task_payload (\<lambda>k p. k) 1 (env_key ''k'') [] (fst (sign_task_payload (\<lambda>k p. k) 1 (env_key ''k'') [] new_signing)) new_signing)
   \<and> \<not> fst (verify_task_payload (\<lambda>k p. k) 1 (env_key ''n'') [] (fst (sign_task_payload (\<lambda>k p. k) 1 (env_key ''k'') [] new_signing)) new_signing)"
proof -
  have f: "signing_fresh new_signing" by (simp add: signing_fresh_def new_signing_def)
  have k: "get_signing_key 1 (env_key x) new_signing = (Some x, new_signing\<lparr>sg_key := Some x, sg_loaded := 1\<rparr>)" for x
    by (simp add: get_signing_key_def new_signing_def env_key_def configured_key_def)
  show ?thesis
    using signature_roundtrip [OF f f k _ k, of "''k''" "''k''" "\<lambda>k p. k" "[]"] signature_roundtrip [OF f f k _ k, of "''k''" "''n''" "\<lambda>k p. k" "[]"]
    by simp
qed

definition typed_apply :: "string option \<Rightarrow> (string \<times> pyval) list \<Rightarrow> pyerr + string option" where
  "typed_apply q kwargs = (if list_all (\<lambda>a. fst a \<in> set task_params) kwargs then Inr (Some ''id'') else Inl TypeError)"

definition sample_args :: task_args where
  "sample_args = \<lparr>ta_job = 4, ta_company = 7, ta_user = None, ta_audio_url = None, ta_image_urls = None,
     ta_description = ''valve'', ta_trade_type = ''plumbing'', ta_trace_id = None, ta_estimated_cost_usd = 0,
     ta_reserved_acu = 0, ta_payload_version = 1, ta_hmac = []\<rparr>"

definition sample_enqueue :: enqueue_env where
  "sample_enqueue = \<lparr>eq_now = 10, eq_depths = None, eq_probe = True, eq_debug = False, eq_keys = env_key ''k'',
     eq_mac = (\<lambda>k p. if p ''request_id'' = None then ''a'' else ''b''), eq_apply_async = typed_apply\<rparr>"

theorem enqueued_task_never_accepted_witness:
  "\<nexists>r. fst (enqueue_job_task sample_enqueue sample_args None ''default'' \<lparr>cl_broker = new_broker, cl_signing = new_signing\<rparr>) = Inr r"
proof -
  have "checks_arguments (eq_apply_async sample_enqueue)"
    by (auto simp: checks_arguments_def sample_enqueue_def typed_apply_def list_all_iff)
  moreover have "tells_apart (\<lambda>k p. if p ''request_id'' = None then ''a'' else ''b'')" by (simp add: tells_apart_def)
  moreover have "signing_fresh new_signing" by (simp add: signing_fresh_def new_signing_def)
  ultimately show ?thesis using enqueued_task_never_accepted by blast
qed

definition sample_letter :: letter where
  "sample_letter = \<lparr>lt_job = 4, lt_company = 7, lt_user = None, lt_task_name = ''process_job_task'', lt_error_message = ''timeout'',
     lt_failure_category = ''timeout'', lt_last_state = ''failed'', lt_retry_count = 3, lt_trace_id = None\<rparr>"

theorem dead_letters_bounded_witness:
  "letters_for 4 ''process_job_task'' (fold (\<lambda>c. move_to_dead_letter (fst c) (snd c))
     (replicate 7 (\<lparr>le_srv = 10, le_fresh = 9, le_now = 2, le_write_ok = (\<lambda>_. True), le_file_ok = True\<rparr>, sample_letter))
     \<lparr>dd_poison = Poison_counters Map.empty, dd_rows = [], dd_fallback = []\<rparr>) \<le> 5"
  using dead_letters_bounded [of "\<lparr>dd_poison = Poison_counters Map.empty, dd_rows = [], dd_fallback = []\<rparr>" Map.empty 4 "''process_job_task''"
      "replicate 7 (\<lparr>le_srv = 10, le_fresh = 9, le_now = 2, le_write_ok = (\<lambda>_. True), le_file_ok = True\<rparr>, sample_letter)" 0]
  by (simp add: letters_for_def)

end
