(* ===== verification/JobPipeline.thy ===== *)
theory JobPipeline
  imports JobState Ledger OutputChecks TaskQueue
begin

text \<open>
  The worker task \<open>process_job_task\<close> (\<open>src/backend/tasks/job_tasks.py\<close>), which composes the payload
  checks, the job lock in Redis, the job state machine, the quota engine, the model gateway, the output
  checks, the reconciliation of cost and the dead letter queue.

  Each of its database sessions is one transaction: it is committed whole or rolled back, and nothing is
  written by others within it; what others do between the two transactions of a run, while the model
  works, is \<open>tk_meanwhile\<close>. Redis keeps what was written to it. The gateway, which calls the model
  servers, is a parameter. Concurrency slots are left out: \<open>billing/concurrency.py\<close> does not parse, so its
  import raises and both uses of it are skipped. Published status messages, traces and metrics are left out.
\<close>

section \<open>State and context\<close>

type_synonym lock_value = "string \<times> pyfloat"  \<comment> \<open>the worker and its clock, joined by a colon in the code\<close>

record job_system =
  js_quota :: quota_state
  js_lock :: "uuid \<rightharpoonup> lock_value \<times> rat"
  js_heartbeat :: "uuid \<rightharpoonup> lock_value \<times> rat"
  js_guard :: "guard_redis \<times> retry_guard"
  js_poison :: poison_redis
  js_fallback :: "letter list"
  js_signing :: signing

record task_exn =
  ex_text :: string
  ex_validation :: bool  \<comment> \<open>a \<open>ValidationError\<close> or a \<open>JSONDecodeError\<close>\<close>
  ex_orig :: string  \<comment> \<open>the text of the database error it wraps, if any\<close>

definition plain_exn :: "string \<Rightarrow> task_exn" where
  "plain_exn msg = \<lparr>ex_text = msg, ex_validation = False, ex_orig = []\<rparr>"

record task_env =
  tk_now :: micros
  tk_later :: micros
  tk_clock :: pyfloat
  tk_mono :: pyfloat
  tk_srv :: rat
  tk_worker :: string
  tk_worker_version :: int
  tk_fresh :: uuid
  tk_redis_up :: bool
  tk_daily_limit :: pyfloat
  tk_ai_disabled :: bool
  tk_keys :: key_sources
  tk_mac :: mac
  tk_gateway :: "task_exn + ai_result"
  tk_dump_json :: "ai_result \<Rightarrow> string"
  tk_execution_ms :: int
  tk_advisory_free :: bool
  tk_commit_fails :: "task_exn option"
  tk_release_fails :: "nat \<Rightarrow> bool"
  tk_release_error :: string
  tk_credit_fails :: bool
  tk_quota_text :: "quota_error \<Rightarrow> string"
  tk_meanwhile :: "job_system \<Rightarrow> job_system"
  tk_letter :: letter_env

definition sys_db :: "job_system \<Rightarrow> database" where
  "sys_db s = qs_db (js_quota s)"

definition with_db :: "database \<Rightarrow> job_system \<Rightarrow> job_system" where
  "with_db d s = s\<lparr>js_quota := (js_quota s)\<lparr>qs_db := d\<rparr>\<rparr>"

definition on_quota :: "(quota_state \<Rightarrow> quota_state) \<Rightarrow> job_system \<Rightarrow> job_system" where
  "on_quota f s = s\<lparr>js_quota := f (js_quota s)\<rparr>"

section \<open>The job lock\<close>

definition live_key :: "rat \<Rightarrow> (uuid \<rightharpoonup> lock_value \<times> rat) \<Rightarrow> uuid \<Rightarrow> (lock_value \<times> rat) option" where
  "live_key srv m j = (case m j of Some (v, e) \<Rightarrow> if srv < e then Some (v, e) else None | None \<Rightarrow> None)"

definition ttl_seconds :: "rat \<Rightarrow> rat \<Rightarrow> int" where
  \<comment> \<open>Redis answers the remaining time rounded to seconds\<close>
  "ttl_seconds srv expires = \<lfloor>expires - srv + 1 / 2\<rfloor>"

definition set_nx :: "rat \<Rightarrow> lock_value \<Rightarrow> uuid \<Rightarrow> job_system \<Rightarrow> bool \<times> job_system" where
  \<comment> \<open>\<open>SET key value NX EX 300\<close>\<close>
  "set_nx srv v j s =
     (if live_key srv (js_lock s) j = None then (True, s\<lparr>js_lock := (js_lock s)(j \<mapsto> (v, srv + 300))\<rparr>) else (False, s))"

definition takeover :: "task_env \<Rightarrow> lock_value \<Rightarrow> uuid \<Rightarrow> job_system \<Rightarrow> bool \<times> job_system" where
  \<comment> \<open>the Lua script\<close>
  "takeover env v j s =
     (case live_key (tk_srv env) (js_lock s) j of
        None \<Rightarrow> set_nx (tk_srv env) v j s
      | Some _ \<Rightarrow>
          (case live_key (tk_srv env) (js_heartbeat s) j of
             Some ((_, stamp), _) \<Rightarrow>
               if fsub (tk_clock env) 30 < stamp then (False, s)
               else set_nx (tk_srv env) v j (s\<lparr>js_lock := (js_lock s)(j := None)\<rparr>)
           | None \<Rightarrow> set_nx (tk_srv env) v j (s\<lparr>js_lock := (js_lock s)(j := None)\<rparr>)))"

definition lock_attempt :: "task_env \<Rightarrow> nat \<Rightarrow> uuid \<Rightarrow> job_system \<Rightarrow> bool \<times> job_system" where
  "lock_attempt env retries j s =
     (let v = (tk_worker env, tk_clock env) in
      if retries = 0 then set_nx (tk_srv env) v j s
      else case live_key (tk_srv env) (js_lock s) j of
        None \<Rightarrow> (False, s)
      | Some (_, expires) \<Rightarrow>
          if live_key (tk_srv env) (js_heartbeat s) j = None then (False, s)
          else if 30 < ttl_seconds (tk_srv env) expires then (False, s)
          else takeover env v j s)"

definition acquire_job_lock :: "task_env \<Rightarrow> nat \<Rightarrow> uuid \<Rightarrow> job_system \<Rightarrow> (task_exn + bool) \<times> job_system" where
  "acquire_job_lock env retries j s =
     (if \<not> tk_redis_up env then (Inl (plain_exn ''NoneType has no attribute''), s)
      else case lock_attempt env retries j s of
        (False, s1) \<Rightarrow> (Inr False, s1)
      | (True, s1) \<Rightarrow>
          (Inr True, s1\<lparr>js_heartbeat := (js_heartbeat s1)(j \<mapsto> ((tk_worker env, tk_clock env), tk_srv env + 30))\<rparr>))"

definition unlock_job :: "uuid \<Rightarrow> job_system \<Rightarrow> job_system" where
  "unlock_job j s = s\<lparr>js_lock := (js_lock s)(j := None)\<rparr>"

section \<open>Releasing and compensating\<close>

definition release_reservation_with_retry :: "task_env \<Rightarrow> uuid \<Rightarrow> pyfloat \<Rightarrow> uuid \<Rightarrow> job_system \<Rightarrow> job_system" where
  \<comment> \<open>\<open>tk_release_fails n\<close>: attempt \<open>n\<close> raises and leaves nothing\<close>
  "release_reservation_with_retry env company reserved j s =
     (if \<not> list_all (tk_release_fails env) [0..<3]
      then on_quota (release_reserved quiet (tk_redis_up env) company reserved (Some j)) s
      else if tk_credit_fails env then s
      else with_db (snd (grant_credit (tk_fresh env) (tk_later env) company j reserved
              (''auto_compensate: reservation_release_failed after retries: '' @ tk_release_error env) (sys_db s))) s)"

definition output_for :: "uuid \<Rightarrow> uuid \<Rightarrow> ai_output \<Rightarrow> bool" where
  "output_for j company r \<longleftrightarrow> ao_job_id r = j \<and> ao_company_id r = company"

definition confident :: "ai_output \<Rightarrow> bool" where
  "confident r = (case ao_confidence_score r of None \<Rightarrow> False | Some c \<Rightarrow> f64 (1/2) < c)"

definition do_compensate :: "uuid \<Rightarrow> uuid \<Rightarrow> database \<Rightarrow> database" where
  "do_compensate j company d =
     (if list_ex (\<lambda>r. output_for j company r \<and> confident r) (db_ai_outputs d) then d
      else
        let d1 = (if job_of d j company = None then d
                  else change_job j (\<lambda>r. r\<lparr>job_compensation_attempts := Some (or_zero (job_compensation_attempts r) + 1)\<rparr>) d)
        in d1\<lparr>db_ai_outputs := filter (\<lambda>r. \<not> output_for j company r) (db_ai_outputs d1)\<rparr>)"

definition compensate_failed_job :: "bool \<Rightarrow> nat \<Rightarrow> nat \<Rightarrow> uuid \<Rightarrow> uuid \<Rightarrow> database \<Rightarrow> database" where
  \<comment> \<open>\<open>given\<close>: the caller passes its session. Otherwise the function opens a session of its own and
      leaves it without a commit, so that its work is rolled back\<close>
  "compensate_failed_job given retry_count retry_limit j company d =
     (if retry_limit \<le> retry_count then d else if given then do_compensate j company d else d)"

section \<open>The first transaction\<close>

definition image_count :: "task_args \<Rightarrow> int" where
  "image_count t = (case ta_image_urls t of None \<Rightarrow> 0 | Some us \<Rightarrow> int (length us))"

definition media_cost :: "task_args \<Rightarrow> pyfloat" where
  "media_cost t = total_cost (estimate_job_cost (image_count t) (truthy_str (ta_audio_url t)) 0)"

datatype phase1_answer = Duplicate | Quota_exceeded | Ready

definition not_found_exn :: "uuid \<Rightarrow> task_exn" where
  "not_found_exn j = plain_exn (''Job '' @ str_uuid j @ '' not found'')"

definition post_ai_exn :: "uuid \<Rightarrow> task_exn" where
  "post_ai_exn j = plain_exn (''Job '' @ str_uuid j @ '' not found for post-AI reconciliation'')"

definition state_exn :: "uuid \<Rightarrow> string \<Rightarrow> task_exn" where
  "state_exn j goal = plain_exn (''Cannot transition job '' @ str_uuid j @ '' to '' @ goal @ '' - inconsistent state'')"

definition start_processing ::
    "task_env \<Rightarrow> task_args \<Rightarrow> pyfloat \<Rightarrow> pyfloat \<Rightarrow> database \<Rightarrow> job_system \<Rightarrow>
     (task_exn + phase1_answer \<times> pyfloat \<times> pyfloat) \<times> job_system" where
  \<comment> \<open>from the second reconciliation to the commit; \<open>s\<close> is the system without the transaction, \<open>d\<close> the
      database within it\<close>
  "start_processing env t cost reserved d s =
     (case reconcile_job_state d (ta_job t) (ta_company t) S_reserved S_processing (tk_now env) of
        (R_inconsistent, _) \<Rightarrow> (Inl (state_exn (ta_job t) ''processing''), s)
      | (_, d1) \<Rightarrow> (Inr (Ready, cost, reserved), with_db (heartbeat_reservation (tk_now env) d1 (ta_company t)) s))"

fun roll_back_on_error :: "database \<Rightarrow> ('e + 'a) \<times> job_system \<Rightarrow> ('e + 'a) \<times> job_system" where
  "roll_back_on_error d (Inl e, s) = (Inl e, with_db d s)"
| "roll_back_on_error d (Inr a, s) = (Inr a, s)"

definition reserve_and_start ::
    "task_env \<Rightarrow> task_args \<Rightarrow> nat \<Rightarrow> database \<Rightarrow> job_system \<Rightarrow>
     (task_exn + phase1_answer \<times> pyfloat \<times> pyfloat) \<times> job_system" where
  \<comment> \<open>from the job marked as reserved in the transaction \<open>d\<close>\<close>
  "reserve_and_start env t retries d s =
     (if retries = 0 \<and> 0 < ta_reserved_acu t
      then start_processing env t (ta_estimated_cost_usd t) (ta_reserved_acu t) d s
      else
        let est = (if retries = 0 then ta_estimated_cost_usd t else media_cost t);
            user = (if retries = 0 then ta_user t else None)
        in case check_and_reserve quiet (tk_fresh env) (tk_now env) (tk_daily_limit env) (tk_redis_up env)
                  (ta_company t) est (ta_job t) user ((js_quota s)\<lparr>qs_db := d\<rparr>) of
             (Inl e, q) \<Rightarrow> (Inl (plain_exn (tk_quota_text env e)), with_db (sys_db s) (s\<lparr>js_quota := q\<rparr>))
           | (Inr r, q) \<Rightarrow>
               if \<not> allowed r
               then (Inr (Quota_exceeded, est, ta_reserved_acu t), with_db (sys_db s) (s\<lparr>js_quota := q\<rparr>))
               else roll_back_on_error (sys_db s)
                      (start_processing env t est (reserved_acu r) (qs_db q) (s\<lparr>js_quota := q\<rparr>)))"

definition phase1_pre_ai ::
    "task_env \<Rightarrow> task_args \<Rightarrow> nat \<Rightarrow> job_system \<Rightarrow> (task_exn + phase1_answer \<times> pyfloat \<times> pyfloat) \<times> job_system" where
  "phase1_pre_ai env t retries s =
     (let j = ta_job t; company = ta_company t; reserved = ta_reserved_acu t in
      if job_of (sys_db s) j company = None then (Inl (not_found_exn j), s)
      else case acquire_job_lock env retries j s of
        (Inl e, s1) \<Rightarrow> (Inl e, s1)
      | (Inr False, s1) \<Rightarrow>
          let s2 = (if 0 < reserved
                    then on_quota (release_reserved quiet (tk_redis_up env) company reserved (Some j)) s1 else s1)
          in (Inr (Duplicate, ta_estimated_cost_usd t, reserved), with_db (sys_db s1) s2)
      | (Inr True, s1) \<Rightarrow>
          (case reconcile_job_state (sys_db s1) j company S_queued S_reserved (tk_now env) of
             (R_inconsistent, _) \<Rightarrow> (Inl (state_exn j ''reserved''), s1)
           | (_, d1) \<Rightarrow>
               reserve_and_start env t retries
                 (if 0 < retries
                  then change_job j (\<lambda>r. r\<lparr>job_retry_count := Some (or_zero (job_retry_count r) + 1)\<rparr>) d1 else d1)
                 s1))"

section \<open>The model and the second transaction\<close>

definition phase2_ai_gateway :: "task_env \<Rightarrow> task_exn + ai_result option" where
  "phase2_ai_gateway env =
     (case tk_gateway env of
        Inl e \<Rightarrow> Inl e
      | Inr out \<Rightarrow>
          if ar_is_fallback out then Inr None
          else if \<not> vr_valid (validate_ai_output out True) then Inr None
          else Inr (Some out))"

definition job_analysis :: "task_env \<Rightarrow> task_args \<Rightarrow> ai_result \<Rightarrow> ai_output" where
  "job_analysis env t out =
     \<lparr>ao_id = tk_fresh env, ao_job_id = ta_job t, ao_company_id = ta_company t, ao_output_type = ''job_analysis'',
      ao_json_result = tk_dump_json env out, ao_confidence_score = Some (ar_confidence out),
      ao_model_used = Some ''gateway:ai_gateway'', ao_created_at = tk_later env\<rparr>"

definition output_key :: "ai_output \<Rightarrow> uuid \<times> string \<times> uuid" where
  "output_key r = (ao_job_id r, ao_output_type r, ao_company_id r)"

definition has_analysis :: "task_args \<Rightarrow> database \<Rightarrow> bool" where
  "has_analysis t d = list_ex (\<lambda>r. output_key r = (ta_job t, ''job_analysis'', ta_company t)) (db_ai_outputs d)"

definition store_output :: "task_env \<Rightarrow> task_args \<Rightarrow> ai_result \<Rightarrow> database \<Rightarrow> database" where
  \<comment> \<open>the insert, and on success the marks on the job's media\<close>
  "store_output env t out d =
     (if has_analysis t d then d
      else d\<lparr>db_ai_outputs := db_ai_outputs d @ [job_analysis env t out],
             db_media := update_where (\<lambda>m. jm_job_id m = ta_job t) (\<lambda>m. m\<lparr>jm_ai_processed := True\<rparr>) (db_media d)\<rparr>)"

definition gateway_usage :: "task_env \<Rightarrow> task_args \<Rightarrow> bool \<Rightarrow> job_usage" where
  "gateway_usage env t is_retry =
     \<lparr>ju_text_units = 1, ju_vision_units = 0, ju_audio_units = 0, ju_model_used = ''gateway:ai_gateway'',
      ju_execution_time_ms = (if is_retry then 0 else tk_execution_ms env), ju_user_id = ta_user t\<rparr>"

definition settle_job :: "task_env \<Rightarrow> task_args \<Rightarrow> pyfloat \<Rightarrow> pyfloat \<Rightarrow> ai_result \<Rightarrow> database \<Rightarrow> database" where
  \<comment> \<open>the work of the second transaction; an exception of the reconciliation is only logged\<close>
  "settle_job env t cost reserved out d =
     (let is_retry = has_analysis t d;
          d1 = store_output env t out (heartbeat_reservation (tk_later env) d (ta_company t));
          actual = (if is_retry then cost else media_cost t);
          d2 = snd (reconcile_cost (tk_advisory_free env) (tk_fresh env) (tk_later env) (ta_company t) (ta_job t)
                      cost actual reserved (gateway_usage env t is_retry) d1)
      in snd (reconcile_job_state d2 (ta_job t) (ta_company t) S_processing S_completed (tk_later env)))"

definition multiple_rows_exn :: task_exn where
  "multiple_rows_exn = plain_exn ''Multiple rows were found when one or none was required''"

definition phase3_post_ai ::
    "task_env \<Rightarrow> task_args \<Rightarrow> pyfloat \<Rightarrow> pyfloat \<Rightarrow> ai_result \<Rightarrow> job_system \<Rightarrow> task_exn option \<times> job_system" where
  "phase3_post_ai env t cost reserved out s =
     (let d = sys_db s in
      if job_of d (ta_job t) (ta_company t) = None then (Some (post_ai_exn (ta_job t)), s)
      else if has_analysis t d \<and> 1 < length (filter (output_for (ta_job t) (ta_company t)) (db_ai_outputs d))
      then (Some multiple_rows_exn, s)
      else
        let s1 = unlock_job (ta_job t) s in
        case tk_commit_fails env of
          Some e \<Rightarrow> (Some e, s1)
        | None \<Rightarrow> (None, with_db (settle_job env t cost reserved out d) s1))"

section \<open>One run, and the task\<close>

definition non_recoverable_exn :: task_exn where
  "non_recoverable_exn = plain_exn ''NON_RECOVERABLE: AI unavailable - fallback or invalid output''"

definition RETRY_LIMIT :: nat where "RETRY_LIMIT = 3"  \<comment> \<open>\<open>max_retries\<close> of the task\<close>

definition fail_run :: "task_env \<Rightarrow> task_args \<Rightarrow> nat \<Rightarrow> pyfloat \<Rightarrow> bool \<Rightarrow> job_system \<Rightarrow> job_system" where
  \<comment> \<open>the exception handler of \<open>_run\<close>; \<open>has_lock\<close>: the first phase has returned its connection\<close>
  "fail_run env t retries reserved has_lock s =
     (let s1 = with_db (compensate_failed_job False retries RETRY_LIMIT (ta_job t) (ta_company t) (sys_db s)) s;
          s2 = (if 0 < reserved then release_reservation_with_retry env (ta_company t) reserved (ta_job t) s1 else s1)
      in if has_lock then unlock_job (ta_job t) s2 else s2)"

definition run_pipeline :: "task_env \<Rightarrow> task_args \<Rightarrow> nat \<Rightarrow> job_system \<Rightarrow> task_exn option \<times> job_system" where
  \<comment> \<open>the answer of the first phase is a tuple, so that neither test of it holds\<close>
  "run_pipeline env t retries s =
     (case phase1_pre_ai env t retries s of
        (Inl e, s1) \<Rightarrow> (Some e, fail_run env t retries (ta_reserved_acu t) False s1)
      | (Inr (_, cost, reserved), s1) \<Rightarrow>
          let s2 = tk_meanwhile env s1 in
          case phase2_ai_gateway env of
            Inl e \<Rightarrow> (Some e, fail_run env t retries reserved True s2)
          | Inr None \<Rightarrow>
              (Some non_recoverable_exn,
               fail_run env t retries reserved True
                 (release_reservation_with_retry env (ta_company t) reserved (ta_job t) s2))
          | Inr (Some out) \<Rightarrow>
              (case phase3_post_ai env t cost reserved out s2 of
                 (None, s3) \<Rightarrow> (None, s3)
               | (Some e, s3) \<Rightarrow> (Some e, fail_run env t retries reserved True s3)))"

datatype task_outcome =
    Finished
  | Answer string string string  \<comment> \<open>status, error and failure type\<close>
  | Crashed string  \<comment> \<open>the class of an exception that leaves the task, which Celery then marks as failed\<close>
  | Retry_task "nat option"  \<comment> \<open>the countdown, if one is given\<close>

definition letter_for :: "task_args \<Rightarrow> nat \<Rightarrow> string \<Rightarrow> string \<Rightarrow> string \<Rightarrow> string \<Rightarrow> letter" where
  "letter_for t retries msg category last_state trace =
     \<lparr>lt_job = ta_job t, lt_company = ta_company t, lt_user = ta_user t, lt_task_name = ''process_job_task'',
      lt_error_message = msg, lt_failure_category = category, lt_last_state = last_state,
      lt_retry_count = int retries, lt_trace_id = Some trace\<rparr>"

definition bury :: "task_env \<Rightarrow> letter \<Rightarrow> job_system \<Rightarrow> job_system" where
  "bury env l s =
     (let d = move_to_dead_letter (tk_letter env) l
                \<lparr>dd_poison = js_poison s, dd_rows = db_dead_letters (sys_db s), dd_fallback = js_fallback s\<rparr>
      in with_db ((sys_db s)\<lparr>db_dead_letters := dd_rows d\<rparr>) (s\<lparr>js_poison := dd_poison d, js_fallback := dd_fallback d\<rparr>))"

definition serialization_failure :: "task_exn \<Rightarrow> bool" where
  "serialization_failure e =
     list_ex (\<lambda>code. contains code (ex_orig e)) [''40001'', ''40P01'', ''serialization_failure'', ''deadlock'']"

definition conclude :: "task_env \<Rightarrow> task_args \<Rightarrow> nat \<Rightarrow> string \<Rightarrow> task_exn \<Rightarrow> job_system \<Rightarrow> task_outcome \<times> job_system" where
  \<comment> \<open>what the task makes of the exception of a run\<close>
  "conclude env t retries trace e s =
     (let category = category_value (classify_failure (ex_text e)) in
      if serialization_failure e \<and> retries < RETRY_LIMIT then (Retry_task (Some (2 ^ (retries + 1))), s)
      else if ex_validation e \<or> contains ''NON_RECOVERABLE'' (ex_text e) \<or> RETRY_LIMIT \<le> retries
      then (Answer ''failed'' (ex_text e) category,
            bury env (letter_for t retries (ex_text e) category ''failed'' trace) s)
      else (Retry_task None, s))"

definition storm_check :: "task_env \<Rightarrow> task_args \<Rightarrow> nat \<Rightarrow> job_system \<Rightarrow> bool \<times> job_system" where
  "storm_check env t retries s =
     (if 0 < retries
      then let (calm, guard) = check_retry_storm (tk_mono env) (tk_srv env) (str_uuid (ta_job t)) ''process_job_task'' (js_guard s)
           in (calm, s\<lparr>js_guard := guard\<rparr>)
      else (True, s))"

definition attend :: "task_env \<Rightarrow> task_args \<Rightarrow> nat \<Rightarrow> string \<Rightarrow> job_system \<Rightarrow> task_outcome \<times> job_system" where
  \<comment> \<open>the task once its payload is verified\<close>
  "attend env t retries trace s =
     (let (calm, s1) = storm_check env t retries s in
      if \<not> calm then (Answer ''failed'' ''retry_storm_blocked'' ''retry_storm'', s1)
      else if tk_ai_disabled env then (Answer ''skipped'' ''ai_disabled'' ''ai_disabled'', s1)
      else (case run_pipeline env t retries s1 of
              (None, s2) \<Rightarrow> (Finished, s2)
            | (Some e, s2) \<Rightarrow> conclude env t retries trace e s2))"

definition process_job_task :: "task_env \<Rightarrow> task_args \<Rightarrow> nat \<Rightarrow> string \<Rightarrow> job_system \<Rightarrow> task_outcome \<times> job_system" where
  \<comment> \<open>\<open>fresh_trace\<close>: the identifier that is generated when the task has none. A wrong signature is to be refused by
      \<open>self.reject(requeue=False)\<close>, but a Celery task has no attribute \<open>reject\<close>\<close>
  "process_job_task env t retries fresh_trace s =
     (let v = ta_payload_version t; old_trace = (case ta_trace_id t of None \<Rightarrow> [] | Some x \<Rightarrow> x);
          mismatch = (\<lambda>msg. (Answer ''failed'' ''payload_version_mismatch'' ''version_mismatch'',
                             bury env (letter_for t retries msg ''version_mismatch'' ''queued'' old_trace) s))
      in if v < MIN_SUPPORTED_VERSION \<or> MAX_SUPPORTED_VERSION < v
         then mismatch (''Payload version mismatch: got '' @ int_text v @ '', supported '' @
                int_text MIN_SUPPORTED_VERSION @ ''-'' @ int_text MAX_SUPPORTED_VERSION)
         else if tk_worker_version env < v
         then mismatch (''Worker version mismatch: worker='' @ int_text (tk_worker_version env) @ '', payload='' @ int_text v)
         else
           let (key, sg1) = get_signing_key (tk_mono env) (tk_keys env) (js_signing s) in
           if \<not> truthy_str key then (Answer ''failed'' ''signing_key_not_configured'' ''security'', s\<lparr>js_signing := sg1\<rparr>)
           else
             let (ok, sg2) = verify_task_payload (tk_mac env) (tk_mono env) (tk_keys env) (worker_payload t) (ta_hmac t) sg1;
                 s2 = s\<lparr>js_signing := sg2\<rparr>
             in if \<not> ok
                then (Crashed ''AttributeError'', bury env (letter_for t retries ''HMAC verification failed'' ''security'' ''queued'' old_trace) s2)
                else attend env t retries (if truthy_str (ta_trace_id t) then the (ta_trace_id t) else fresh_trace) s2)"

section \<open>What the parts leave alone\<close>

lemma sys_db_simps [simp]:
  "sys_db (with_db d s) = d" "sys_db (unlock_job j s) = sys_db s" "sys_db (on_quota f s) = qs_db (f (js_quota s))"
  "qs_db (js_quota s) = sys_db s" "with_db (sys_db s) s = s"
  by (simp_all add: sys_db_def with_db_def unlock_job_def on_quota_def)

lemma system_parts [simp]:
  "js_lock (with_db d s) = js_lock s" "js_heartbeat (with_db d s) = js_heartbeat s"
  "js_lock (on_quota f s) = js_lock s" "js_heartbeat (on_quota f s) = js_heartbeat s"
  "js_lock (unlock_job j s) = (js_lock s)(j := None)" "js_heartbeat (unlock_job j s) = js_heartbeat s"
  by (simp_all add: with_db_def on_quota_def unlock_job_def)

lemma sys_db_lock [simp]:
  "sys_db (s\<lparr>js_lock := l\<rparr>) = sys_db s" "sys_db (s\<lparr>js_heartbeat := l\<rparr>) = sys_db s"
  by (simp_all add: sys_db_def del: sys_db_simps)

lemma acquire_job_lock_db [simp]: "sys_db (snd (acquire_job_lock env n j s)) = sys_db s"
  by (simp add: acquire_job_lock_def lock_attempt_def set_nx_def takeover_def Let_def split: option.split prod.split)

lemma change_job_parts [simp]:
  "ledger_entry (change_job j f d) k i = ledger_entry d k i" "db_ai_outputs (change_job j f d) = db_ai_outputs d"
  by (simp_all add: change_job_def ledger_entry_def)

lemma heartbeat_parts [simp]:
  "job_of (heartbeat_reservation now d c) j k = job_of d j k"
  "db_ai_outputs (heartbeat_reservation now d c) = db_ai_outputs d"
  "ledger_entry (heartbeat_reservation now d c) k j = ledger_entry d k j"
  "account_of (heartbeat_reservation now d c) k =
     (if k = c then map_option (\<lambda>a. a\<lparr>ba_reservation_heartbeat_at := Some now\<rparr>) (account_of d k) else account_of d k)"
proof -
  show "account_of (heartbeat_reservation now d c) k =
     (if k = c then map_option (\<lambda>a. a\<lparr>ba_reservation_heartbeat_at := Some now\<rparr>) (account_of d k) else account_of d k)"
    unfolding heartbeat_reservation_def by (rule acct.fetch_change) auto
qed (simp_all add: heartbeat_reservation_def, simp add: change_account_def)

lemma store_output_parts [simp]:
  "job_of (store_output env t out d) j k = job_of d j k" "account_of (store_output env t out d) k = account_of d k"
  "ledger_entry (store_output env t out d) k j = ledger_entry d k j" "has_analysis t (store_output env t out d)"
  by (simp_all add: store_output_def job_of_def job_row_def account_of_def ledger_entry_def has_analysis_def
      job_analysis_def output_key_def)

lemma has_analysis_cong: "db_ai_outputs d = db_ai_outputs d' \<Longrightarrow> has_analysis t d = has_analysis t d'"
  by (simp add: has_analysis_def)

lemma reconcile_cost_parts [simp]:
  "job_of (snd (reconcile_cost lk fresh now c job est act r u d)) j k = job_of d j k"
  "db_ai_outputs (snd (reconcile_cost lk fresh now c job est act r u d)) = db_ai_outputs d"
  by (simp_all add: reconcile_cost_def Let_def insert_ledger_def job_of_def job_row_def change_account_def split: option.split)

lemma reconcile_state_parts [simp]:
  "account_of (snd (reconcile_job_state d j c x y now)) k = account_of d k"
  "ledger_entry (snd (reconcile_job_state d j c x y now)) k i = ledger_entry d k i"
  "db_ai_outputs (snd (reconcile_job_state d j c x y now)) = db_ai_outputs d"
  by (simp_all add: reconcile_job_state_def ledger_entry_def change_job_def split: option.split prod.split)
    (simp add: account_of_def)

lemma keeps_move_job [intro]: "keeps_job_key (move_job s now)"
  by (simp add: keeps_job_key_def)

lemma reconcile_state_moves:
  assumes "job_of d j c = Some jb" "reconcile_decision (current_state jb) x y = (r, Some q)"
  shows "reconcile_job_state d j c x y now = (r, change_job j (move_job q now) d)"
    and "job_of (change_job j (move_job q now) d) j c = Some (move_job q now jb)"
  using assms by (simp_all add: reconcile_job_state_def job_of_change_job keeps_move_job)

end
