(* ===== verification/JobRuns.thy ===== *)
theory JobRuns
  imports JobPipeline
begin

text \<open>
  What runs of the worker task do to the job, to the company's balance and to the ledger: the run that
  goes well, and the ways in which a run that does not go well misses what the pipeline is meant to
  guarantee (a refused reservation, an unusable answer of the model, a retry).
\<close>

section \<open>Results of the two transactions\<close>

definition undisturbed :: "task_env \<Rightarrow> task_args \<Rightarrow> bool" where
  \<comment> \<open>what others do while the model works leaves the rows of this job and of its account\<close>
  "undisturbed env t \<longleftrightarrow>
     (\<forall>s. let d = sys_db s; d' = sys_db (tk_meanwhile env s) in
        job_of d' (ta_job t) (ta_company t) = job_of d (ta_job t) (ta_company t) \<and>
        account_of d' (ta_company t) = account_of d (ta_company t) \<and>
        ledger_entry d' (ta_company t) (ta_job t) = ledger_entry d (ta_company t) (ta_job t) \<and>
        db_ai_outputs d' = db_ai_outputs d)"

definition free_lock :: "task_env \<Rightarrow> uuid \<Rightarrow> job_system \<Rightarrow> bool" where
  "free_lock env j s \<longleftrightarrow> tk_redis_up env \<and> live_key (tk_srv env) (js_lock s) j = None"

lemma acquire_free:
  assumes "free_lock env j s"
  shows "fst (acquire_job_lock env 0 j s) = Inr True"
  using assms by (simp add: free_lock_def acquire_job_lock_def lock_attempt_def set_nx_def)

lemma settle_job_result:
  fixes cost out
  assumes "account_of d (ta_company t) = Some a" "ledger_entry d (ta_company t) (ta_job t) = None"
    and "repr_dec r \<le> ba_reserved_acu a" "\<not> has_analysis t d" "tk_advisory_free env"
  defines "d' \<equiv> settle_job env t cost r out d"
  shows "account_of d' (ta_company t) = Some
      (a\<lparr>ba_reservation_heartbeat_at := Some (tk_later env),
         ba_reserved_acu := quantize 4 (dec28 (ba_reserved_acu a - repr_dec r)),
         ba_used_acu := quantize 4 (dec28 (ba_used_acu a + acu_of_usd (media_cost t))),
         ba_acu_debt := quantize 4 (ba_acu_debt a), ba_last_reconciled := Some (tk_later env)\<rparr>)"
    and "has_analysis t d'"
    and "\<exists>e. ledger_entry d' (ta_company t) (ta_job t) = Some e \<and> ul_cost_usd e = quantize 6 (repr_dec (media_cost t))"
proof -
  let ?d1 = "store_output env t out (heartbeat_reservation (tk_later env) d (ta_company t))"
  let ?a = "a\<lparr>ba_reservation_heartbeat_at := Some (tk_later env)\<rparr>"
  let ?rec = "reconcile_cost True (tk_fresh env) (tk_later env) (ta_company t) (ta_job t) cost (media_cost t) r (gateway_usage env t False) ?d1"
  have acc: "account_of ?d1 (ta_company t) = Some ?a" "ledger_entry ?d1 (ta_company t) (ta_job t) = None" "repr_dec r \<le> ba_reserved_acu ?a"
    using assms(1-3) by simp_all
  note f = reconcile_first [OF acc]
  have d': "d' = snd (reconcile_job_state (snd ?rec) (ta_job t) (ta_company t) S_processing S_completed (tk_later env))"
    using assms(4,5) by (simp add: d'_def settle_job_def Let_def)
  show "account_of d' (ta_company t) = Some
      (a\<lparr>ba_reservation_heartbeat_at := Some (tk_later env),
         ba_reserved_acu := quantize 4 (dec28 (ba_reserved_acu a - repr_dec r)),
         ba_used_acu := quantize 4 (dec28 (ba_used_acu a + acu_of_usd (media_cost t))),
         ba_acu_debt := quantize 4 (ba_acu_debt a), ba_last_reconciled := Some (tk_later env)\<rparr>)"
    unfolding d' by (simp add: f(2))
  have "db_ai_outputs d' = db_ai_outputs ?d1" unfolding d' by simp
  then show "has_analysis t d'" using has_analysis_cong store_output_parts(4) by blast
  obtain x where "fst ?rec = Inr x"
    using f(1) by blast
  then have "?rec = (Inr x, snd ?rec)" by (metis prod.collapse)
  moreover have "account_of ?d1 (ta_company t) \<noteq> None" using acc(1) by (rule ssubst) simp
  ultimately show "\<exists>e. ledger_entry d' (ta_company t) (ta_job t) = Some e \<and> ul_cost_usd e = quantize 6 (repr_dec (media_cost t))"
    unfolding d' reconcile_state_parts(2) by (rule reconciled_entry)
qed

lemma settle_job_state:
  assumes "job_of d (ta_job t) (ta_company t) = Some jb"
  shows "current_state jb = S_processing \<Longrightarrow>
      job_of (settle_job env t cost r out d) (ta_job t) (ta_company t) = Some (move_job S_completed (tk_later env) jb)"
    and "current_state jb = S_queued \<Longrightarrow> job_of (settle_job env t cost r out d) (ta_job t) (ta_company t) = Some jb"
  using assms
  by (simp_all add: settle_job_def Let_def reconcile_job_state_def reconcile_decision_def validate_job_transition_def
      job_of_change_job keeps_move_job)

lemma phase3_result:
  assumes "job_of (sys_db s) (ta_job t) (ta_company t) \<noteq> None" "\<not> has_analysis t (sys_db s)" "tk_commit_fails env = None"
  shows "phase3_post_ai env t cost r out s = (None, with_db (settle_job env t cost r out (sys_db s)) (unlock_job (ta_job t) s))"
  using assms by (simp add: phase3_post_ai_def Let_def)

lemma phase2_usable: "tk_gateway env = Inr out \<Longrightarrow> vr_valid (validate_ai_output out True) \<Longrightarrow> phase2_ai_gateway env = Inr (Some out)"
  by (auto simp: phase2_ai_gateway_def validate_ai_output_def split: if_splits)

lemma phase1_pre_reserved:
  assumes "job_of (sys_db s) (ta_job t) (ta_company t) = Some jb" "current_state jb = S_queued"
    and "free_lock env (ta_job t) s" "0 < ta_reserved_acu t"
  obtains s' where "phase1_pre_ai env t 0 s = (Inr (Ready, ta_estimated_cost_usd t, ta_reserved_acu t), s')"
    and "job_of (sys_db s') (ta_job t) (ta_company t) = Some (move_job S_processing (tk_now env) (move_job S_reserved (tk_now env) jb))"
    and "account_of (sys_db s') (ta_company t) =
          map_option (\<lambda>a. a\<lparr>ba_reservation_heartbeat_at := Some (tk_now env)\<rparr>) (account_of (sys_db s) (ta_company t))"
    and "ledger_entry (sys_db s') (ta_company t) (ta_job t) = ledger_entry (sys_db s) (ta_company t) (ta_job t)"
    and "db_ai_outputs (sys_db s') = db_ai_outputs (sys_db s)"
proof -
  let ?j = "ta_job t" and ?c = "ta_company t"
  obtain s1 where s1: "acquire_job_lock env 0 ?j s = (Inr True, s1)"
    using acquire_free [OF assms(3)] by (cases "acquire_job_lock env 0 ?j s") simp
  then have db: "sys_db s1 = sys_db s" using acquire_job_lock_db [of env 0 ?j s] by simp
  let ?d1 = "change_job ?j (move_job S_reserved (tk_now env)) (sys_db s)"
  let ?d2 = "change_job ?j (move_job S_processing (tk_now env)) ?d1"
  have r1: "reconcile_job_state (sys_db s) ?j ?c S_queued S_reserved (tk_now env) = (R_ok, ?d1)"
      "job_of ?d1 ?j ?c = Some (move_job S_reserved (tk_now env) jb)"
    using assms(1,2) by (auto intro!: reconcile_state_moves simp: reconcile_decision_def validate_job_transition_def)
  have r2: "reconcile_job_state ?d1 ?j ?c S_reserved S_processing (tk_now env) = (R_ok, ?d2)"
      "job_of ?d2 ?j ?c = Some (move_job S_processing (tk_now env) (move_job S_reserved (tk_now env) jb))"
    using r1(2) by (auto intro!: reconcile_state_moves simp: reconcile_decision_def validate_job_transition_def)
  have p: "phase1_pre_ai env t 0 s = (Inr (Ready, ta_estimated_cost_usd t, ta_reserved_acu t),
      with_db (heartbeat_reservation (tk_now env) ?d2 ?c) s1)"
    using assms(1,4) by (simp add: phase1_pre_ai_def Let_def s1 db r1 r2 reserve_and_start_def start_processing_def)
  show ?thesis
    by (rule that [OF p]) (use r2(2) in simp_all)
qed

section \<open>A first run that goes well\<close>

text \<open>
  C1. The pipeline, end to end: a queued job with a reservation on the account, whose lock is free and for which the
  model gives a usable answer, is completed by its first run; exactly its reservation leaves the
  company's reserved balance, exactly the cost of its media is added to the used balance and
  written to the ledger, the answer is stored, and the lock is given back.
\<close>

theorem first_run_settles:
  assumes "job_of (sys_db s) (ta_job t) (ta_company t) = Some jb" "current_state jb = S_queued"
    and "free_lock env (ta_job t) s" "undisturbed env t"
    and "account_of (sys_db s) (ta_company t) = Some a"
    and "0 < ta_reserved_acu t" "repr_dec (ta_reserved_acu t) \<le> ba_reserved_acu a"
    and "ledger_entry (sys_db s) (ta_company t) (ta_job t) = None" "\<not> has_analysis t (sys_db s)"
    and "tk_gateway env = Inr out" "vr_valid (validate_ai_output out True)"
    and "tk_advisory_free env" "tk_commit_fails env = None"
  shows "\<exists>s'. run_pipeline env t 0 s = (None, s') \<and>
    map_option current_state (job_of (sys_db s') (ta_job t) (ta_company t)) = Some S_completed \<and>
    account_of (sys_db s') (ta_company t) = Some
      (a\<lparr>ba_reservation_heartbeat_at := Some (tk_later env),
         ba_reserved_acu := quantize 4 (dec28 (ba_reserved_acu a - repr_dec (ta_reserved_acu t))),
         ba_used_acu := quantize 4 (dec28 (ba_used_acu a + acu_of_usd (media_cost t))),
         ba_acu_debt := quantize 4 (ba_acu_debt a), ba_last_reconciled := Some (tk_later env)\<rparr>) \<and>
    has_analysis t (sys_db s') \<and>
    (\<exists>e. ledger_entry (sys_db s') (ta_company t) (ta_job t) = Some e \<and> ul_cost_usd e = quantize 6 (repr_dec (media_cost t))) \<and>
    js_lock s' (ta_job t) = None"
proof -
  let ?j = "ta_job t" and ?c = "ta_company t"
  obtain s1 where p1: "phase1_pre_ai env t 0 s = (Inr (Ready, ta_estimated_cost_usd t, ta_reserved_acu t), s1)"
    and s1: "job_of (sys_db s1) ?j ?c = Some (move_job S_processing (tk_now env) (move_job S_reserved (tk_now env) jb))"
      "account_of (sys_db s1) ?c = Some (a\<lparr>ba_reservation_heartbeat_at := Some (tk_now env)\<rparr>)"
      "ledger_entry (sys_db s1) ?c ?j = None" "db_ai_outputs (sys_db s1) = db_ai_outputs (sys_db s)"
    using phase1_pre_reserved [OF assms(1,2,3,6)] assms(5,8) by (metis option.map(2))
  let ?s2 = "tk_meanwhile env s1"
  let ?d' = "settle_job env t (ta_estimated_cost_usd t) (ta_reserved_acu t) out (sys_db ?s2)"
  have s2: "job_of (sys_db ?s2) ?j ?c = job_of (sys_db s1) ?j ?c" "account_of (sys_db ?s2) ?c = account_of (sys_db s1) ?c"
      "ledger_entry (sys_db ?s2) ?c ?j = None" "\<not> has_analysis t (sys_db ?s2)"
    using assms(4,9) s1(3,4) by (simp_all add: undisturbed_def Let_def has_analysis_def)
  have "phase3_post_ai env t (ta_estimated_cost_usd t) (ta_reserved_acu t) out ?s2 = (None, with_db ?d' (unlock_job ?j ?s2))"
    using s2(1,4) s1(1) assms(13) by (intro phase3_result) simp_all
  then have run: "run_pipeline env t 0 s = (None, with_db ?d' (unlock_job ?j ?s2))"
    by (simp add: run_pipeline_def p1 phase2_usable [OF assms(10,11)] Let_def)
  have acc: "account_of (sys_db ?s2) ?c = Some (a\<lparr>ba_reservation_heartbeat_at := Some (tk_now env)\<rparr>)"
    using s2(2) s1(2) by simp
  have le: "repr_dec (ta_reserved_acu t) \<le> ba_reserved_acu (a\<lparr>ba_reservation_heartbeat_at := Some (tk_now env)\<rparr>)"
    using assms(7) by simp
  note f = settle_job_result [OF acc s2(3) le s2(4) assms(12), of "ta_estimated_cost_usd t" out]
  have "job_of ?d' ?j ?c = Some (move_job S_completed (tk_later env) (move_job S_processing (tk_now env) (move_job S_reserved (tk_now env) jb)))"
    using s2(1) s1(1) by (intro settle_job_state(1)) simp_all
  then show ?thesis using f by (simp add: run)
qed

section \<open>A refused reservation\<close>

lemma phase1_refused:
  assumes "job_of (sys_db s) (ta_job t) (ta_company t) = Some jb" "current_state jb = S_queued"
    and "free_lock env (ta_job t) s" "ta_reserved_acu t = 0"
    and "account_of (sys_db s) (ta_company t) = Some a" "gate a (ta_estimated_cost_usd t) = Some why"
  obtains s' where "phase1_pre_ai env t 0 s = (Inr (Quota_exceeded, ta_estimated_cost_usd t, 0), s')" "sys_db s' = sys_db s"
proof -
  let ?j = "ta_job t" and ?c = "ta_company t"
  obtain s1 where s1: "acquire_job_lock env 0 ?j s = (Inr True, s1)"
    using acquire_free [OF assms(3)] by (cases "acquire_job_lock env 0 ?j s") simp
  then have db: "sys_db s1 = sys_db s" using acquire_job_lock_db [of env 0 ?j s] by simp
  let ?d1 = "change_job ?j (move_job S_reserved (tk_now env)) (sys_db s)"
  let ?q = "(js_quota s1)\<lparr>qs_db := ?d1\<rparr>"
  have r1: "reconcile_job_state (sys_db s) ?j ?c S_queued S_reserved (tk_now env) = (R_ok, ?d1)"
    using assms(1,2) by (auto intro!: reconcile_state_moves simp: reconcile_decision_def validate_job_transition_def)
  have w: "with_account (tk_fresh env) (tk_now env) ?c (qs_db ?q) = ?d1"
    using assms(5) by (simp add: with_account_def)
  have acc: "account_of (with_account (tk_fresh env) (tk_now env) ?c (qs_db ?q)) ?c = Some a"
    unfolding w using assms(5) by simp
  have q: "check_and_reserve quiet (tk_fresh env) (tk_now env) (tk_daily_limit env) (tk_redis_up env) ?c
      (ta_estimated_cost_usd t) ?j (ta_user t) ?q = (Inr (deny why), ?q)"
    using w by (simp add: reserve_quiet [OF acc] assms(6))
  have "phase1_pre_ai env t 0 s = (Inr (Quota_exceeded, ta_estimated_cost_usd t, 0), with_db (sys_db s) (s1\<lparr>js_quota := ?q\<rparr>))"
    using assms(1,4) by (simp add: phase1_pre_ai_def Let_def s1 db r1 q reserve_and_start_def)
  then show ?thesis by (rule that) simp
qed

text \<open>
  C21. A refusal of the quota engine does not stop the job: the first phase answers it as a tuple, which the caller
  takes for success. The model is called, its answer is stored, its cost is added to the used
  balance of a company that has no quota left, and the job stays queued, since the refused
  transaction was rolled back.
\<close>

theorem quota_refusal_ignored:
  assumes "job_of (sys_db s) (ta_job t) (ta_company t) = Some jb" "current_state jb = S_queued"
    and "free_lock env (ta_job t) s" "undisturbed env t"
    and "account_of (sys_db s) (ta_company t) = Some a" "0 \<le> ba_reserved_acu a"
    and "ta_reserved_acu t = 0" "gate a (ta_estimated_cost_usd t) = Some why"
    and "ledger_entry (sys_db s) (ta_company t) (ta_job t) = None" "\<not> has_analysis t (sys_db s)"
    and "tk_gateway env = Inr out" "vr_valid (validate_ai_output out True)"
    and "tk_advisory_free env" "tk_commit_fails env = None"
  shows "\<exists>s'. run_pipeline env t 0 s = (None, s') \<and>
    job_of (sys_db s') (ta_job t) (ta_company t) = Some jb \<and> has_analysis t (sys_db s') \<and>
    map_option ba_used_acu (account_of (sys_db s') (ta_company t)) =
      Some (quantize 4 (dec28 (ba_used_acu a + acu_of_usd (media_cost t))))"
proof -
  let ?j = "ta_job t" and ?c = "ta_company t"
  obtain s1 where p1: "phase1_pre_ai env t 0 s = (Inr (Quota_exceeded, ta_estimated_cost_usd t, 0), s1)" "sys_db s1 = sys_db s"
    using phase1_refused [OF assms(1,2,3,7,5,8)] by metis
  let ?s2 = "tk_meanwhile env s1"
  let ?d' = "settle_job env t (ta_estimated_cost_usd t) 0 out (sys_db ?s2)"
  have s2: "job_of (sys_db ?s2) ?j ?c = Some jb" "account_of (sys_db ?s2) ?c = Some a"
      "ledger_entry (sys_db ?s2) ?c ?j = None" "\<not> has_analysis t (sys_db ?s2)"
    using assms(1,4,5,9,10) p1(2) by (simp_all add: undisturbed_def Let_def has_analysis_def)
  have "phase3_post_ai env t (ta_estimated_cost_usd t) 0 out ?s2 = (None, with_db ?d' (unlock_job ?j ?s2))"
    using s2(1,4) assms(14) by (intro phase3_result) simp_all
  then have run: "run_pipeline env t 0 s = (None, with_db ?d' (unlock_job ?j ?s2))"
    by (simp add: run_pipeline_def p1(1) phase2_usable [OF assms(11,12)] Let_def)
  have le: "repr_dec 0 \<le> ba_reserved_acu a" using assms(6) by (simp add: repr_dec_0)
  note f = settle_job_result [OF s2(2,3) le s2(4) assms(13), of "ta_estimated_cost_usd t" out]
  have "job_of ?d' ?j ?c = Some jb" using s2(1) assms(2) by (intro settle_job_state(2)) simp_all
  then show ?thesis using f by (simp add: run)
qed

section \<open>An unusable answer of the model\<close>

lemma release_exact:
  assumes "numeric12 4 R" "numeric12 4 q" "0 \<le> q" "q \<le> R"
  shows "quantize 4 (minus_clamped R q) = R - q" "numeric12 4 (R - q)"
proof -
  have "on_grid 4 (10 ^ 12 + 10 ^ 12) (R - q)" using assms(1,2) by (rule on_grid_diff)
  then have "dec28 (R - q) = R - q" "quantize 4 (R - q) = R - q"
    by (auto intro: on_grid_dec28 on_grid_quantize)
  then show *: "quantize 4 (minus_clamped R q) = R - q" using assms(4) by (simp add: minus_clamped_def)
  have "0 \<le> R - q" "R - q \<le> R" using assms(3,4) by simp_all
  then show "numeric12 4 (R - q)" using on_grid_between [of 4 "R - q" R] assms(1) \<open>quantize 4 (R - q) = R - q\<close> by simp
qed

lemma release_once:
  assumes "account_of (sys_db s) c = Some a" "\<not> list_all (tk_release_fails env) [0..<3]"
    and "numeric12 4 (ba_reserved_acu a)" "numeric12 4 (repr_dec r)" "0 \<le> repr_dec r" "repr_dec r \<le> ba_reserved_acu a"
  obtains a' where "account_of (sys_db (release_reservation_with_retry env c r j s)) c = Some a'"
    and "ba_reserved_acu a' = ba_reserved_acu a - repr_dec r"
    and "job_of (sys_db (release_reservation_with_retry env c r j s)) i k = job_of (sys_db s) i k"
proof -
  have acc: "account_of (qs_db (js_quota s)) c = Some a" using assms(1) by simp
  have "job_of (qs_db (release_reserved quiet up c r (Some j) (js_quota s))) i k = job_of (sys_db s) i k" for up
    by (simp add: release_reserved_def update_loop_quiet [OF assms(1)])
  then show ?thesis
    using assms(2) release_quiet(1) [OF acc, of "tk_redis_up env" r "Some j"] release_exact(1) [OF assms(3-6)]
    by (intro that) (simp_all add: release_reservation_with_retry_def, simp)
qed

text \<open>
  C15. A run without a usable answer gives back twice what it had reserved: once where the missing answer is
  noticed and once in the exception handler around it. The second amount is taken from the
  reservations of the company's other jobs, and the failed job itself is left in \<open>processing\<close>.
\<close>

theorem failed_ai_releases_twice:
  assumes "job_of (sys_db s) (ta_job t) (ta_company t) = Some jb" "current_state jb = S_queued"
    and "free_lock env (ta_job t) s" "undisturbed env t"
    and "account_of (sys_db s) (ta_company t) = Some a" "numeric12 4 (ba_reserved_acu a)"
    and "0 < ta_reserved_acu t" "numeric12 4 (repr_dec (ta_reserved_acu t))" "0 \<le> repr_dec (ta_reserved_acu t)"
    and "2 * repr_dec (ta_reserved_acu t) \<le> ba_reserved_acu a"
    and "phase2_ai_gateway env = Inr None" "\<not> list_all (tk_release_fails env) [0..<3]"
  shows "\<exists>s'. run_pipeline env t 0 s = (Some non_recoverable_exn, s') \<and>
    map_option ba_reserved_acu (account_of (sys_db s') (ta_company t)) =
      Some (ba_reserved_acu a - 2 * repr_dec (ta_reserved_acu t)) \<and>
    map_option current_state (job_of (sys_db s') (ta_job t) (ta_company t)) = Some S_processing"
proof -
  let ?j = "ta_job t" and ?c = "ta_company t" and ?r = "ta_reserved_acu t"
  obtain s1 where p1: "phase1_pre_ai env t 0 s = (Inr (Ready, ta_estimated_cost_usd t, ?r), s1)"
    and s1: "job_of (sys_db s1) ?j ?c = Some (move_job S_processing (tk_now env) (move_job S_reserved (tk_now env) jb))"
      "account_of (sys_db s1) ?c = Some (a\<lparr>ba_reservation_heartbeat_at := Some (tk_now env)\<rparr>)"
    using phase1_pre_reserved [OF assms(1,2,3,7)] assms(5) by (metis option.map(2))
  let ?s2 = "tk_meanwhile env s1"
  let ?s3 = "release_reservation_with_retry env ?c ?r ?j ?s2"
  let ?s4 = "release_reservation_with_retry env ?c ?r ?j ?s3"
  have s2: "account_of (sys_db ?s2) ?c = Some (a\<lparr>ba_reservation_heartbeat_at := Some (tk_now env)\<rparr>)"
      "job_of (sys_db ?s2) ?j ?c = job_of (sys_db s1) ?j ?c"
    using assms(4) s1(2) by (simp_all add: undisturbed_def Let_def)
  obtain a3 where a3: "account_of (sys_db ?s3) ?c = Some a3" "ba_reserved_acu a3 = ba_reserved_acu a - repr_dec ?r"
      "job_of (sys_db ?s3) ?j ?c = job_of (sys_db ?s2) ?j ?c"
    using release_once [OF s2(1) assms(12), of ?r ?j ?j ?c] assms(6,8,9,10) by auto
  have "numeric12 4 (ba_reserved_acu a3)"
    using release_exact(2) [OF assms(6,8,9)] assms(9,10) by (simp add: a3(2))
  then obtain a4 where a4: "account_of (sys_db ?s4) ?c = Some a4" "ba_reserved_acu a4 = ba_reserved_acu a3 - repr_dec ?r"
      "job_of (sys_db ?s4) ?j ?c = job_of (sys_db ?s3) ?j ?c"
    using release_once [OF a3(1) assms(12), of ?r ?j ?j ?c] assms(8,9,10) a3(2) by auto
  have "run_pipeline env t 0 s = (Some non_recoverable_exn, unlock_job ?j ?s4)"
    using assms(7) by (simp add: run_pipeline_def p1 assms(11) fail_run_def compensate_failed_job_def RETRY_LIMIT_def Let_def)
  then show ?thesis using a4 a3(2,3) s2(2) s1(1) by simp
qed

section \<open>Retries\<close>

text \<open>
  Every way in which the keys of the job locks change; the expiry of a key is the time stored with it.
\<close>

inductive lock_step :: "job_system \<Rightarrow> job_system \<Rightarrow> bool" where
  acquire: "acquire_job_lock env n j s = (r, s') \<Longrightarrow> lock_step s s'"
| unlock: "lock_step s (unlock_job j s)"
| elsewhere: "js_lock s' = js_lock s \<Longrightarrow> js_heartbeat s' = js_heartbeat s \<Longrightarrow> lock_step s s'"

definition lock_outlives_heartbeat :: "job_system \<Rightarrow> bool" where
  "lock_outlives_heartbeat s \<longleftrightarrow>
     (\<forall>j v e v' e'. js_lock s j = Some (v, e) \<and> js_heartbeat s j = Some (v', e') \<longrightarrow> e' + 270 \<le> e)"

lemma live_key_Some: "live_key srv m j = Some (v, e) \<longleftrightarrow> m j = Some (v, e) \<and> srv < e"
  by (auto simp: live_key_def split: option.splits if_splits)

lemma retry_refused:
  assumes "lock_outlives_heartbeat s" "0 < n"
  shows "lock_attempt env n j s = (False, s)"
proof (cases "live_key (tk_srv env) (js_lock s) j")
  case (Some p)
  obtain v e where p: "p = (v, e)" by (cases p)
  show ?thesis
  proof (cases "live_key (tk_srv env) (js_heartbeat s) j")
    case Some': (Some q)
    obtain v' e' where q: "q = (v', e')" by (cases q)
    have "e' + 270 \<le> e" "tk_srv env < e'"
      using assms(1) Some Some' unfolding lock_outlives_heartbeat_def live_key_Some p q by blast+
    then have "30 < e - tk_srv env + 1 / 2 - 1" by simp
    then have "30 < ttl_seconds (tk_srv env) e" unfolding ttl_seconds_def by linarith
    then show ?thesis using assms(2) Some Some' by (simp add: lock_attempt_def p q)
  qed (use assms(2) Some in \<open>simp add: lock_attempt_def p\<close>)
qed (use assms(2) in \<open>simp add: lock_attempt_def\<close>)

lemma lock_step_invariant [inv_intros]:
  assumes "lock_step s s'" "lock_outlives_heartbeat s"
  shows "lock_outlives_heartbeat s'"
  using assms(1)
proof cases
  case (acquire env n j r)
  show ?thesis
  proof (cases "n = 0")
    case True
    with acquire assms(2) show ?thesis
      by (auto simp: acquire_job_lock_def lock_attempt_def set_nx_def lock_outlives_heartbeat_def split: if_splits)
  next
    case False
    then have "s' = s" using acquire retry_refused [OF assms(2)] by (auto simp: acquire_job_lock_def split: if_splits)
    with assms(2) show ?thesis by simp
  qed
qed (use assms(2) in \<open>auto simp: lock_outlives_heartbeat_def split: if_splits\<close>)

lemma reachable_locks:
  assumes "lock_step\<^sup>*\<^sup>* s0 s" "js_lock s0 = Map.empty"
  shows "lock_outlives_heartbeat s"
  using assms by (induction rule: rtranclp_induct) (auto simp: lock_outlives_heartbeat_def [of s0] intro: lock_step_invariant)

lemma phase1_retry:
  assumes "lock_outlives_heartbeat s" "0 < n" "tk_redis_up env" "job_of (sys_db s) (ta_job t) (ta_company t) \<noteq> None"
  obtains s' where "phase1_pre_ai env t n s = (Inr (Duplicate, ta_estimated_cost_usd t, ta_reserved_acu t), s')"
    and "sys_db s' = sys_db s"
proof -
  have "acquire_job_lock env n (ta_job t) s = (Inr False, s)"
    using assms(3) retry_refused [OF assms(1,2)] by (simp add: acquire_job_lock_def)
  then have "fst (phase1_pre_ai env t n s) = Inr (Duplicate, ta_estimated_cost_usd t, ta_reserved_acu t)"
    "sys_db (snd (phase1_pre_ai env t n s)) = sys_db s"
    using assms(4) by (auto simp: phase1_pre_ai_def Let_def)
  then show ?thesis by (metis that prod.collapse)
qed

text \<open>
  A retry never gets the job lock: in every state that runs of the task can reach, the attempt of a retry is
  refused, because the lock outlives its heartbeat by 270 seconds and the code only takes over a
  lock that has at most 30 seconds left and still a heartbeat (and takes no lock that is gone). So
  the first phase of every retry takes the job for a duplicate and reserves nothing.
\<close>

theorem retries_take_no_lock:
  assumes "lock_step\<^sup>*\<^sup>* s0 s" "js_lock s0 = Map.empty" "0 < n"
  shows "fst (acquire_job_lock env n j s) \<noteq> Inr True \<and>
    (tk_redis_up env \<and> job_of (sys_db s) (ta_job t) (ta_company t) \<noteq> None \<longrightarrow>
      (\<exists>s'. phase1_pre_ai env t n s = (Inr (Duplicate, ta_estimated_cost_usd t, ta_reserved_acu t), s') \<and>
            sys_db s' = sys_db s))"
proof (intro conjI impI)
  note ok = reachable_locks [OF assms(1,2)]
  show "fst (acquire_job_lock env n j s) \<noteq> Inr True"
    using retry_refused [OF ok assms(3)] by (simp add: acquire_job_lock_def)
  assume "tk_redis_up env \<and> job_of (sys_db s) (ta_job t) (ta_company t) \<noteq> None"
  then show "\<exists>s'. phase1_pre_ai env t n s = (Inr (Duplicate, ta_estimated_cost_usd t, ta_reserved_acu t), s') \<and> sys_db s' = sys_db s"
    using phase1_retry [OF ok assms(3)] by metis
qed

lemma settle_job_unbilled:
  assumes "account_of d (ta_company t) = Some a" "ledger_entry d (ta_company t) (ta_job t) = None"
    and "ba_reserved_acu a < repr_dec r" "\<not> has_analysis t d"
  shows "account_of (settle_job env t cost r out d) (ta_company t) = Some (a\<lparr>ba_reservation_heartbeat_at := Some (tk_later env)\<rparr>)"
    and "ledger_entry (settle_job env t cost r out d) (ta_company t) (ta_job t) = None"
    and "has_analysis t (settle_job env t cost r out d)"
proof -
  let ?d1 = "store_output env t out (heartbeat_reservation (tk_later env) d (ta_company t))"
  have "snd (reconcile_cost (tk_advisory_free env) (tk_fresh env) (tk_later env) (ta_company t) (ta_job t) cost (media_cost t) r
      (gateway_usage env t False) ?d1) = ?d1"
    using assms(1-3) by (simp add: reconcile_cost_def Let_def)
  then have s: "settle_job env t cost r out d =
      snd (reconcile_job_state ?d1 (ta_job t) (ta_company t) S_processing S_completed (tk_later env))"
    using assms(4) by (simp add: settle_job_def Let_def)
  show "account_of (settle_job env t cost r out d) (ta_company t) = Some (a\<lparr>ba_reservation_heartbeat_at := Some (tk_later env)\<rparr>)"
    "ledger_entry (settle_job env t cost r out d) (ta_company t) (ta_job t) = None"
    unfolding s using assms(1,2) by simp_all
  have "db_ai_outputs (settle_job env t cost r out d) = db_ai_outputs ?d1" unfolding s by simp
  then show "has_analysis t (settle_job env t cost r out d)" using has_analysis_cong store_output_parts(4) by blast
qed

text \<open>
  A job that succeeds on a retry is not billed: its reservation has been released when the first run failed,
  the retry reserves nothing, the reconciliation of a reservation that is not there raises and is
  only logged. The answer is stored and the job completed, while the company's balances and the
  ledger know nothing of it.
\<close>

theorem retried_job_unbilled:
  assumes "lock_step\<^sup>*\<^sup>* s0 s" "js_lock s0 = Map.empty" "0 < n" "tk_redis_up env" "undisturbed env t"
    and "job_of (sys_db s) (ta_job t) (ta_company t) = Some jb" "current_state jb = S_processing"
    and "account_of (sys_db s) (ta_company t) = Some a" "ba_reserved_acu a < repr_dec (ta_reserved_acu t)"
    and "ledger_entry (sys_db s) (ta_company t) (ta_job t) = None" "\<not> has_analysis t (sys_db s)"
    and "tk_gateway env = Inr out" "vr_valid (validate_ai_output out True)" "tk_commit_fails env = None"
  shows "\<exists>s'. run_pipeline env t n s = (None, s') \<and>
    map_option current_state (job_of (sys_db s') (ta_job t) (ta_company t)) = Some S_completed \<and>
    has_analysis t (sys_db s') \<and> ledger_entry (sys_db s') (ta_company t) (ta_job t) = None \<and>
    account_of (sys_db s') (ta_company t) = Some (a\<lparr>ba_reservation_heartbeat_at := Some (tk_later env)\<rparr>)"
proof -
  let ?j = "ta_job t" and ?c = "ta_company t"
  obtain s1 where p1: "phase1_pre_ai env t n s = (Inr (Duplicate, ta_estimated_cost_usd t, ta_reserved_acu t), s1)"
      "sys_db s1 = sys_db s"
    using phase1_retry [OF reachable_locks [OF assms(1,2)] assms(3,4)] assms(6) by (metis option.distinct(1))
  let ?s2 = "tk_meanwhile env s1"
  let ?d' = "settle_job env t (ta_estimated_cost_usd t) (ta_reserved_acu t) out (sys_db ?s2)"
  have s2: "job_of (sys_db ?s2) ?j ?c = Some jb" "account_of (sys_db ?s2) ?c = Some a"
      "ledger_entry (sys_db ?s2) ?c ?j = None" "\<not> has_analysis t (sys_db ?s2)"
    using assms(5,6,8,10,11) p1(2) by (simp_all add: undisturbed_def Let_def has_analysis_def)
  have "phase3_post_ai env t (ta_estimated_cost_usd t) (ta_reserved_acu t) out ?s2 = (None, with_db ?d' (unlock_job ?j ?s2))"
    using s2(1,4) assms(14) by (intro phase3_result) simp_all
  then have run: "run_pipeline env t n s = (None, with_db ?d' (unlock_job ?j ?s2))"
    by (simp add: run_pipeline_def p1(1) phase2_usable [OF assms(12,13)] Let_def)
  have "job_of ?d' ?j ?c = Some (move_job S_completed (tk_later env) jb)"
    using s2(1) assms(7) by (intro settle_job_state(1)) simp_all
  then show ?thesis using settle_job_unbilled [OF s2(2,3) assms(9) s2(4)] by (simp add: run)
qed

section \<open>Unique constraints\<close>

lemma wf_db_fields:
  "wf_db d \<Longrightarrow> wf_db (d\<lparr>db_media := m\<rparr>)" "wf_db d \<Longrightarrow> wf_db (d\<lparr>db_dead_letters := l\<rparr>)"
  "wf_db d \<Longrightarrow> wf_db (d\<lparr>db_job_estimates := e\<rparr>)"
  by (simp_all add: wf_db_def)

lemma wf_heartbeat [inv_intros]: "wf_db d \<Longrightarrow> wf_db (heartbeat_reservation now d c)"
  unfolding heartbeat_reservation_def by (rule wf_db_change_account) auto

lemma wf_reconcile_state [inv_intros]: "wf_db d \<Longrightarrow> wf_db (snd (reconcile_job_state d j c x y now))"
  by (auto simp: reconcile_job_state_def keeps_move_job intro!: wf_db_change_job split: option.split prod.split)

lemma wf_store_output [inv_intros]: "wf_db d \<Longrightarrow> wf_db (store_output env t out d)"
  by (auto simp: wf_db_def store_output_def has_analysis_def list_ex_iff unique_on_def output_key_def job_analysis_def)

lemma wf_settle_job [inv_intros]: "wf_db d \<Longrightarrow> wf_db (settle_job env t cost r out d)"
  unfolding settle_job_def Let_def by (intro wf_reconcile_state reconcile_wf wf_store_output wf_heartbeat)

lemma wf_cas [inv_intros]:
  "wf_db d \<Longrightarrow> keeps_account_key f \<Longrightarrow> wf_db (snd (cas_account c v f d))"
  by (auto simp: cas_account_def keeps_account_key_def intro!: wf_db_change_account split: option.split)

lemma wf_update_loop:
  "wf_db d \<Longrightarrow> (\<And>a. keeps_account_key (setv a)) \<Longrightarrow> wf_db (snd (update_loop quiet c setv ns d))"
proof (induction ns arbitrary: d)
  case (Cons n ns)
  have "wf_db (snd (cas_account c v (setv a) d))" for v a using Cons.prems by (intro wf_cas)
  then show ?case using Cons by (cases "account_of d c") (simp_all add: Let_def case_prod_beta)
qed simp

lemma wf_release [inv_intros]:
  assumes "wf_db (qs_db q)"
  shows "wf_db (qs_db (release_reserved quiet up c r j q))"
proof -
  have "wf_db (snd (update_loop quiet c (release_values (repr_dec r)) [0..<max_retries] (qs_db q)))"
    using assms by (rule wf_update_loop) (auto simp: release_values_def)
  then show ?thesis
    by (auto simp: release_reserved_def split: prod.split loop_end.split option.split)
qed

lemma wf_with_account [inv_intros]: "wf_db d \<Longrightarrow> wf_db (with_account fresh now c d)"
  by (auto simp: with_account_def get_or_create_account_def wf_db_def insert_unless_def list_ex_iff unique_on_def default_account_def)

lemma wf_upsert_usage [inv_intros]: "wf_db d \<Longrightarrow> wf_db (upsert_usage fresh user c date acu d)"
  by (auto simp: upsert_usage_def wf_db_def usage_of_def row_by_None) (auto simp: unique_on_def)

lemma wf_insert_estimate [inv_intros]: "wf_db d \<Longrightarrow> wf_db (insert_job_estimate fresh now c j est p d)"
  by (simp add: insert_job_estimate_def wf_db_fields)

lemma wf_after_reservation:
  "wf_db (qs_db q) \<Longrightarrow> wf_db (qs_db (snd (after_reservation fresh now up c est j user a q)))"
  by (auto simp: after_reservation_def Let_def intro!: wf_insert_estimate split: option.split)

lemma wf_check_and_reserve [inv_intros]:
  assumes "wf_db (qs_db q)"
  shows "wf_db (qs_db (snd (check_and_reserve quiet fresh now limit up c est j user q)))"
proof -
  obtain a where a: "account_of (with_account fresh now c (qs_db q)) c = Some a" using with_account_Some by blast
  let ?d = "with_account fresh now c (qs_db q)"
  obtain ok d2 where u: "(if truthy_str user
      then try_reserve_user_quota fresh (\<lambda>r. r) (the user) c (format_date now) (acu_of_usd est) limit ?d else (True, ?d)) = (ok, d2)"
    by fastforce
  have "wf_db ?d" using assms by (rule wf_with_account)
  moreover then have "wf_db d2" using u
    by (auto simp: try_reserve_user_quota_def Let_def intro!: wf_upsert_usage split: if_splits)
  then have "wf_db (change_account c (\<lambda>x. (x\<lparr>ba_reserved_acu := v\<rparr>)\<lparr>ba_version := ba_version x + 1\<rparr>) d2)" for v
    by (rule wf_db_change_account) auto
  ultimately show ?thesis using \<open>wf_db d2\<close> unfolding reserve_quiet [OF a] u
    by (cases "gate a est") (auto intro: wf_after_reservation)
qed

lemma wf_grant_credit [inv_intros]:
  assumes "wf_db d"
  shows "wf_db (snd (grant_credit fresh now c j amount why d))"
proof -
  have "wf_db (snd (insert_ledger r (change_account c (\<lambda>a. a\<lparr>ba_used_acu := v\<rparr>) d)))" for r v
    by (rule wf_db_insert_ledger, rule wf_db_change_account [OF assms]) auto
  then show ?thesis using assms
    by (cases "account_of d c"; cases "check_duplicate_credit d c j why") (simp_all add: grant_credit_def Let_def case_prod_beta)
qed

lemma wf_release_with_retry [inv_intros]:
  "wf_db (sys_db s) \<Longrightarrow> wf_db (sys_db (release_reservation_with_retry env c r j s))"
  by (simp add: release_reservation_with_retry_def wf_release wf_grant_credit)

lemma wf_start_processing:
  assumes "start_processing env t cost r d s = (z, s')" "wf_db d" "wf_db (sys_db s)"
  shows "wf_db (sys_db s')"
  using assms wf_reconcile_state [OF assms(2), of "ta_job t" "ta_company t" S_reserved S_processing "tk_now env"]
  by (auto simp: start_processing_def intro!: wf_heartbeat split: prod.splits reconcile_result.splits)

lemma wf_roll_back: "wf_db d \<Longrightarrow> wf_db (sys_db (snd x)) \<Longrightarrow> wf_db (sys_db (snd (roll_back_on_error d x)))"
  by (cases "(d, x)" rule: roll_back_on_error.cases) simp_all

lemma wf_reserve_and_start:
  assumes "wf_db d" "wf_db (sys_db s)"
  shows "wf_db (sys_db (snd (reserve_and_start env t n d s)))"
proof -
  let ?est = "if n = 0 then ta_estimated_cost_usd t else media_cost t" and ?user = "if n = 0 then ta_user t else None"
  obtain y q where c: "check_and_reserve quiet (tk_fresh env) (tk_now env) (tk_daily_limit env) (tk_redis_up env)
      (ta_company t) ?est (ta_job t) ?user ((js_quota s)\<lparr>qs_db := d\<rparr>) = (y, q)" by fastforce
  then have q: "wf_db (qs_db q)"
    using wf_check_and_reserve [of "(js_quota s)\<lparr>qs_db := d\<rparr>" "tk_fresh env" "tk_now env" "tk_daily_limit env"
        "tk_redis_up env" "ta_company t" ?est "ta_job t" ?user] assms(1) by simp
  have "sys_db (s\<lparr>js_quota := q\<rparr>) = qs_db q" by (simp add: sys_db_def del: sys_db_simps)
  then have sp: "wf_db (sys_db (snd (roll_back_on_error (sys_db s) (start_processing env t e r (qs_db q) (s\<lparr>js_quota := q\<rparr>)))))" for e r
    using q assms(2) by (intro wf_roll_back) (metis prod.collapse wf_start_processing)+
  have "wf_db (sys_db (snd (start_processing env t e r d s)))" for e r
    using assms by (metis prod.collapse wf_start_processing)
  then show ?thesis using assms(2) sp unfolding reserve_and_start_def Let_def c by (auto split: sum.split)
qed

lemma wf_phase1:
  assumes "wf_db (sys_db s)"
  shows "wf_db (sys_db (snd (phase1_pre_ai env t n s)))"
proof (cases "acquire_job_lock env n (ta_job t) s")
  case (Pair x s1)
  let ?j = "ta_job t" and ?c = "ta_company t"
  have db: "sys_db s1 = sys_db s" using acquire_job_lock_db [of env n ?j s] Pair by simp
  obtain r d1 where r: "reconcile_job_state (sys_db s) ?j ?c S_queued S_reserved (tk_now env) = (r, d1)" by fastforce
  then have d1: "wf_db d1" using assms wf_reconcile_state [of "sys_db s" ?j ?c S_queued S_reserved "tk_now env"] by simp
  let ?d2 = "if 0 < n then change_job ?j (\<lambda>r. r\<lparr>job_retry_count := Some (or_zero (job_retry_count r) + 1)\<rparr>) d1 else d1"
  have d2: "wf_db ?d2" using d1 by (auto intro!: wf_db_change_job keeps_job_keyI)
  have "wf_db (sys_db (snd (reserve_and_start env t n ?d2 s1)))"
    using d2 assms by (intro wf_reserve_and_start) (simp_all only: db)
  then show ?thesis using assms unfolding phase1_pre_ai_def Let_def Pair
    by (cases r) (auto simp only: db r split: sum.split bool.split if_split prod.split; simp add: db)+
qed

definition meanwhile_ok :: "task_env \<Rightarrow> bool" where
  "meanwhile_ok env \<longleftrightarrow> (\<forall>s. wf_db (sys_db s) \<longrightarrow> wf_db (sys_db (tk_meanwhile env s)))"

lemma wf_fail_run: "wf_db (sys_db s) \<Longrightarrow> wf_db (sys_db (fail_run env t n r has_lock s))"
  by (simp add: fail_run_def Let_def compensate_failed_job_def wf_release_with_retry)

lemma wf_phase3:
  "wf_db (sys_db s) \<Longrightarrow> wf_db (sys_db (snd (phase3_post_ai env t cost r out s)))"
  by (simp add: phase3_post_ai_def Let_def wf_settle_job split: option.split)

lemma wf_run_pipeline:
  assumes "wf_db (sys_db s)" "meanwhile_ok env"
  shows "wf_db (sys_db (snd (run_pipeline env t n s)))"
proof -
  obtain x s1 where x: "phase1_pre_ai env t n s = (x, s1)" by fastforce
  then have s1: "wf_db (sys_db s1)" using wf_phase1 [OF assms(1), of env t n] by simp
  then have s2: "wf_db (sys_db (tk_meanwhile env s1))" using assms(2) by (simp add: meanwhile_ok_def)
  have p3: "wf_db (sys_db s3)" if "phase3_post_ai env t cost r out (tk_meanwhile env s1) = (e, s3)" for cost r out e s3
    using wf_phase3 [OF s2, of env t cost r out] that by simp
  show ?thesis
    unfolding run_pipeline_def x
    by (auto simp: Let_def s1 s2 wf_fail_run wf_release_with_retry dest: p3 split: sum.split option.split prod.split)
qed

lemma bury_parts [simp]:
  "js_lock (bury env l s) = js_lock s" "js_heartbeat (bury env l s) = js_heartbeat s"
  "qs_reservations (js_quota (bury env l s)) = qs_reservations (js_quota s)"
  "(sys_db (bury env l s))\<lparr>db_dead_letters := x\<rparr> = (sys_db s)\<lparr>db_dead_letters := x\<rparr>"
  by (simp_all add: bury_def Let_def) (simp add: with_db_def)

lemma wf_bury: "wf_db (sys_db s) \<Longrightarrow> wf_db (sys_db (bury env l s))"
  by (simp add: bury_def Let_def wf_db_fields)

lemma wf_conclude: "wf_db (sys_db s) \<Longrightarrow> wf_db (sys_db (snd (conclude env t n trace e s)))"
  by (simp add: conclude_def Let_def wf_bury)

lemma sys_db_other [simp]: "sys_db (s\<lparr>js_signing := x\<rparr>) = sys_db s" "sys_db (s\<lparr>js_guard := g\<rparr>) = sys_db s"
  by (simp_all add: sys_db_def del: sys_db_simps)

lemma wf_attend:
  assumes "wf_db (sys_db s)" "meanwhile_ok env"
  shows "wf_db (sys_db (snd (attend env t n trace s)))"
proof -
  obtain calm s1 where c: "storm_check env t n s = (calm, s1)" by fastforce
  then have db: "sys_db s1 = sys_db s" by (auto simp: storm_check_def split: if_splits prod.splits)
  obtain e s2 where r: "run_pipeline env t n s1 = (e, s2)" by fastforce
  then have "wf_db (sys_db s2)" using wf_run_pipeline [of s1 env t n] assms db by simp
  then show ?thesis using assms(1) db unfolding attend_def c by (auto simp: r wf_conclude split: option.split)
qed

text \<open>
  C3. Whatever a task does (run to the end, fail in any phase, be refused, retried or buried, with the model raising or
  answering anything, with releases, credits or commits failing), the unique constraints of the
  tables hold afterwards: one account per company, one ledger entry per job, one answer of each
  type per job, one usage row per user and day.
\<close>

theorem task_keeps_constraints:
  assumes "wf_db (sys_db s)" "meanwhile_ok env"
  shows "wf_db (sys_db (snd (process_job_task env t n trace s)))"
proof -
  have "wf_db (sys_db (snd (attend env t n tr z)))" if "sys_db z = sys_db s" for tr z
    using wf_attend assms that by metis
  then show ?thesis using assms(1) by (auto simp: process_job_task_def Let_def wf_bury split: prod.split option.split)
qed

definition authentic :: "task_env \<Rightarrow> task_args \<Rightarrow> job_system \<Rightarrow> bool" where
  "authentic env t s \<longleftrightarrow>
     MIN_SUPPORTED_VERSION \<le> ta_payload_version t \<and> ta_payload_version t \<le> MAX_SUPPORTED_VERSION \<and>
     ta_payload_version t \<le> tk_worker_version env \<and>
     fst (verify_task_payload (tk_mac env) (tk_mono env) (tk_keys env) (worker_payload t) (ta_hmac t)
            (snd (get_signing_key (tk_mono env) (tk_keys env) (js_signing s))))"

text \<open>
  C32. A task that is not authentic (another payload version, a version newer than the worker, no signing key, a missing
  or wrong signature) is not finished or retried and changes nothing but the dead letters: no job,
  account, ledger entry, reservation or lock is touched. It is answered as failed, or, at a wrong signature, ends with
  the \<open>AttributeError\<close> of the missing \<open>self.reject\<close>.
\<close>

theorem unauthentic_task_changes_nothing:
  assumes "\<not> authentic env t s"
  shows "case process_job_task env t n trace s of (r, s') \<Rightarrow>
    (r = Crashed ''AttributeError'' \<or> (\<exists>err kind. r = Answer ''failed'' err kind)) \<and>
    (\<exists>rows. sys_db s' = (sys_db s)\<lparr>db_dead_letters := rows\<rparr>) \<and>
    qs_reservations (js_quota s') = qs_reservations (js_quota s) \<and> js_lock s' = js_lock s \<and> js_heartbeat s' = js_heartbeat s"
proof -
  have rows: "\<exists>rows. sys_db (bury env l z) = (sys_db s)\<lparr>db_dead_letters := rows\<rparr>" if "sys_db z = sys_db s" for l z
    using that by (auto simp: bury_def Let_def)
  have id: "\<exists>rows. sys_db s = (sys_db s)\<lparr>db_dead_letters := rows\<rparr>"
    by (rule exI [of _ "db_dead_letters (sys_db s)"]) simp
  have key: "fst (verify_task_payload m now ks p sg z) \<Longrightarrow> truthy_str (fst (get_signing_key now ks z))" for m now ks p sg z
    by (auto simp: verify_task_payload_def Let_def split: prod.splits if_splits)
  show ?thesis
    using assms
    by (auto simp: process_job_task_def authentic_def Let_def not_le rows id split: prod.split)
qed

section \<open>Deliveries\<close>

lemma conclude_retry: "conclude env t n trace e s = (Retry_task cd, s') \<Longrightarrow> n < 3 \<and> s' = s"
  by (auto simp: conclude_def Let_def RETRY_LIMIT_def split: if_splits)

lemma attend_retry: "attend env t n trace s = (Retry_task cd, s') \<Longrightarrow> n < 3"
  by (auto simp: attend_def dest!: conclude_retry split: prod.splits if_splits option.splits)

lemma process_retry: "process_job_task env t n trace s = (Retry_task cd, s') \<Longrightarrow> n < 3"
  by (auto simp: process_job_task_def Let_def split: prod.splits if_splits intro: attend_retry)

function deliver :: "(nat \<Rightarrow> task_env) \<Rightarrow> task_args \<Rightarrow> string \<Rightarrow> nat \<Rightarrow> job_system \<Rightarrow> nat \<times> task_outcome \<times> job_system" where
  \<comment> \<open>Celery delivers a task again, with one more retry counted, as often as it asks for it\<close>
  "deliver envs t trace n s =
     (case process_job_task (envs n) t n trace s of
        (Retry_task cd, s') \<Rightarrow> deliver envs t trace (Suc n) s'
      | (r, s') \<Rightarrow> (n, r, s'))"
  by pat_completeness auto

termination deliver
  by (relation "measure (\<lambda>(envs, t, trace, n, s). 4 - n)") (auto dest!: process_retry [OF sym])

declare deliver.simps [simp del]

text \<open>
  C33. A task comes to an end: however its runs fail, it asks for another delivery at most three times, and
  one of at most four deliveries ends it with an answer, an exception or success.
\<close>

theorem deliveries_end:
  "case deliver envs t trace 0 s of (n, r, s') \<Rightarrow> n \<le> 3 \<and> (\<forall>cd. r \<noteq> Retry_task cd)"
proof -
  have "m \<le> 3 \<Longrightarrow> case deliver envs t trace m s of (n, r, s') \<Rightarrow> n \<le> 3 \<and> (\<forall>cd. r \<noteq> Retry_task cd)" for m
  proof (induction envs t trace m s rule: deliver.induct)
    case (1 envs t trace n s)
    obtain r s' where r: "process_job_task (envs n) t n trace s = (r, s')" by fastforce
    have step: "Suc n \<le> 3 \<and> deliver envs t trace n s = deliver envs t trace (Suc n) s'" if "r = Retry_task cd" for cd
      using process_retry [OF r [unfolded that]] that by (subst deliver.simps) (simp add: r)
    have "deliver envs t trace n s = (n, r, s')" if "\<forall>cd. r \<noteq> Retry_task cd"
      using that by (subst deliver.simps) (cases r; simp add: r)
    then show ?case using "1.prems" "1.IH" [OF r [symmetric]] step by (cases "\<forall>cd. r \<noteq> Retry_task cd") auto
  qed
  then show ?thesis by simp
qed

section \<open>Concrete runs\<close>

definition pipeline_job :: "ai_state \<Rightarrow> job" where
  "pipeline_job state = move_job state 0 (default_job 4 7 3 ''user_1'' 0)"

definition pipeline_account :: "bool \<Rightarrow> rat \<Rightarrow> billing_account" where
  "pipeline_account disabled r = (enterprise_account (default_account 1 7 0))\<lparr>ba_reserved_acu := r, ba_ai_disabled := disabled\<rparr>"

lemma pipeline_rows [simp]:
  "current_state (pipeline_job state) = state" "ba_reserved_acu (pipeline_account off r) = r"
  "ba_ai_disabled (pipeline_account off r) = off"
  by (simp_all add: pipeline_job_def pipeline_account_def)

definition pipeline_db :: "ai_state \<Rightarrow> bool \<Rightarrow> rat \<Rightarrow> database" where
  \<comment> \<open>an enterprise company with one job\<close>
  "pipeline_db state disabled r =
     (one_account (\<lambda>a. (enterprise_account a)\<lparr>ba_reserved_acu := r, ba_ai_disabled := disabled\<rparr>))
       \<lparr>db_jobs := [pipeline_job state]\<rparr>"

definition pipeline_system :: "database \<Rightarrow> job_system" where
  "pipeline_system d = \<lparr>js_quota = \<lparr>qs_db = d, qs_reservations = (\<lambda>_. None)\<rparr>, js_lock = Map.empty, js_heartbeat = Map.empty,
     js_guard = (No_redis, \<lparr>rg_counts = [], rg_last_cleanup = 0\<rparr>), js_poison = Poison_down, js_fallback = [],
     js_signing = new_signing\<rparr>"

definition pipeline_task :: "int \<Rightarrow> pyfloat \<Rightarrow> task_args" where
  "pipeline_task v r = \<lparr>ta_job = 4, ta_company = 7, ta_user = None, ta_audio_url = None, ta_image_urls = None,
     ta_description = ''valve'', ta_trade_type = ''plumbing'', ta_trace_id = None, ta_estimated_cost_usd = 0,
     ta_reserved_acu = r, ta_payload_version = v, ta_hmac = []\<rparr>"

definition pipeline_env :: "ai_result \<Rightarrow> task_env" where
  "pipeline_env out = \<lparr>tk_now = 1, tk_later = 2, tk_clock = 1, tk_mono = 1, tk_srv = 1, tk_worker = ''w'', tk_worker_version = 1,
     tk_fresh = 9, tk_redis_up = True, tk_daily_limit = 0, tk_ai_disabled = False,
     tk_keys = \<lparr>ks_settings = None, ks_environ = None\<rparr>, tk_mac = (\<lambda>k p. k), tk_gateway = Inr out,
     tk_dump_json = (\<lambda>r. ar_summary r), tk_execution_ms = 5, tk_advisory_free = True, tk_commit_fails = None,
     tk_release_fails = (\<lambda>_. False), tk_release_error = [], tk_credit_fails = False, tk_quota_text = (\<lambda>_. []),
     tk_meanwhile = (\<lambda>s. s),
     tk_letter = \<lparr>le_srv = 1, le_fresh = 9, le_now = 2, le_write_ok = (\<lambda>_. True), le_file_ok = True\<rparr>\<rparr>"

definition good_result :: ai_result where
  "good_result = sample_result\<lparr>ar_estimated_hours := 2\<rparr>"

lemma good_result_valid: "vr_valid (validate_ai_output good_result True)"
proof -
  have "strip ''Leaking valve'' \<noteq> []" by code_simp
  moreover have "f64 (7/10) \<le> 1" using f64_mono [of "7/10" 1] by (simp add: f64_1)
  ultimately show ?thesis by (simp add: validate_ai_output_def good_result_def sample_result_def output_errors_def)
qed

lemma pipeline_facts:
  "sys_db (pipeline_system d) = d" "js_lock (pipeline_system d) = Map.empty"
  "job_of (pipeline_db state off r) 4 7 = Some (pipeline_job state)"
  "account_of (pipeline_db state off r) 7 = Some (pipeline_account off r)"
  "ledger_entry (pipeline_db state off r) 7 4 = None" "\<not> has_analysis t (pipeline_db state off r)"
  "undisturbed (pipeline_env out) t" "free_lock (pipeline_env out) 4 (pipeline_system d)" "wf_db (pipeline_db state off r)"
  "meanwhile_ok (pipeline_env out)"
proof -
  have k: "keeps_account_key (\<lambda>a. (enterprise_account a)\<lparr>ba_reserved_acu := r, ba_ai_disabled := off\<rparr>)" by (auto simp: enterprise_account_def)
  show "account_of (pipeline_db state off r) 7 = Some (pipeline_account off r)"
    using account_of_one_account [OF k, of 7] by (simp add: pipeline_db_def account_of_def pipeline_account_def)
qed (simp_all add: pipeline_job_def pipeline_system_def sys_db_def pipeline_db_def job_of_def job_row_def row_by_Cons default_job_def ledger_entry_def
    one_account_def empty_db_def has_analysis_def undisturbed_def pipeline_env_def free_lock_def live_key_def wf_db_def unique_on_def
    meanwhile_ok_def del: sys_db_simps)

lemma repr_dec_ten: "repr_dec 10 = 10"
  using repr_dec_of_decimal [of 10 0] by (simp add: f64_numeral)

lemma pipeline_task_simps [simp]:
  "ta_job (pipeline_task v r) = 4" "ta_company (pipeline_task v r) = 7" "ta_reserved_acu (pipeline_task v r) = r"
  "ta_estimated_cost_usd (pipeline_task v r) = 0" "ta_payload_version (pipeline_task v r) = v"
  by (simp_all add: pipeline_task_def)

lemma pipeline_env_simps [simp]:
  "tk_gateway (pipeline_env out) = Inr out" "tk_advisory_free (pipeline_env out)" "tk_commit_fails (pipeline_env out) = None"
  "tk_redis_up (pipeline_env out)" "tk_release_fails (pipeline_env out) = (\<lambda>_. False)" "tk_worker_version (pipeline_env out) = 1"
  by (simp_all add: pipeline_env_def)

theorem first_run_settles_witness:
  "\<exists>s'. run_pipeline (pipeline_env good_result) (pipeline_task 1 10) 0 (pipeline_system (pipeline_db S_queued False 25)) = (None, s') \<and>
     map_option current_state (job_of (sys_db s') 4 7) = Some S_completed"
  using first_run_settles [where s = "pipeline_system (pipeline_db S_queued False 25)" and t = "pipeline_task 1 10"
      and env = "pipeline_env good_result" and jb = "pipeline_job S_queued" and a = "pipeline_account False 25" and out = good_result]
    good_result_valid
  by (simp add: pipeline_facts repr_dec_ten) blast

theorem quota_refusal_ignored_witness:
  "\<exists>s'. run_pipeline (pipeline_env good_result) (pipeline_task 1 0) 0 (pipeline_system (pipeline_db S_queued True 25)) = (None, s') \<and>
     has_analysis (pipeline_task 1 0) (sys_db s')"
proof -
  have "gate (pipeline_account True 25) 0 = Some AI_disabled" by (simp add: gate_def Let_def)
  then show ?thesis
    using quota_refusal_ignored [where s = "pipeline_system (pipeline_db S_queued True 25)" and t = "pipeline_task 1 0"
        and env = "pipeline_env good_result" and jb = "pipeline_job S_queued" and a = "pipeline_account True 25" and out = good_result]
      good_result_valid
    by (simp add: pipeline_facts) blast
qed

theorem failed_ai_releases_twice_witness:
  "\<exists>s'. run_pipeline (pipeline_env (good_result\<lparr>ar_is_fallback := True\<rparr>)) (pipeline_task 1 10) 0
       (pipeline_system (pipeline_db S_queued False 25)) = (Some non_recoverable_exn, s') \<and>
     map_option ba_reserved_acu (account_of (sys_db s') 7) = Some 5"
proof -
  let ?env = "pipeline_env (good_result\<lparr>ar_is_fallback := True\<rparr>)"
  have "phase2_ai_gateway ?env = Inr None" by (simp add: phase2_ai_gateway_def)
  moreover have "numeric12 4 25" "numeric12 4 10" by (auto simp: on_grid_def intro!: exI [of _ 250000] exI [of _ 100000])
  moreover have "\<not> list_all (\<lambda>_. False) [0..<3::nat]" by (simp add: upt_rec)
  ultimately show ?thesis
    using failed_ai_releases_twice [where s = "pipeline_system (pipeline_db S_queued False 25)" and t = "pipeline_task 1 10"
        and env = ?env and jb = "pipeline_job S_queued" and a = "pipeline_account False 25"]
    by (simp add: pipeline_facts repr_dec_ten) blast
qed

theorem retries_take_no_lock_witness:
  "fst (acquire_job_lock (pipeline_env good_result) 1 4 (pipeline_system (pipeline_db S_processing False 0))) \<noteq> Inr True"
  using retries_take_no_lock [OF rtranclp.rtrancl_refl [of lock_step "pipeline_system (pipeline_db S_processing False 0)"], of 1]
  by (simp add: pipeline_facts)

theorem retried_job_unbilled_witness:
  "\<exists>s'. run_pipeline (pipeline_env good_result) (pipeline_task 1 10) 1 (pipeline_system (pipeline_db S_processing False 0)) = (None, s') \<and>
     ledger_entry (sys_db s') 7 4 = None"
  using retried_job_unbilled [OF rtranclp.rtrancl_refl, where s = "pipeline_system (pipeline_db S_processing False 0)" and n = 1
      and env = "pipeline_env good_result" and t = "pipeline_task 1 10" and jb = "pipeline_job S_processing"
      and a = "pipeline_account False 0" and out = good_result] good_result_valid
  by (simp add: pipeline_facts repr_dec_ten) blast

theorem task_keeps_constraints_witness:
  "wf_db (sys_db (snd (process_job_task (pipeline_env good_result) (pipeline_task 1 10) 0 ''t'' (pipeline_system (pipeline_db S_queued False 25)))))"
  by (rule task_keeps_constraints) (simp_all add: pipeline_facts)

theorem unauthentic_task_changes_nothing_witness:
  "js_lock (snd (process_job_task (pipeline_env good_result) (pipeline_task 2 10) 0 ''t'' (pipeline_system (pipeline_db S_queued False 25)))) = Map.empty"
  using unauthentic_task_changes_nothing [of "pipeline_env good_result" "pipeline_task 2 10" "pipeline_system (pipeline_db S_queued False 25)" 0 "''t''"]
  by (auto simp: authentic_def MAX_SUPPORTED_VERSION_def pipeline_facts split: prod.splits)

end
