(* ===== verification/PyRegex.thy ===== *)
theory PyRegex
  imports Prelude
begin

text \<open>
  The part of Python's \<open>re\<close> module that the program uses: patterns built from literals, classes,
  groups, alternatives, greedy and lazy repetitions of a class, and word boundaries. Text is a list of code
  points. \<open>ends\<close> is a backtracking matcher: it lists the positions at which a match that starts
  here can end, in the order in which the engine tries them, so its first element is the match that the
  engine takes.
\<close>

type_synonym codes = "int list"

definition codes_of :: "string \<Rightarrow> codes" where
  "codes_of s = map of_char s"

definition string_of :: "codes \<Rightarrow> string" where
  "string_of cs = map char_of cs"

lemma string_of_codes_of [simp]: "string_of (codes_of s) = s"
  by (simp add: string_of_def codes_of_def comp_def)

section \<open>Patterns\<close>

datatype rx =
    Nothing_more
  | One "int \<Rightarrow> bool"
  | Many "int \<Rightarrow> bool"
  | Few "int \<Rightarrow> bool"
  | Boundary
  | Then rx rx
  | Or rx rx

text \<open>A position: the code point before it, if any, and the text after it.\<close>

type_synonym position = "int option \<times> codes"

fun runs :: "(int \<Rightarrow> bool) \<Rightarrow> int option \<Rightarrow> codes \<Rightarrow> position list" where
  \<comment> \<open>the ends of a repetition, shortest first\<close>
  "runs p prev [] = [(prev, [])]"
| "runs p prev (c # s) = (prev, c # s) # (if p c then runs p (Some c) s else [])"

definition at_boundary :: "(int \<Rightarrow> bool) \<Rightarrow> position \<Rightarrow> bool" where
  "at_boundary word pos =
     (let before = (case fst pos of None \<Rightarrow> False | Some c \<Rightarrow> word c);
          after = (case snd pos of [] \<Rightarrow> False | c # s \<Rightarrow> word c)
      in before \<noteq> after)"

fun ends :: "(int \<Rightarrow> bool) \<Rightarrow> rx \<Rightarrow> position \<Rightarrow> position list" where
  "ends word Nothing_more pos = [pos]"
| "ends word (One p) (prev, s) = (case s of [] \<Rightarrow> [] | c # t \<Rightarrow> if p c then [(Some c, t)] else [])"
| "ends word (Many p) (prev, s) = rev (runs p prev s)"
| "ends word (Few p) (prev, s) = runs p prev s"
| "ends word Boundary pos = (if at_boundary word pos then [pos] else [])"
| "ends word (Then a b) pos = concat (map (ends word b) (ends word a pos))"
| "ends word (Or a b) pos = ends word a pos @ ends word b pos"

fun search_from :: "(int \<Rightarrow> bool) \<Rightarrow> rx \<Rightarrow> int option \<Rightarrow> codes \<Rightarrow> bool" where
  "search_from word r prev [] = (ends word r (prev, []) \<noteq> [])"
| "search_from word r prev (c # s) = (ends word r (prev, c # s) \<noteq> [] \<or> search_from word r (Some c) s)"

definition re_search :: "(int \<Rightarrow> bool) \<Rightarrow> rx \<Rightarrow> codes \<Rightarrow> bool" where
  "re_search word r s = search_from word r None s"

function matches_from :: "(int \<Rightarrow> bool) \<Rightarrow> rx \<Rightarrow> int option \<Rightarrow> codes \<Rightarrow> nat" where
  \<comment> \<open>\<open>len(re.findall(r, s))\<close> for a pattern that does not match the empty text: the next match is sought
      where the last one ended\<close>
  "matches_from word r prev [] = 0"
| "matches_from word r prev (c # s) =
     (case ends word r (prev, c # s) of
        [] \<Rightarrow> matches_from word r (Some c) s
      | (q, t) # _ \<Rightarrow> if length t \<le> length s then Suc (matches_from word r q t) else matches_from word r (Some c) s)"
  by pat_completeness auto

termination
  by (relation "measure (\<lambda>(w, r, q, s). length s)") auto

definition count_matches :: "(int \<Rightarrow> bool) \<Rightarrow> rx \<Rightarrow> codes \<Rightarrow> nat" where
  "count_matches word r s = matches_from word r None s"

section \<open>Building patterns\<close>

fun in_order :: "rx list \<Rightarrow> rx" where
  "in_order [] = Nothing_more"
| "in_order [r] = r"
| "in_order (r # rs) = Then r (in_order rs)"

fun one_of :: "rx list \<Rightarrow> rx" where
  "one_of [] = One (\<lambda>c. False)"
| "one_of [r] = r"
| "one_of (r # rs) = Or r (one_of rs)"

definition opt :: "rx \<Rightarrow> rx" where
  "opt r = Or r Nothing_more"

definition some_of :: "(int \<Rightarrow> bool) \<Rightarrow> rx" where
  \<comment> \<open>one or more, greedy\<close>
  "some_of p = Then (One p) (Many p)"

definition lit :: "string \<Rightarrow> rx" where
  "lit s = in_order (map (\<lambda>c. One (\<lambda>d. d = c)) (codes_of s))"

definition same_letter :: "int \<Rightarrow> int \<Rightarrow> bool" where
  \<comment> \<open>equality under the flag \<open>i\<close> of a literal \<open>c\<close> in lower case; beside the two cases of a letter, the engine lets
      \<open>i\<close> match the dotted capital and the dotless small letter, \<open>s\<close> the long s, and \<open>k\<close> the Kelvin sign\<close>
  "same_letter c d \<longleftrightarrow>
     d = c \<or> 97 \<le> c \<and> c \<le> 122 \<and> d = c - 32 \<or> c = 105 \<and> (d = 304 \<or> d = 305) \<or>
     c = 115 \<and> d = 383 \<or> c = 107 \<and> d = 8490"

definition lit_i :: "string \<Rightarrow> rx" where
  "lit_i s = in_order (map (\<lambda>c. One (same_letter c)) (codes_of s))"

section \<open>What a match is\<close>

definition prev_after :: "int option \<Rightarrow> codes \<Rightarrow> int option" where
  \<comment> \<open>the code point before a position, after reading \<open>m\<close>\<close>
  "prev_after prev m = (if m = [] then prev else Some (last m))"

lemma prev_after_simps [simp]:
  "prev_after prev [] = prev" "prev_after prev (c # m) = prev_after (Some c) m"
  "prev_after prev (m @ m') = prev_after (prev_after prev m) m'"
  by (auto simp: prev_after_def last_append)

lemma runs_split: "(q, t) \<in> set (runs p prev s) \<Longrightarrow> \<exists>m. s = m @ t \<and> q = prev_after prev m"
proof (induction p prev s rule: runs.induct)
  case (2 p prev c s)
  show ?case
  proof (cases "(q, t) = (prev, c # s)")
    case True then show ?thesis by (intro exI [of _ "[]"]) simp
  next
    case False
    with 2 obtain m where "s = m @ t" "q = prev_after (Some c) m" by (auto split: if_splits)
    then show ?thesis by (intro exI [of _ "c # m"]) simp
  qed
qed simp

lemma ends_split: "(q, t) \<in> set (ends word r (prev, s)) \<Longrightarrow> \<exists>m. s = m @ t \<and> q = prev_after prev m"
proof (induction r arbitrary: q t prev s)
  case (One p)
  then obtain c where "s = c # t" "q = Some c" by (auto split: list.splits if_splits)
  then show ?case by (intro exI [of _ "[c]"]) simp
next
  case (Then a b)
  then obtain q1 t1 where 1: "(q1, t1) \<in> set (ends word a (prev, s))" "(q, t) \<in> set (ends word b (q1, t1))" by auto
  obtain m where m: "s = m @ t1" "q1 = prev_after prev m" using Then.IH(1) [OF 1(1)] by blast
  obtain m' where "t1 = m' @ t" "q = prev_after q1 m'" using Then.IH(2) [OF 1(2)] by blast
  with m show ?case by (intro exI [of _ "m @ m'"]) simp
next
  case (Many p)
  then show ?case using runs_split by simp
next
  case (Few p)
  then show ?case using runs_split by simp
next
  case (Or a b)
  then show ?case by (simp, blast)
next
  case Nothing_more
  then show ?case by simp
next
  case Boundary
  then show ?case by (simp split: if_splits)
qed

lemma search_fromI:
  "ends word r (prev_after prev xs, ys) \<noteq> [] \<Longrightarrow> search_from word r prev (xs @ ys)"
proof (induction xs arbitrary: prev)
  case Nil
  then show ?case by (cases ys) simp_all
qed simp

lemma search_fromE:
  "search_from word r prev s \<Longrightarrow> \<exists>xs ys. s = xs @ ys \<and> ends word r (prev_after prev xs, ys) \<noteq> []"
proof (induction word r prev s rule: search_from.induct)
  case (2 word r prev c s)
  show ?case
  proof (cases "ends word r (prev, c # s) = []")
    case False then show ?thesis by (intro exI [of _ "[]"] exI [of _ "c # s"]) simp
  next
    case True
    with 2 obtain xs ys where "s = xs @ ys" "ends word r (prev_after (Some c) xs, ys) \<noteq> []" by auto
    then show ?thesis by (intro exI [of _ "c # xs"] exI [of _ ys]) simp
  qed
qed simp

text \<open>A search succeeds exactly when some cut of the text into three has the pattern match in the middle.\<close>

lemma re_search_iff:
  "re_search word r s \<longleftrightarrow>
   (\<exists>xs m ys. s = xs @ m @ ys \<and> (prev_after None (xs @ m), ys) \<in> set (ends word r (prev_after None xs, m @ ys)))"
proof
  assume "re_search word r s"
  then obtain xs zs where s: "s = xs @ zs" "ends word r (prev_after None xs, zs) \<noteq> []"
    unfolding re_search_def by (blast dest: search_fromE)
  then obtain q t where e: "(q, t) \<in> set (ends word r (prev_after None xs, zs))" by (metis list.set_intros(1) neq_Nil_conv surj_pair)
  from ends_split [OF this] obtain m where "zs = m @ t" "q = prev_after (prev_after None xs) m" by blast
  with s e show "\<exists>xs m ys. s = xs @ m @ ys \<and> (prev_after None (xs @ m), ys) \<in> set (ends word r (prev_after None xs, m @ ys))"
    by (intro exI [of _ xs] exI [of _ m] exI [of _ t]) simp
next
  assume "\<exists>xs m ys. s = xs @ m @ ys \<and> (prev_after None (xs @ m), ys) \<in> set (ends word r (prev_after None xs, m @ ys))"
  then obtain xs m ys where "s = xs @ m @ ys" "ends word r (prev_after None xs, m @ ys) \<noteq> []"
    by (metis list.set(1) empty_iff)
  then show "re_search word r s" using search_fromI [of word r None xs "m @ ys"] by (simp add: re_search_def)
qed

section \<open>Patterns without boundaries do not look around\<close>

fun local_rx :: "rx \<Rightarrow> bool" where
  "local_rx Boundary = False"
| "local_rx (Then a b) = (local_rx a \<and> local_rx b)"
| "local_rx (Or a b) = (local_rx a \<and> local_rx b)"
| "local_rx _ = True"

lemma runs_extend: "(q, t) \<in> set (runs p prev s) \<Longrightarrow> \<exists>q'. (q', t @ ys) \<in> set (runs p prev' (s @ ys))"
proof (induction p prev s arbitrary: prev' rule: runs.induct)
  case (1 p prev)
  then show ?case by (cases ys) auto
next
  case (2 p prev c s)
  show ?case
  proof (cases "(q, t) = (prev, c # s)")
    case True then show ?thesis by auto
  next
    case False
    with 2 have "p c" "(q, t) \<in> set (runs p (Some c) s)" by (auto split: if_splits)
    with 2(1) show ?thesis by fastforce
  qed
qed

lemma ends_extend:
  "local_rx r \<Longrightarrow> (q, t) \<in> set (ends word r (prev, s)) \<Longrightarrow> \<exists>q'. (q', t @ ys) \<in> set (ends word r (prev', s @ ys))"
proof (induction r arbitrary: q t prev prev' s)
  case (Then a b)
  then obtain q1 t1 where 1: "(q1, t1) \<in> set (ends word a (prev, s))" "(q, t) \<in> set (ends word b (q1, t1))" by auto
  obtain q2 where 2: "(q2, t1 @ ys) \<in> set (ends word a (prev', s @ ys))" using Then.IH(1) [OF _ 1(1)] Then.prems by auto
  obtain q3 where "(q3, t @ ys) \<in> set (ends word b (q2, t1 @ ys))" using Then.IH(2) [OF _ 1(2)] Then.prems by auto
  with 2 show ?case by force
next
  case (Or a b)
  have "local_rx a" "local_rx b" using Or.prems by simp_all
  moreover have "(q, t) \<in> set (ends word a (prev, s)) \<or> (q, t) \<in> set (ends word b (prev, s))" using Or.prems by simp
  ultimately have "(\<exists>q'. (q', t @ ys) \<in> set (ends word a (prev', s @ ys))) \<or> (\<exists>q'. (q', t @ ys) \<in> set (ends word b (prev', s @ ys)))"
    using Or.IH by blast
  then show ?case by auto
next
  case (One p)
  then show ?case by (auto split: list.splits if_splits)
next
  case (Many p)
  then show ?case using runs_extend by simp
next
  case (Few p)
  then show ?case using runs_extend by simp
qed auto

lemma re_search_take:
  assumes "local_rx r" "re_search word r (take n s)"
  shows "re_search word r s"
proof -
  obtain xs ys where t: "take n s = xs @ ys" "ends word r (prev_after None xs, ys) \<noteq> []"
    using search_fromE assms(2) unfolding re_search_def by blast
  then obtain q t' where "(q, t') \<in> set (ends word r (prev_after None xs, ys))" by (metis list.set_intros(1) neq_Nil_conv surj_pair)
  from ends_extend [OF assms(1) this, of "drop n s" "prev_after None xs"]
  have "ends word r (prev_after None xs, ys @ drop n s) \<noteq> []" by auto
  then have "search_from word r None (xs @ ys @ drop n s)" by (rule search_fromI)
  moreover have "xs @ ys @ drop n s = s" using t(1) by (metis append.assoc append_take_drop_id)
  ultimately show ?thesis by (simp add: re_search_def)
qed

section \<open>Patterns that agree on an alphabet\<close>

fun agree :: "int set \<Rightarrow> rx \<Rightarrow> rx \<Rightarrow> bool" where
  "agree A (One p) (One q) = (\<forall>c \<in> A. p c = q c)"
| "agree A (Many p) (Many q) = (\<forall>c \<in> A. p c = q c)"
| "agree A (Few p) (Few q) = (\<forall>c \<in> A. p c = q c)"
| "agree A (Then a b) (Then a' b') = (agree A a a' \<and> agree A b b')"
| "agree A (Or a b) (Or a' b') = (agree A a a' \<and> agree A b b')"
| "agree A Nothing_more Nothing_more = True"
| "agree A Boundary Boundary = True"
| "agree A r s = False"

lemma agree_refl [simp]: "agree A r r"
  by (induction r) auto

lemma agree_in_order: "list_all2 (agree A) rs rs' \<Longrightarrow> agree A (in_order rs) (in_order rs')"
proof (induction rs arbitrary: rs' rule: in_order.induct)
  case (3 r r2 rs)
  then show ?case by (cases rs'; cases "tl rs'") auto
qed (auto simp: list_all2_Cons1)

lemma agree_one_of: "list_all2 (agree A) rs rs' \<Longrightarrow> agree A (one_of rs) (one_of rs')"
proof (induction rs arbitrary: rs' rule: one_of.induct)
  case (3 r r2 rs)
  then show ?case by (cases rs'; cases "tl rs'") auto
qed (auto simp: list_all2_Cons1)

lemma agree_opt [simp]: "agree A (opt r) (opt r') = agree A r r'"
  by (simp add: opt_def)

lemma agree_some_of [simp]: "agree A (some_of p) (some_of q) \<longleftrightarrow> (\<forall>c \<in> A. p c = q c)"
  by (simp add: some_of_def)

lemma runs_agree: "\<forall>c \<in> A. p c = q c \<Longrightarrow> set s \<subseteq> A \<Longrightarrow> runs p prev s = runs q prev s"
  by (induction p prev s rule: runs.induct) auto

lemma ends_in: "(q, t) \<in> set (ends word r (prev, s)) \<Longrightarrow> set_option prev \<union> set s \<subseteq> A \<Longrightarrow> set_option q \<union> set t \<subseteq> A"
proof -
  assume "(q, t) \<in> set (ends word r (prev, s))" and A: "set_option prev \<union> set s \<subseteq> A"
  then obtain m where m: "s = m @ t" "q = prev_after prev m" using ends_split by blast
  then have "set_option q \<subseteq> A" using A last_in_set [of m] by (cases "m = []") (auto simp: prev_after_def)
  then show ?thesis using m A by auto
qed

lemma ends_agree:
  assumes "\<And>c. c \<in> A \<Longrightarrow> word c = word' c" "agree A r r'" "set_option prev \<union> set s \<subseteq> A"
  shows "ends word r (prev, s) = ends word' r' (prev, s)"
  using assms
proof (induction A r r' arbitrary: prev s rule: agree.induct)
  case (4 A a b a' b')
  have same: "ends word a (prev, s) = ends word' a' (prev, s)" using 4 by simp
  have "ends word b pos = ends word' b' pos" if "pos \<in> set (ends word a (prev, s))" for pos
    using 4 that ends_in [of "fst pos" "snd pos" word a prev s A] by (cases pos) auto
  then have "map (ends word b) (ends word a (prev, s)) = map (ends word' b') (ends word a (prev, s))" by (intro map_cong) auto
  then show ?case unfolding ends.simps same [symmetric] by (rule arg_cong)
next
  case (7 A)
  then show ?case by (cases prev; cases s) (auto simp: at_boundary_def)
qed (auto simp: runs_agree split: list.split)

lemma search_agree:
  assumes "\<And>c. c \<in> A \<Longrightarrow> word c = word' c" "agree A r r'" "set s \<subseteq> A"
  shows "re_search word r s = re_search word' r' s"
proof -
  have "search_from word r prev s = search_from word' r' prev s" if "set_option prev \<union> set s \<subseteq> A" for prev
    using that
  proof (induction s arbitrary: prev)
    case Nil
    then show ?case using ends_agree [where prev = prev and s = "[]", OF assms(1,2)] by simp
  next
    case (Cons c s)
    then show ?case using ends_agree [where prev = prev and s = "c # s", OF assms(1,2)] by simp
  qed
  then show ?thesis using assms(3) by (simp add: re_search_def)
qed

lemma count_agree:
  assumes "\<And>c. c \<in> A \<Longrightarrow> word c = word' c" "agree A r r'" "set s \<subseteq> A"
  shows "count_matches word r s = count_matches word' r' s"
proof -
  have "matches_from word r prev s = matches_from word' r' prev s" if "set_option prev \<union> set s \<subseteq> A" for prev
    using that
  proof (induction "length s" arbitrary: prev s rule: less_induct)
    case less
    show ?case
    proof (cases s)
      case (Cons c s')
      have e: "ends word r (prev, c # s') = ends word' r' (prev, c # s')"
        using ends_agree [where prev = prev and s = s, OF assms(1,2)] less.prems Cons by simp
      have "matches_from word r q t = matches_from word' r' q t"
        if "(q, t) \<in> set (ends word' r' (prev, c # s'))" "length t \<le> length s'" for q t
        using that less Cons ends_in [of q t word' r' prev s A] by auto
      moreover have "matches_from word r (Some c) s' = matches_from word' r' (Some c) s'" using less Cons by auto
      ultimately show ?thesis unfolding Cons matches_from.simps e by (auto split: list.split)
    qed simp
  qed
  then show ?thesis using assms(3) by (simp add: count_matches_def)
qed

end
