(* ===== verification/Addresses.thy ===== *)
theory Addresses
  imports OutputChecks
begin

text \<open>
  Text that names a host: the part of Python's \<open>urllib.parse\<close> and \<open>ipaddress\<close> with which the program
  (\<open>ai/ssrf_validator.py\<close>, \<open>billing/stripe_ips.py\<close>) finds the host of an address and tells numbers from names.
\<close>

section \<open>Pieces of text\<close>

definition cut_at :: "('a \<Rightarrow> bool) \<Rightarrow> 'a list \<Rightarrow> 'a list" where
  "cut_at p s = takeWhile (\<lambda>c. \<not> p c) s"

definition after_first :: "char \<Rightarrow> string \<Rightarrow> string" where
  "after_first c s = drop 1 (dropWhile (\<lambda>d. d \<noteq> c) s)"

definition after_last :: "char \<Rightarrow> string \<Rightarrow> string" where
  "after_last c s = rev (takeWhile (\<lambda>d. d \<noteq> c) (rev s))"

definition starts_with :: "'a list \<Rightarrow> 'a list \<Rightarrow> bool" where
  "starts_with p s \<longleftrightarrow> take (length p) s = p"

definition split_on :: "char \<Rightarrow> string \<Rightarrow> string list" where
  \<comment> \<open>\<open>s.split(c)\<close>\<close>
  "split_on c s = foldr (\<lambda>d acc. if d = c then [] # acc else (d # hd acc) # tl acc) s [[]]"

definition hostname :: "string \<Rightarrow> string option" where
  \<comment> \<open>\<open>urlparse(url).hostname\<close> of an \<open>http\<close> or \<open>https\<close> address: tabs and line ends are dropped; user, port and
      brackets are cut off; letters are lower case up to a zone\<close>
  "hostname url =
     (let clean = filter (\<lambda>c. c \<notin> set [CHR 0x09, CHR 0x0A, CHR 0x0D]) url;
          netloc = cut_at (\<lambda>c. c \<in> set ''/?#'') (drop 2 (after_first (CHR '':'') clean));
          hostinfo = after_last (CHR ''@'') netloc;
          host = (if CHR ''['' \<in> set hostinfo
                  then cut_at (\<lambda>c. c = CHR '']'') (after_first (CHR ''['') hostinfo)
                  else cut_at (\<lambda>c. c = CHR '':'') hostinfo);
          name = cut_at (\<lambda>c. c = CHR ''%'') host
      in if host = [] then None else Some (lower name @ drop (length name) host))"

definition is_ipv4 :: "string \<Rightarrow> bool" where
  "is_ipv4 s =
     (let octets = split_on (CHR ''.'') s in
        length octets = 4 \<and>
        list_all (\<lambda>o1. o1 \<noteq> [] \<and> list_all is_digit o1 \<and> length o1 \<le> 3 \<and> (hd o1 = CHR ''0'' \<longrightarrow> o1 = ''0'') \<and>
          foldl (\<lambda>n c. 10 * n + digit_val c) 0 o1 \<le> 255) octets)"

definition is_hextet :: "string \<Rightarrow> bool" where
  "is_hextet s \<longleftrightarrow> s \<noteq> [] \<and> length s \<le> 4 \<and> list_all (\<lambda>c. c \<in> set ''0123456789abcdefABCDEF'') s"

definition is_ipv6 :: "string \<Rightarrow> bool" where
  "is_ipv6 s =
     (let zone_ok = (CHR ''%'' \<in> set s \<longrightarrow> after_first (CHR ''%'') s \<noteq> [] \<and> CHR ''%'' \<notin> set (after_first (CHR ''%'') s));
          parts0 = split_on (CHR '':'') (cut_at (\<lambda>c. c = CHR ''%'') s);
          v4 = CHR ''.'' \<in> set (last parts0);
          parts = (if v4 then butlast parts0 @ [''0'', ''0''] else parts0);
          gaps = filter (\<lambda>i. parts ! i = []) [1..<length parts - 1];
          n = length parts
      in zone_ok \<and> 3 \<le> length parts0 \<and> (v4 \<longrightarrow> is_ipv4 (last parts0)) \<and> n \<le> 9 \<and> length gaps \<le> 1 \<and>
         (case gaps of
            [] \<Rightarrow> n = 8 \<and> list_all is_hextet parts
          | g # _ \<Rightarrow>
              let hi = (if hd parts = [] then g - 1 else g); lo = (if last parts = [] then n - g - 2 else n - g - 1) in
              (hd parts = [] \<longrightarrow> hi = 0) \<and> (last parts = [] \<longrightarrow> lo = 0) \<and> hi + lo \<le> 7 \<and>
              list_all is_hextet (take hi parts) \<and> list_all is_hextet (drop (n - lo) parts)))"

end
