(* ===== verification/AIAudit.thy ===== *)
theory AIAudit
  imports TaskQueue
begin

text \<open>
  The audit log of AI requests, \<open>src/backend/app/ai/audit.py\<close>: writing signed entries, verifying them, the failure
  rate and the retention. HMAC-SHA256, SHA-256 over canonical JSON and the ISO text of a time are parameters.
\<close>

section \<open>Entries\<close>

record audit_entry =
  ae_id :: uuid
  ae_company_id :: "uuid option"
  ae_user_id :: "string option"
  ae_job_id :: "uuid option"
  ae_request_type :: string
  ae_model_used :: string
  ae_latency_ms :: pyfloat
  ae_success :: bool
  ae_circuit_state :: string
  ae_error_message :: "string option"
  ae_queue_pressure :: "int option"
  ae_created_at :: micros
  ae_event_signature :: "string option"
  ae_payload_hash :: "string option"

record audit_crypto =
  ac_key :: string
  ac_mac :: "string \<Rightarrow> string \<Rightarrow> string"
  ac_hash :: "(string \<times> pyval) list \<Rightarrow> string"
  ac_iso :: "micros \<Rightarrow> string"

definition sign_audit_event :: "audit_crypto \<Rightarrow> uuid \<Rightarrow> string \<Rightarrow> string \<Rightarrow> string \<Rightarrow> string" where
  "sign_audit_event ac event_id time src payload_hash =
     (if ac_key ac = [] then []
      else ac_mac ac (ac_key ac) (str_uuid event_id @ ''|'' @ time @ ''|'' @ src @ ''|'' @ payload_hash))"

definition audit_payload :: "pyval \<Rightarrow> string option \<Rightarrow> string \<Rightarrow> bool \<Rightarrow> (string \<times> pyval) list" where
  "audit_payload company user request_type success =
     [(''company_id'', company), (''user_id'', opt_str user), (''request_type'', VStr request_type), (''success'', VBool success)]"

definition text_or_none :: "string option \<Rightarrow> string option" where
  \<comment> \<open>\<open>error_message[:1000] if error_message else None\<close>\<close>
  "text_or_none msg = (case msg of None \<Rightarrow> None | Some m \<Rightarrow> if m = [] then None else Some (take 1000 m))"

record audit_env =
  xe_crypto :: audit_crypto
  xe_id :: uuid
  xe_signed_at :: micros
  xe_flushed_at :: micros
  xe_db_fails :: bool

record audit_caller =
  cl_company_id :: "uuid option"
  cl_user_id :: "string option"
  cl_job_id :: "uuid option"

definition audit_log ::
    "audit_env \<Rightarrow> string \<Rightarrow> pyfloat \<Rightarrow> bool \<Rightarrow> audit_caller \<Rightarrow> string \<Rightarrow> string \<Rightarrow> string option \<Rightarrow> int option \<Rightarrow>
     audit_entry list \<Rightarrow> audit_entry list" where
  \<comment> \<open>\<open>xe_signed_at\<close> is the clock when the entry is signed, \<open>xe_flushed_at\<close> when the column default is computed\<close>
  "audit_log env request_type latency success who model circuit err pressure rows =
     (if xe_db_fails env then rows
      else
        let ac = xe_crypto env;
            payload = audit_payload (case cl_company_id who of None \<Rightarrow> VNone | Some c \<Rightarrow> VStr (str_uuid c))
                        (cl_user_id who) request_type success;
            h = ac_hash ac payload;
            sig = sign_audit_event ac (xe_id env) (ac_iso ac (xe_signed_at env)) ''ai_gateway'' h
        in rows @ [\<lparr>ae_id = xe_id env, ae_company_id = cl_company_id who, ae_user_id = cl_user_id who, ae_job_id = cl_job_id who,
             ae_request_type = request_type, ae_model_used = model, ae_latency_ms = py_round 2 latency, ae_success = success,
             ae_circuit_state = circuit, ae_error_message = text_or_none err, ae_queue_pressure = pressure,
             ae_created_at = xe_flushed_at env, ae_event_signature = (if sig = [] then None else Some sig),
             ae_payload_hash = Some h\<rparr>])"

definition verify_signature :: "audit_crypto \<Rightarrow> audit_entry \<Rightarrow> bool" where
  "verify_signature ac e =
     (if \<not> truthy_str (ae_event_signature e) \<or> \<not> truthy_str (ae_payload_hash e) then True
      else
        let company = VStr (case ae_company_id e of None \<Rightarrow> ''None'' | Some c \<Rightarrow> str_uuid c);
            expected_hash = ac_hash ac (audit_payload company (ae_user_id e) (ae_request_type e) (ae_success e))
        in if Some expected_hash \<noteq> ae_payload_hash e then False
           else Some (sign_audit_event ac (ae_id e) (ac_iso ac (ae_created_at e)) ''ai_gateway'' expected_hash) = ae_event_signature e)"

record failure_stats =
  fs_total_requests :: nat
  fs_failures :: nat
  fs_failure_rate :: pyfloat

definition get_failure_rate :: "micros \<Rightarrow> int \<Rightarrow> audit_entry list \<Rightarrow> failure_stats" where
  "get_failure_rate now window rows =
     (let cutoff = now - minutes window;
          n = length (filter (\<lambda>e. cutoff \<le> ae_created_at e) rows);
          f = length (filter (\<lambda>e. cutoff \<le> ae_created_at e \<and> \<not> ae_success e) rows)
      in \<lparr>fs_total_requests = n, fs_failures = f,
          fs_failure_rate = (if 0 < n then py_round 4 (fdiv (of_nat f) (of_nat n)) else 0)\<rparr>)"

definition cleanup_old_audit_logs :: "micros \<Rightarrow> bool \<Rightarrow> audit_entry list \<Rightarrow> audit_entry list" where
  "cleanup_old_audit_logs now db_fails rows =
     (if db_fails then rows else filter (\<lambda>e. \<not> ae_created_at e < now - hours (24 * 90)) rows)"

section \<open>Verification\<close>

definition sound_crypto :: "audit_crypto \<Rightarrow> bool" where
  \<comment> \<open>of HMAC, SHA-256 and \<open>isoformat\<close>: no collisions, no empty results\<close>
  "sound_crypto ac \<longleftrightarrow>
     (\<forall>k m m'. ac_mac ac k m = ac_mac ac k m' \<longrightarrow> m = m') \<and> (\<forall>k m. ac_mac ac k m \<noteq> []) \<and>
     (\<forall>c c' u r b. c \<in> insert VNone (range VStr) \<and> c' \<in> insert VNone (range VStr) \<and>
        ac_hash ac (audit_payload c u r b) = ac_hash ac (audit_payload c' u r b) \<longrightarrow> c = c') \<and>
     (\<forall>p. ac_hash ac p \<noteq> []) \<and> inj (ac_iso ac)"

text \<open>
  Genuine audit entries are reported as forged: with a signing key, the entry that was just
  written verifies only if a company was given and the clock read the same microsecond when the entry was
  signed and when the column default of its time was computed, because the signature covers the first
  reading and the verification takes the second. Without a key every entry verifies.
\<close>

theorem audit_entry_verifies:
  assumes "sound_crypto (xe_crypto env)" "\<not> xe_db_fails env"
  shows "verify_signature (xe_crypto env) (last (audit_log env rt latency ok who model circuit err pressure rows)) \<longleftrightarrow>
    ac_key (xe_crypto env) = [] \<or> cl_company_id who \<noteq> None \<and> xe_signed_at env = xe_flushed_at env"
proof -
  let ?ac = "xe_crypto env"
  have s: "\<And>k m m'. ac_mac ?ac k m = ac_mac ?ac k m' \<longleftrightarrow> m = m'" "\<And>k m. ac_mac ?ac k m \<noteq> []"
    "\<And>p. ac_hash ?ac p \<noteq> []" "\<And>t t'. ac_iso ?ac t = ac_iso ?ac t' \<longleftrightarrow> t = t'"
    using assms(1) by (auto simp: sound_crypto_def inj_eq)
  have h: "ac_hash ?ac (audit_payload VNone u r b) \<noteq> ac_hash ?ac (audit_payload (VStr t) u r b)" for t u r b
    using assms(1) unfolding sound_crypto_def by (metis insertCI pyval.distinct(7) rangeI)
  show ?thesis
    using assms(2) h h [symmetric]
    by (cases "cl_company_id who") (auto simp: audit_log_def verify_signature_def sign_audit_event_def Let_def s)
qed

definition sample_crypto :: audit_crypto where
  "sample_crypto = \<lparr>ac_key = ''k'', ac_mac = \<lambda>k m. CHR ''m'' # m,
     ac_hash = (\<lambda>p. case p of (_, VStr c) # _ \<Rightarrow> CHR ''h'' # c | _ \<Rightarrow> ''n''),
     ac_iso = \<lambda>t. if 0 \<le> t then replicate (nat t) CHR ''a'' else replicate (nat (- t)) CHR ''b''\<rparr>"

lemma sample_crypto_sound: "sound_crypto sample_crypto"
proof -
  have "inj (ac_iso sample_crypto)"
  proof (rule injI)
    fix t t' :: int assume "ac_iso sample_crypto t = ac_iso sample_crypto t'"
    then show "t = t'"
      by (auto simp: sample_crypto_def replicate_eq_replicate split: if_splits)
  qed
  then show ?thesis by (auto simp: sound_crypto_def sample_crypto_def audit_payload_def split: list.split pyval.split)
qed

definition sample_audit_env :: "micros \<Rightarrow> micros \<Rightarrow> audit_env" where
  "sample_audit_env t t' = \<lparr>xe_crypto = sample_crypto, xe_id = 1, xe_signed_at = t, xe_flushed_at = t', xe_db_fails = False\<rparr>"

theorem audit_entry_verifies_witness:
  "\<not> verify_signature sample_crypto (last (audit_log (sample_audit_env 5 6) ''text'' 12 True
      \<lparr>cl_company_id = Some 7, cl_user_id = None, cl_job_id = None\<rparr> ''m'' ''closed'' None None []))"
  using audit_entry_verifies [of "sample_audit_env 5 6"] sample_crypto_sound
  by (simp add: sample_audit_env_def) (simp add: sample_crypto_def)

end
