(* ===== verification/Gateway.thy ===== *)
theory Gateway
  imports AIServices AIAudit CircuitBreaker Concurrency
begin

text \<open>
  The AI gateway, \<open>class AIGateway\<close> of \<open>src/backend/app/ai/gateway.py\<close>: it sends the audio, the images and the text of a
  job through circuit breakers and concurrency limiters to the model services, replaces what fails by
  fallbacks, and sanitizes what goes in and what comes out. What other requests of the process and other
  processes do while a model works is \<open>re_meanwhile\<close>. A request that has to wait for a free slot is \<open>None\<close>.
  Traces and log messages are left out.
\<close>

section \<open>State\<close>

datatype request_type = Audio | Vision | Text

fun request_value :: "request_type \<Rightarrow> string" where
  "request_value Audio = ''audio''"
| "request_value Vision = ''vision''"
| "request_value Text = ''text''"

fun circuit_value :: "circuit_state \<Rightarrow> string" where
  "circuit_value CLOSED = ''closed''"
| "circuit_value OPEN = ''open''"
| "circuit_value HALF_OPEN = ''half_open''"

type_synonym circuit = "breaker_redis \<times> breaker"
type_synonym slots = "slot_counter \<times> limiter"

record gateway =
  gw_llm_circuit :: circuit
  gw_vision_circuit :: circuit
  gw_whisper_circuit :: circuit
  gw_llm_slots :: slots
  gw_whisper_slots :: slots
  gw_audit :: "audit_entry list"

definition new_gateway :: "int \<Rightarrow> (breaker_redis \<times> breaker_redis \<times> breaker_redis) \<Rightarrow> (slot_counter \<times> slot_counter) \<Rightarrow>
    audit_entry list \<Rightarrow> gateway" where
  \<comment> \<open>\<open>AIGateway()\<close> in a new process: \<open>WHISPER_MAX_CONCURRENT\<close> and what Redis holds\<close>
  "new_gateway whisper_max = (\<lambda>(r1, r2, r3) (c1, c2) rows.
     \<lparr>gw_llm_circuit = (r1, new_breaker 3 120 1 600 3), gw_vision_circuit = (r2, new_breaker 3 120 1 600 3),
      gw_whisper_circuit = (r3, new_breaker 3 120 1 600 3), gw_llm_slots = (c1, new_limiter 3),
      gw_whisper_slots = (c2, new_limiter whisper_max), gw_audit = rows\<rparr>)"

fun circuit_of :: "request_type \<Rightarrow> gateway \<Rightarrow> circuit" where
  "circuit_of Audio g = gw_whisper_circuit g"
| "circuit_of Vision g = gw_vision_circuit g"
| "circuit_of Text g = gw_llm_circuit g"

fun with_circuit :: "request_type \<Rightarrow> circuit \<Rightarrow> gateway \<Rightarrow> gateway" where
  "with_circuit Audio c g = g\<lparr>gw_whisper_circuit := c\<rparr>"
| "with_circuit Vision c g = g\<lparr>gw_vision_circuit := c\<rparr>"
| "with_circuit Text c g = g\<lparr>gw_llm_circuit := c\<rparr>"

fun slots_of :: "request_type \<Rightarrow> gateway \<Rightarrow> slots" where
  "slots_of Audio g = gw_whisper_slots g"
| "slots_of _ g = gw_llm_slots g"

fun with_slots :: "request_type \<Rightarrow> slots \<Rightarrow> gateway \<Rightarrow> gateway" where
  "with_slots Audio s g = g\<lparr>gw_whisper_slots := s\<rparr>"
| "with_slots _ s g = g\<lparr>gw_llm_slots := s\<rparr>"

definition queue_pressure :: "gateway \<Rightarrow> int" where
  "queue_pressure g = active_count (snd (gw_llm_slots g)) + active_count (snd (gw_whisper_slots g))"

section \<open>One request\<close>

record route_env =
  re_ask :: pyfloat
  re_start :: pyfloat
  re_elapsed :: pyfloat
  re_end :: pyfloat
  re_fail :: pyfloat
  re_wall :: int
  re_request_timeout :: pyfloat
  re_meanwhile :: "gateway \<Rightarrow> gateway"
  re_audit :: audit_env

definition call_timeout :: "request_type \<Rightarrow> pyfloat \<Rightarrow> pyfloat" where
  "call_timeout rt request_timeout =
     (case rt of Audio \<Rightarrow> min 120 request_timeout | Vision \<Rightarrow> min request_timeout 180 | Text \<Rightarrow> request_timeout)"

datatype 'a outcome = Returned 'a | Raised string | Call_timeout

definition call_outcome :: "route_env \<Rightarrow> request_type \<Rightarrow> string + 'a \<Rightarrow> 'a outcome" where
  \<comment> \<open>\<open>asyncio.wait_for(func(...), timeout)\<close>: the result of the call, unless it takes longer\<close>
  "call_outcome env rt result =
     (if call_timeout rt (re_request_timeout env) < re_elapsed env then Call_timeout
      else case result of Inr v \<Rightarrow> Returned v | Inl e \<Rightarrow> Raised e)"

definition log_request ::
    "route_env \<Rightarrow> request_type \<Rightarrow> pyfloat \<Rightarrow> bool \<Rightarrow> audit_caller \<Rightarrow> string \<Rightarrow> string \<Rightarrow> string option \<Rightarrow> int option \<Rightarrow>
     gateway \<Rightarrow> gateway" where
  "log_request env rt latency ok who model circuit err pressure g =
     g\<lparr>gw_audit := audit_log (re_audit env) (request_value rt) latency ok who model circuit err pressure (gw_audit g)\<rparr>"

definition record_outcome :: "route_env \<Rightarrow> request_type \<Rightarrow> bool \<Rightarrow> gateway \<Rightarrow> gateway" where
  "record_outcome env rt ok g =
     (case circuit_of rt g of (redis, b) \<Rightarrow>
        let (b', redis') = (if ok then record_success redis b else record_failure (re_fail env) (re_wall env) redis b)
        in with_circuit rt (redis', b') g)"

definition route ::
    "route_env \<Rightarrow> request_type \<Rightarrow> string + 'a \<Rightarrow> (pyfloat \<Rightarrow> string) \<Rightarrow> string \<Rightarrow> 'a \<Rightarrow> audit_caller \<Rightarrow> gateway \<Rightarrow>
     ('a \<times> gateway) option" where
  \<comment> \<open>\<open>timeout_text\<close>: the text of a timeout of so many seconds\<close>
  "route env rt result timeout_text model fallback who g =
     (case circuit_of rt g of (redis, b) \<Rightarrow>
        case is_available (re_ask env) redis b of (ok, b1) \<Rightarrow>
          let g1 = with_circuit rt (redis, b1) g; state = circuit_value (cb_state b1) in
          if \<not> ok
          then Some (fallback, log_request env rt 0 False who model state (Some ''circuit breaker open'') None g1)
          else case aenter (slots_of rt g1) of
            None \<Rightarrow> None
          | Some s1 \<Rightarrow>
              let g2 = re_meanwhile env (with_slots rt s1 g1);
                  latency = fmul (fsub (re_end env) (re_start env)) 1000;
                  answer = call_outcome env rt result;
                  g3 = record_outcome env rt (case answer of Returned _ \<Rightarrow> True | _ \<Rightarrow> False) g2;
                  err = (case answer of Returned _ \<Rightarrow> None | Raised e \<Rightarrow> Some e
                         | Call_timeout \<Rightarrow> Some (timeout_text (call_timeout rt (re_request_timeout env))));
                  g4 = log_request env rt latency (err = None) who model state err (Some (queue_pressure g3)) g3
              in Some (case answer of Returned v \<Rightarrow> v | _ \<Rightarrow> fallback, with_slots rt (aexit (slots_of rt g4)) g4))"

section \<open>A job\<close>

record job_data =
  jd_audio_url :: "string option"
  jd_image_urls :: "string list option option"  \<comment> \<open>the key is missing, or holds \<open>None\<close> or a list\<close>
  jd_description :: string
  jd_trade_type :: string

record ai_calls =
  call_audio :: "string \<Rightarrow> string + string"
  call_vision :: "string list \<Rightarrow> string + string"
  call_text :: "codes \<Rightarrow> codes \<Rightarrow> codes \<Rightarrow> codes \<Rightarrow> string + ai_result"

record job_env =
  je_audio :: route_env
  je_vision :: route_env
  je_text :: route_env
  je_max_images :: nat
  je_unicode :: unicode
  je_timeout_text :: "pyfloat \<Rightarrow> string"
  je_whisper_name :: string
  je_model_name :: string

definition llm_fallback :: ai_result where
  "llm_fallback =
     \<lparr>ar_problem_type = ''ai_unavailable'', ar_summary = ''AI processing is currently unavailable. Manual review required.'',
      ar_recommended_fix = ''Please review the job manually or try again later.'', ar_materials = [], ar_estimated_hours = 0,
      ar_labor_cost_estimate = 0, ar_permit_required = False, ar_confidence = 0, ar_is_fallback = True,
      ar_partial_failure = False\<rparr>"

definition optional_route :: "bool \<Rightarrow> (gateway \<Rightarrow> (string \<times> gateway) option) \<Rightarrow> gateway \<Rightarrow> (string \<times> gateway) option" where
  \<comment> \<open>a step that only runs if its input is there\<close>
  "optional_route wanted step g = (if wanted then step g else Some ([], g))"

definition finish_job :: "unicode \<Rightarrow> bool \<Rightarrow> ai_result \<Rightarrow> ai_result" where
  \<comment> \<open>the flag: a step before the text step failed\<close>
  "finish_job u failed output =
     sanitize_and_dump (sanitize_output_str u)
       (if failed \<or> ar_is_fallback output then output\<lparr>ar_partial_failure := True\<rparr> else output)"

definition process_job ::
    "job_env \<Rightarrow> ai_calls \<Rightarrow> job_data \<Rightarrow> audit_caller \<Rightarrow> gateway \<Rightarrow> ((pyerr + ai_result) \<times> gateway) option" where
  "process_job env ai jd who g =
     (let u = je_unicode env; audio = truthy_str (jd_audio_url jd) in
      case optional_route audio (route (je_audio env) Audio (call_audio ai (the (jd_audio_url jd))) (je_timeout_text env)
             (je_whisper_name env) [] who) g of
        None \<Rightarrow> None
      | Some (transcript, g1) \<Rightarrow>
          if jd_image_urls jd = Some None then Some (Inl TypeError, g1)
          else
            let urls = take (je_max_images env) (case jd_image_urls jd of Some (Some us) \<Rightarrow> us | _ \<Rightarrow> []) in
            case optional_route (urls \<noteq> []) (route (je_vision env) Vision (call_vision ai urls) (je_timeout_text env)
                   (je_model_name env) [] who) g1 of
              None \<Rightarrow> None
            | Some (vision, g2) \<Rightarrow>
                let input = (\<lambda>s. sanitize_input_text u (codes_of s)) in
                case route (je_text env) Text
                       (call_text ai (input transcript) (input vision) (input (jd_description jd)) (input (jd_trade_type jd)))
                       (je_timeout_text env) (je_model_name env) llm_fallback who g2 of
                  None \<Rightarrow> None
                | Some (output, g3) \<Rightarrow>
                    Some (Inr (finish_job u (audio \<and> transcript = [] \<or> urls \<noteq> [] \<and> vision = []) output), g3))"

definition services :: "ai_settings \<Rightarrow> model_servers \<Rightarrow> ai_calls" where
  \<comment> \<open>the calls as the orchestrator makes them; the services catch every exception\<close>
  "services cfg sv =
     \<lparr>call_audio = \<lambda>url. Inr (transcribe_audio cfg sv url),
      call_vision = \<lambda>urls. Inr (analyze_images cfg sv urls),
      call_text = \<lambda>transcript vision description trade. Inr (generate_structured_output cfg sv transcript vision description trade)\<rparr>"

section \<open>Sequences of jobs\<close>

fun process_jobs :: "(job_env \<times> ai_calls \<times> job_data \<times> audit_caller) list \<Rightarrow> gateway \<Rightarrow>
    ((pyerr + ai_result) list \<times> gateway) option" where
  "process_jobs [] g = Some ([], g)"
| "process_jobs ((env, ai, jd, who) # jobs) g =
     (case process_job env ai jd who g of
        None \<Rightarrow> None
      | Some (out, g1) \<Rightarrow> map_option (\<lambda>(outs, g2). (out # outs, g2)) (process_jobs jobs g1))"

lemma gateway_parts [simp]:
  "circuit_of rt (with_slots rt' s g) = circuit_of rt g" "slots_of rt (with_circuit rt' c g) = slots_of rt g"
  "circuit_of rt (with_circuit rt' c g) = (if rt = rt' then c else circuit_of rt g)"
  "circuit_of rt (log_request env rt' l ok who m st err p g) = circuit_of rt g"
  "slots_of rt (log_request env rt' l ok who m st err p g) = slots_of rt g"
  "slots_of rt (with_slots rt s g) = s"
  by (cases rt; cases rt'; simp add: log_request_def)+

lemma slots_of_with: "slots_of rt (with_slots rt' s g) = (if (rt = Audio) = (rt' = Audio) then s else slots_of rt g)"
  by (cases rt; cases rt'; simp)

lemma slots_of_record [simp]: "slots_of rt (record_outcome env rt' ok g) = slots_of rt g"
  by (simp add: record_outcome_def Let_def case_prod_beta)

section \<open>Fast failures\<close>

definition closed_circuit :: "circuit \<Rightarrow> bool" where
  "closed_circuit = (\<lambda>(redis, b). cb_state b = CLOSED \<and> failure_count b = 0 \<and>
     (case redis of Redis_hash h \<Rightarrow> \<not> h_open h | _ \<Rightarrow> True))"

definition calm :: "gateway \<Rightarrow> bool" where
  \<comment> \<open>no circuit has counted a failure\<close>
  "calm g \<longleftrightarrow> (\<forall>rt \<in> {Audio, Vision, Text}. closed_circuit (circuit_of rt g))"

definition free_slots :: "gateway \<Rightarrow> bool" where
  "free_slots g \<longleftrightarrow> 0 < permits (snd (gw_llm_slots g)) \<and> 0 < permits (snd (gw_whisper_slots g))"

definition in_time :: "route_env \<Rightarrow> request_type \<Rightarrow> bool" where
  "in_time env rt \<longleftrightarrow> re_elapsed env \<le> call_timeout rt (re_request_timeout env)"

definition undisturbed :: "route_env \<Rightarrow> bool" where
  \<comment> \<open>what happens meanwhile leaves the circuits calm and gives back the slots that it takes\<close>
  "undisturbed env \<longleftrightarrow> (\<forall>g. calm g \<longrightarrow> calm (re_meanwhile env g) \<and>
     permits (snd (gw_llm_slots g)) \<le> permits (snd (gw_llm_slots (re_meanwhile env g))) \<and>
     permits (snd (gw_whisper_slots g)) \<le> permits (snd (gw_whisper_slots (re_meanwhile env g))))"

lemma calm_circuit: "calm g \<Longrightarrow> closed_circuit (circuit_of rt g)"
  by (cases rt) (simp_all add: calm_def)

lemma closed_is_available: "closed_circuit (redis, b) \<Longrightarrow> is_available now redis b = (True, b)"
  by (auto simp: closed_circuit_def is_available_def local_available_def split: breaker_redis.split)

lemma success_closed: "closed_circuit (redis, b) \<Longrightarrow> closed_circuit (snd (record_success redis b), fst (record_success redis b))"
  by (auto simp: closed_circuit_def record_success_def Let_def split: breaker_redis.splits)

lemma aenter_free: "0 < permits l \<Longrightarrow> \<exists>r' l'. aenter (r, l) = Some (r', l') \<and> permits l - 1 \<le> permits l'"
  by (cases r) (auto simp: aenter_def acquire_def Let_def)

lemma permits_aexit: "permits (snd (aexit s)) = permits (snd s) + 1"
  by (cases s) (simp add: aexit_def release_def Let_def)

lemma calm_with_slots [simp]: "calm (with_slots rt s g) = calm g"
  by (simp add: calm_def)

lemma calm_log [simp]: "calm (log_request env rt l ok who m st err p g) = calm g"
  by (simp add: calm_def)

lemma calm_record: "calm g \<Longrightarrow> calm (record_outcome env rt True g)"
proof -
  assume c: "calm g"
  obtain redis b where rb: "circuit_of rt g = (redis, b)" by (cases "circuit_of rt g")
  have "closed_circuit (snd (record_success redis b), fst (record_success redis b))"
    using success_closed calm_circuit [OF c, of rt] rb by simp
  then show ?thesis using c by (auto simp: calm_def record_outcome_def rb Let_def case_prod_beta)
qed

definition slot_permits :: "bool \<Rightarrow> gateway \<Rightarrow> int" where
  "slot_permits audio g = permits (snd (if audio then gw_whisper_slots g else gw_llm_slots g))"

lemma slot_permits_simps [simp]:
  "slot_permits a (with_circuit rt c g) = slot_permits a g"
  "slot_permits a (log_request env rt l ok who m st err p g) = slot_permits a g"
  "slot_permits a (record_outcome env rt ok g) = slot_permits a g"
  "slot_permits a (with_slots rt s g) = (if a = (rt = Audio) then permits (snd s) else slot_permits a g)"
  "permits (snd (slots_of rt g)) = slot_permits (rt = Audio) g"
  by (cases rt; auto simp: slot_permits_def log_request_def record_outcome_def Let_def case_prod_beta)+

lemma free_slots_permits: "free_slots g \<longleftrightarrow> 0 < slot_permits True g \<and> 0 < slot_permits False g"
  by (auto simp: free_slots_def slot_permits_def)

lemma route_calm:
  assumes "calm g" "free_slots g" "in_time env rt" "undisturbed env"
  shows "\<exists>g'. route env rt (Inr v) tt m fb who g = Some (v, g') \<and> calm g' \<and> free_slots g'"
proof -
  obtain redis b where rb: "circuit_of rt g = (redis, b)" by (cases "circuit_of rt g")
  then have ok: "is_available (re_ask env) redis b = (True, b)"
    using calm_circuit [OF assms(1), of rt] closed_is_available by simp
  have g1: "with_circuit rt (redis, b) g = g" using rb by (cases rt) auto
  obtain s0 l0 where s0: "slots_of rt g = (s0, l0)" by (cases "slots_of rt g")
  have p0: "permits l0 = slot_permits (rt = Audio) g" using s0 slot_permits_simps(5) [of rt g] by simp
  then have "0 < permits l0" using assms(2) free_slots_permits by (cases "rt = Audio") auto
  then obtain r1 l1 where s1: "aenter (s0, l0) = Some (r1, l1)" "permits l0 - 1 \<le> permits l1" using aenter_free by blast
  let ?h = "with_slots rt (r1, l1) g"
  let ?g2 = "re_meanwhile env ?h"
  have c2: "calm ?g2" and low: "slot_permits a ?h \<le> slot_permits a ?g2" for a
    using assms(1,4) by (auto simp: undisturbed_def slot_permits_def)
  have out: "call_outcome env rt (Inr v) = Returned v" using assms(3) by (simp add: call_outcome_def in_time_def)
  let ?g3 = "record_outcome env rt True ?g2"
  let ?g4 = "log_request env rt (fmul (fsub (re_end env) (re_start env)) 1000) True who m (circuit_value (cb_state b)) None
    (Some (queue_pressure ?g3)) ?g3"
  let ?g' = "with_slots rt (aexit (slots_of rt ?g4)) ?g4"
  have "route env rt (Inr v) tt m fb who g = Some (v, ?g')"
    by (simp add: route_def rb ok g1 s0 s1(1) out Let_def)
  moreover have "calm ?g'" using calm_record [OF c2] by simp
  moreover have "free_slots ?g'"
  proof -
    have "permits (snd (aexit (slots_of rt ?g4))) = slot_permits (rt = Audio) ?g2 + 1" by (simp add: permits_aexit)
    moreover have "slot_permits a ?h = (if a = (rt = Audio) then permits l1 else slot_permits a g)" for a by simp
    ultimately show ?thesis
      unfolding free_slots_permits slot_permits_simps(1-4)
      using low [of True] low [of False] s1(2) p0 assms(2) unfolding free_slots_permits by (auto split: if_splits)
  qed
  ultimately show ?thesis by blast
qed

definition job_in_time :: "job_env \<Rightarrow> bool" where
  "job_in_time env \<longleftrightarrow> in_time (je_audio env) Audio \<and> in_time (je_vision env) Vision \<and> in_time (je_text env) Text \<and>
     undisturbed (je_audio env) \<and> undisturbed (je_vision env) \<and> undisturbed (je_text env)"

lemma optional_route_calm:
  assumes "calm g" "free_slots g" "in_time env rt" "undisturbed env"
  shows "\<exists>v' g'. optional_route wanted (route env rt (Inr v) tt m fb who) g = Some (v', g') \<and> calm g' \<and> free_slots g'"
  using route_calm [OF assms, of v tt m fb who] assms by (cases wanted) (auto simp: optional_route_def)

lemma process_job_calm:
  assumes "calm g" "free_slots g" "job_in_time env"
  shows "\<exists>out g'. process_job env (services cfg sv) jd who g = Some (out, g') \<and> calm g' \<and> free_slots g'"
proof -
  let ?ai = "services cfg sv"
  note t = assms(3) [unfolded job_in_time_def]
  obtain transcript g1 where 1: "optional_route (truthy_str (jd_audio_url jd))
      (route (je_audio env) Audio (call_audio ?ai (the (jd_audio_url jd))) (je_timeout_text env) (je_whisper_name env) [] who) g =
        Some (transcript, g1)" "calm g1" "free_slots g1"
    using optional_route_calm [OF assms(1,2), of "je_audio env" Audio] t unfolding services_def ai_calls.simps by blast
  let ?urls = "take (je_max_images env) (case jd_image_urls jd of Some (Some us) \<Rightarrow> us | _ \<Rightarrow> [])"
  obtain vision g2 where 2: "optional_route (?urls \<noteq> [])
      (route (je_vision env) Vision (call_vision ?ai ?urls) (je_timeout_text env) (je_model_name env) [] who) g1 =
        Some (vision, g2)" "calm g2" "free_slots g2"
    using optional_route_calm [OF 1(2,3), of "je_vision env" Vision] t unfolding services_def ai_calls.simps by blast
  let ?in = "\<lambda>s. sanitize_input_text (je_unicode env) (codes_of s)"
  obtain out g3 where "route (je_text env) Text
      (call_text ?ai (?in transcript) (?in vision) (?in (jd_description jd)) (?in (jd_trade_type jd)))
      (je_timeout_text env) (je_model_name env) llm_fallback who g2 = Some (out, g3)" "calm g3" "free_slots g3"
    using route_calm [where 'a = ai_result and rt = Text and env = "je_text env", OF 2(2,3)] t unfolding services_def ai_calls.simps by blast
  with 1 2 show ?thesis unfolding process_job_def Let_def by auto
qed

text \<open>
  C22. Model servers that fail at once never open a circuit: the services turn every error into an empty or a default
  answer, which the gateway records as a success. Whatever the servers answer to any sequence of jobs, as
  long as no call runs into the gateway's timeout, no failure is counted, all circuits stay closed, and
  every job is sent to the servers again.
\<close>

theorem failing_servers_never_trip:
  assumes "calm g" "free_slots g" "list_all (\<lambda>(env, sv, jd, who). job_in_time env) jobs"
  shows "\<exists>outs g'. process_jobs (map (\<lambda>(env, sv, jd, who). (env, services cfg sv, jd, who)) jobs) g = Some (outs, g') \<and>
    length outs = length jobs \<and> calm g' \<and>
    (\<forall>rt now. fst (is_available now (fst (circuit_of rt g')) (snd (circuit_of rt g'))))"
proof -
  have "\<exists>outs g'. process_jobs (map (\<lambda>(env, sv, jd, who). (env, services cfg sv, jd, who)) jobs) g = Some (outs, g') \<and>
      length outs = length jobs \<and> calm g'"
    using assms
  proof (induction jobs arbitrary: g)
    case (Cons job jobs)
    obtain env sv jd who where job: "job = (env, sv, jd, who)" by (cases job)
    have "job_in_time env" using Cons.prems(3) job by simp
    then obtain out g1 where "process_job env (services cfg sv) jd who g = Some (out, g1)" "calm g1" "free_slots g1"
      using process_job_calm [OF Cons.prems(1,2)] by blast
    with Cons.IH [of g1] Cons.prems(3) job show ?case by auto
  qed simp
  then obtain outs g' where r: "process_jobs (map (\<lambda>(env, sv, jd, who). (env, services cfg sv, jd, who)) jobs) g = Some (outs, g')"
    "length outs = length jobs" "calm g'" by blast
  have "fst (is_available now (fst (circuit_of rt g')) (snd (circuit_of rt g')))" for rt now
    using closed_is_available calm_circuit [OF r(3), of rt] by (cases "circuit_of rt g'") simp
  with r show ?thesis by blast
qed

section \<open>Circuits that refuse\<close>

definition refuses :: "route_env \<Rightarrow> request_type \<Rightarrow> gateway \<Rightarrow> bool" where
  "refuses env rt g \<longleftrightarrow> \<not> fst (is_available (re_ask env) (fst (circuit_of rt g)) (snd (circuit_of rt g)))"

lemma route_refused:
  assumes "refuses env rt g"
  shows "\<exists>g'. (\<forall>result. route env rt result tt m fb who g = Some (fb, g')) \<and>
    (\<forall>rt'. slots_of rt' g' = slots_of rt' g) \<and> (\<forall>rt'. rt' \<noteq> rt \<longrightarrow> circuit_of rt' g' = circuit_of rt' g)"
proof -
  obtain redis b where rb: "circuit_of rt g = (redis, b)" by (cases "circuit_of rt g")
  obtain b1 where "is_available (re_ask env) redis b = (False, b1)"
    using assms rb by (cases "is_available (re_ask env) redis b") (auto simp: refuses_def)
  then show ?thesis
    by (intro exI [of _ "log_request env rt 0 False who m (circuit_value (cb_state b1)) (Some ''circuit breaker open'') None
        (with_circuit rt (redis, b1) g)"]) (simp add: route_def rb)
qed

lemma fallback_stays:
  assumes "faithful u"
  shows "sanitize_and_dump (sanitize_output_str u) (llm_fallback\<lparr>ar_partial_failure := True\<rparr>) = llm_fallback\<lparr>ar_partial_failure := True\<rparr>"
proof -
  let ?texts = "[ar_problem_type llm_fallback, ar_summary llm_fallback, ar_recommended_fix llm_fallback]"
  have "plain_text (codes_of (ar_problem_type llm_fallback))" by code_simp
  moreover have "plain_text (codes_of (ar_summary llm_fallback))" by code_simp
  moreover have "plain_text (codes_of (ar_recommended_fix llm_fallback))" by code_simp
  ultimately have 1: "list_all (\<lambda>s. plain_text (codes_of s)) ?texts" by simp
  have 2: "list_all (\<lambda>s. low_risk (codes_of s)) ?texts" by code_simp
  have 3: "list_all (\<lambda>s. dissimilar (codes_of s)) ?texts" by code_simp
  have "sanitize_output_str u s = s" if "s \<in> set ?texts" for s
    using passes_unchanged [OF assms, of "codes_of s"] 1 2 3 that string_of_codes_of [of s]
    unfolding sanitize_output_str_def list_all_iff by metis
  then have "sanitize_output_str u (ar_problem_type llm_fallback) = ar_problem_type llm_fallback"
    "sanitize_output_str u (ar_summary llm_fallback) = ar_summary llm_fallback"
    "sanitize_output_str u (ar_recommended_fix llm_fallback) = ar_recommended_fix llm_fallback" by simp_all
  then show ?thesis by (simp add: sanitize_and_dump_def) (simp add: llm_fallback_def)
qed

text \<open>
  While the circuits refuse, no server is called and the job is told so: if the three circuits refuse the job's
  requests, the gateway answers with its fallback marked as a partial failure, whatever the servers would have
  said, it takes no slot, and the answer is one that the output checks reject as recoverable.
\<close>

theorem open_circuits_answer_fallback:
  assumes "faithful (je_unicode env)" "jd_image_urls jd \<noteq> Some None"
    and "refuses (je_audio env) Audio g" "refuses (je_vision env) Vision g" "refuses (je_text env) Text g"
  shows "\<exists>g'. (\<forall>ai. process_job env ai jd who g = Some (Inr (llm_fallback\<lparr>ar_partial_failure := True\<rparr>), g')) \<and>
    gw_llm_slots g' = gw_llm_slots g \<and> gw_whisper_slots g' = gw_whisper_slots g \<and>
    vr_failure_type (validate_ai_output (llm_fallback\<lparr>ar_partial_failure := True\<rparr>) True) = Some Recoverable"
proof -
  let ?audio = "truthy_str (jd_audio_url jd)"
  let ?urls = "take (je_max_images env) (case jd_image_urls jd of Some (Some us) \<Rightarrow> us | _ \<Rightarrow> [])"
  have step: "\<exists>g'. (\<forall>result. optional_route w (route e rt result (je_timeout_text env) m [] who) h = Some ([], g')) \<and>
      (\<forall>rt'. slots_of rt' g' = slots_of rt' h) \<and> (\<forall>rt'. rt' \<noteq> rt \<longrightarrow> circuit_of rt' g' = circuit_of rt' h)"
    if "refuses e rt h" for w e rt m h
    using route_refused [OF that, of "je_timeout_text env" m "[]" who] by (cases w) (auto simp: optional_route_def)
  obtain g1 where 1: "\<And>result. optional_route ?audio (route (je_audio env) Audio result (je_timeout_text env) (je_whisper_name env) [] who) g =
      Some ([], g1)" "\<And>rt. slots_of rt g1 = slots_of rt g" "\<And>rt. rt \<noteq> Audio \<Longrightarrow> circuit_of rt g1 = circuit_of rt g"
    using step [OF assms(3)] by metis
  then have "refuses (je_vision env) Vision g1" using assms(4) 1(3) [of Vision] unfolding refuses_def by simp
  from step [OF this] obtain g2 where 2: "\<And>result. optional_route (?urls \<noteq> [])
      (route (je_vision env) Vision result (je_timeout_text env) (je_model_name env) [] who) g1 = Some ([], g2)"
    "\<And>rt. slots_of rt g2 = slots_of rt g1" "\<And>rt. rt \<noteq> Vision \<Longrightarrow> circuit_of rt g2 = circuit_of rt g1" by metis
  then have "refuses (je_text env) Text g2" using assms(5) 1(3) [of Text] 2(3) [of Text] unfolding refuses_def by simp
  from route_refused [OF this, of "je_timeout_text env" "je_model_name env" llm_fallback who]
  obtain g3 where 3: "\<And>result. route (je_text env) Text result (je_timeout_text env) (je_model_name env) llm_fallback who g2 = Some (llm_fallback, g3)"
    "\<And>rt. slots_of rt g3 = slots_of rt g2" by blast
  have "process_job env ai jd who g = Some (Inr (llm_fallback\<lparr>ar_partial_failure := True\<rparr>), g3)" for ai
    unfolding process_job_def Let_def using assms(2) 1(1) 2(1) 3(1) fallback_stays [OF assms(1)]
    by (simp add: finish_job_def llm_fallback_def)
  moreover have "slots_of rt g3 = slots_of rt g" for rt using 1(2) 2(2) 3(2) by simp
  from this [of Audio] this [of Text] have "gw_llm_slots g3 = gw_llm_slots g" "gw_whisper_slots g3 = gw_whisper_slots g" by simp_all
  ultimately show ?thesis by (intro exI [of _ g3]) (simp add: validate_ai_output_def llm_fallback_def)
qed

section \<open>What an answer is\<close>

definition short_texts :: "ai_result \<Rightarrow> bool" where
  "short_texts r \<longleftrightarrow> list_all (\<lambda>s. length s \<le> 10000) (ar_problem_type r # ar_summary r # ar_recommended_fix r # ar_materials r)"

lemma route_result:
  "route e rt result tt m fb w h = Some (v, h') \<Longrightarrow> v = fb \<or> result = Inr v"
  by (auto simp: route_def call_outcome_def Let_def split: prod.splits if_splits option.splits sum.splits outcome.splits)

text \<open>
  Answers are sanitized for good and never pass for complete: what the gateway answers is not changed by
  sanitizing it again, as the worker and the response middleware do, if the model's texts are within the limit
  of the sanitizer; and an answer of the fallback is always marked as a partial failure.
\<close>

theorem answer_sanitized:
  assumes "faithful (je_unicode env)" "\<And>a b c d r. call_text ai a b c d = Inr r \<Longrightarrow> short_texts r"
    and "process_job env ai jd who g = Some (Inr out, g')"
  shows "sanitize_and_dump (sanitize_output_str (je_unicode env)) out = out \<and> (ar_is_fallback out \<longrightarrow> ar_partial_failure out)"
proof -
  let ?u = "je_unicode env"
  obtain a b c d g2 raw failed where r:
    "route (je_text env) Text (call_text ai a b c d) (je_timeout_text env) (je_model_name env) llm_fallback who g2 = Some (raw, g')"
    "out = finish_job ?u failed raw"
    using assms(3) unfolding process_job_def Let_def by (auto split: option.splits prod.splits if_split_asm)
  have "short_texts llm_fallback" by (simp add: short_texts_def llm_fallback_def)
  then have "short_texts raw" using route_result [OF r(1)] assms(2) by blast
  then have "sanitize_and_dump (sanitize_output_str ?u) out = out"
    using sanitize_str_twice [OF assms(1)] by (auto simp: r(2) finish_job_def sanitize_and_dump_def short_texts_def list_all_iff)
  moreover have "ar_is_fallback out \<longrightarrow> ar_partial_failure out"
    by (simp add: r(2) finish_job_def sanitize_and_dump_def)
  ultimately show ?thesis by blast
qed

section \<open>The limiter\<close>

text \<open>
  A refused slot does not hold a request back: when the counter that all processes share is full, a request
  still reaches its server if the process has a permit, and when it ends it gives back a slot it never had: the
  process gains a permit, and another process loses its place in the counter.
\<close>

theorem refused_slot_ignored:
  assumes "slots_of rt g = (Counter n, l)" "0 < permits l" "max_concurrent l \<le> n" "0 < n"
    and "\<not> refuses env rt g" "in_time env rt" "\<And>h. re_meanwhile env h = h"
  shows "fst (the (acquire (Counter n, l))) = False \<and>
    (\<exists>g'. route env rt (Inr v) tt m fb who g = Some (v, g') \<and>
      slots_of rt g' = (Counter (n - 1), l\<lparr>permits := permits l + 1, active_count := active_count l - 1\<rparr>))"
proof -
  note o = context_manager_overruns [OF assms(2-4)]
  have x: "aenter (Counter n, l) = Some (Counter n, l)"
    "aexit (Counter n, l) = (Counter (n - 1), l\<lparr>permits := permits l + 1, active_count := active_count l - 1\<rparr>)"
    using o by (auto simp: execute_def)
  obtain redis b where rb: "circuit_of rt g = (redis, b)" by (cases "circuit_of rt g")
  then obtain b1 where "is_available (re_ask env) redis b = (True, b1)"
    using assms(5) by (cases "is_available (re_ask env) redis b") (auto simp: refuses_def)
  moreover have "call_outcome env rt (Inr v) = Returned v" using assms(6) by (simp add: call_outcome_def in_time_def)
  ultimately show ?thesis using o x assms(1,7) rb by (simp add: route_def Let_def)
qed

section \<open>Sample runs\<close>

definition sample_route :: route_env where
  "sample_route = \<lparr>re_ask = 1, re_start = 1, re_elapsed = 2, re_end = 3, re_fail = 3, re_wall = 3, re_request_timeout = 300,
     re_meanwhile = \<lambda>g. g, re_audit = sample_audit_env 5 6\<rparr>"

definition sample_job_env :: job_env where
  "sample_job_env = \<lparr>je_audio = sample_route, je_vision = sample_route, je_text = sample_route, je_max_images = 5,
     je_unicode = ascii_unicode, je_timeout_text = \<lambda>t. ''timeout'', je_whisper_name = ''whisper:base'', je_model_name = ''ollama:m''\<rparr>"

definition sample_job_data :: job_data where
  "sample_job_data = \<lparr>jd_audio_url = None, jd_image_urls = Some (Some []), jd_description = ''no heat'', jd_trade_type = ''hvac''\<rparr>"

definition nobody :: audit_caller where
  "nobody = \<lparr>cl_company_id = None, cl_user_id = None, cl_job_id = None\<rparr>"

definition failing_servers :: model_servers where
  "failing_servers = sample_servers\<lparr>sv_text := \<lambda>m n. Status_error\<rparr>"

definition fresh_gateway :: gateway where
  "fresh_gateway = new_gateway 3 (Redis_none, Redis_none, Redis_none) (No_counter, No_counter) []"

definition open_hash :: breaker_redis where
  "open_hash = Redis_hash \<lparr>h_open = True, h_last_failure = None, h_level = None, h_half_open = None, h_half_open_probed = None\<rparr>"

definition refusing_gateway :: gateway where
  "refusing_gateway = new_gateway 3 (open_hash, open_hash, open_hash) (No_counter, No_counter) []"

lemma sample_in_time: "in_time sample_route rt" "undisturbed sample_route"
  by (cases rt; simp add: in_time_def sample_route_def call_timeout_def) (simp add: undisturbed_def sample_route_def)

lemma new_gateway_circuits:
  "circuit_of rt (new_gateway n (r, r, r) cs rows) = (r, new_breaker 3 120 1 600 3)"
  by (cases rt; cases cs; simp add: new_gateway_def)

theorem failing_servers_never_trip_witness:
  "\<exists>outs g'. process_jobs (map (\<lambda>(env, sv, jd, who). (env, services \<lparr>text_model = ''m'', vision_model = [], allowed_hosts = []\<rparr> sv, jd, who))
      (replicate 9 (sample_job_env, failing_servers, sample_job_data, nobody))) fresh_gateway = Some (outs, g') \<and>
    length outs = 9 \<and> calm g' \<and> (\<forall>rt now. fst (is_available now (fst (circuit_of rt g')) (snd (circuit_of rt g'))))"
proof -
  have "calm fresh_gateway"
    by (simp add: calm_def fresh_gateway_def new_gateway_circuits closed_circuit_def new_breaker_def del: circuit_of.simps)
  moreover have "free_slots fresh_gateway" by (simp add: free_slots_def fresh_gateway_def new_gateway_def new_limiter_def)
  moreover have "list_all (\<lambda>(env, sv, jd, who). job_in_time env) (replicate 9 (sample_job_env, failing_servers, sample_job_data, nobody))"
    using sample_in_time by (simp add: list_all_iff job_in_time_def sample_job_env_def)
  ultimately have "\<exists>outs g'. process_jobs (map (\<lambda>(env, sv, jd, who). (env, services \<lparr>text_model = ''m'', vision_model = [], allowed_hosts = []\<rparr> sv, jd, who))
      (replicate 9 (sample_job_env, failing_servers, sample_job_data, nobody))) fresh_gateway = Some (outs, g') \<and>
    length outs = length (replicate 9 (sample_job_env, failing_servers, sample_job_data, nobody)) \<and> calm g' \<and>
    (\<forall>rt now. fst (is_available now (fst (circuit_of rt g')) (snd (circuit_of rt g'))))"
    by (rule failing_servers_never_trip)
  then show ?thesis unfolding length_replicate .
qed

lemma refusing_refuses: "refuses e rt refusing_gateway"
  by (simp add: refuses_def refusing_gateway_def new_gateway_circuits is_available_def open_hash_def del: circuit_of.simps)

theorem open_circuits_answer_fallback_witness:
  "\<exists>g'. (\<forall>ai. process_job sample_job_env ai sample_job_data nobody refusing_gateway =
      Some (Inr (llm_fallback\<lparr>ar_partial_failure := True\<rparr>), g')) \<and> gw_llm_slots g' = gw_llm_slots refusing_gateway"
proof -
  have "faithful (je_unicode sample_job_env)" "jd_image_urls sample_job_data \<noteq> Some None"
    by (simp_all add: sample_job_env_def sample_job_data_def)
  from open_circuits_answer_fallback [OF this refusing_refuses refusing_refuses refusing_refuses, of nobody] show ?thesis by blast
qed

theorem answer_sanitized_witness:
  "sanitize_and_dump (sanitize_output_str ascii_unicode) (llm_fallback\<lparr>ar_partial_failure := True\<rparr>) =
     llm_fallback\<lparr>ar_partial_failure := True\<rparr>"
proof -
  let ?ai = "\<lparr>call_audio = \<lambda>u. Inl [], call_vision = \<lambda>us. Inl [], call_text = \<lambda>a b c d. Inl []\<rparr>"
  obtain g' where "route sample_route Text (Inl []) (\<lambda>t. ''timeout'') ''ollama:m'' llm_fallback nobody refusing_gateway = Some (llm_fallback, g')"
    using route_refused [OF refusing_refuses [of sample_route Text], of "\<lambda>t. ''timeout''" "''ollama:m''" llm_fallback nobody] by blast
  then have "process_job sample_job_env ?ai sample_job_data nobody refusing_gateway = Some (Inr (llm_fallback\<lparr>ar_partial_failure := True\<rparr>), g')"
    using fallback_stays [OF faithful_ascii]
    by (simp add: process_job_def sample_job_env_def sample_job_data_def optional_route_def finish_job_def)
      (simp add: llm_fallback_def)
  from answer_sanitized [OF _ _ this] show ?thesis by (simp add: sample_job_env_def)
qed

theorem refused_slot_ignored_witness:
  "\<exists>g'. route sample_route Text (Inr (7::nat)) (\<lambda>t. ''timeout'') ''m'' 0 nobody
      (new_gateway 3 (Redis_none, Redis_none, Redis_none) (Counter 3, No_counter) []) = Some (7, g') \<and>
    slots_of Text g' = (Counter 2, \<lparr>max_concurrent = 3, permits = 4, active_count = -1\<rparr>)"
proof -
  let ?g = "new_gateway 3 (Redis_none, Redis_none, Redis_none) (Counter 3, No_counter) []"
  have "slots_of Text ?g = (Counter 3, new_limiter 3)" by (simp add: new_gateway_def)
  moreover have "0 < permits (new_limiter 3)" "max_concurrent (new_limiter 3) \<le> 3" "(0::int) < 3" by (simp_all add: new_limiter_def)
  moreover have "\<not> refuses sample_route Text ?g"
    by (simp add: refuses_def new_gateway_circuits is_available_def local_available_def new_breaker_def del: circuit_of.simps)
  moreover have "\<And>h. re_meanwhile sample_route h = h" by (simp add: sample_route_def)
  ultimately have "fst (the (acquire (Counter 3, new_limiter 3))) = False \<and>
    (\<exists>g'. route sample_route Text (Inr (7::nat)) (\<lambda>t. ''timeout'') ''m'' 0 nobody ?g = Some (7, g') \<and>
      slots_of Text g' = (Counter (3 - 1), (new_limiter 3)\<lparr>permits := permits (new_limiter 3) + 1,
        active_count := active_count (new_limiter 3) - 1\<rparr>))"
    using sample_in_time(1) [of Text] by (intro refused_slot_ignored)
  then show ?thesis by (simp add: new_limiter_def)
qed

end
