(* ===== verification/StripeIps.thy ===== *)
theory StripeIps
  imports Addresses "HOL-Library.Word"
begin

text \<open>
  The addresses from which payment events may come: \<open>src/backend/app/billing/stripe_ips.py\<close>, with the part of
  Python's \<open>ipaddress\<close> that it uses. The lists that the payment service publishes are an argument: \<open>None\<close> stands
  for a request that failed. The cache of networks is the module's state.
\<close>

unbundle bit_operations_syntax

section \<open>Addresses and networks (\<open>ipaddress\<close>)\<close>

datatype ip = IPv4 "32 word" | IPv6 "128 word"
datatype network = Net4 "32 word" nat | Net6 "128 word" nat

definition read_digits :: "int \<Rightarrow> (char \<Rightarrow> int) \<Rightarrow> string \<Rightarrow> int" where
  "read_digits b digit s = foldl (\<lambda>n c. b * n + digit c) 0 s"

definition hex_val :: "char \<Rightarrow> int" where
  "hex_val c = (if is_digit c then digit_val c else of_char (hd (lower [c])) - 87)"

definition ipv4_value :: "string \<Rightarrow> 32 word" where
  "ipv4_value s = foldl (\<lambda>n octet. 256 * n + word_of_int (read_digits 10 digit_val octet)) 0 (split_on (CHR ''.'') s)"

definition ipv6_groups :: "string \<Rightarrow> int list" where
  \<comment> \<open>the eight groups of a text that \<open>is_ipv6\<close> accepts: two of them may be written as an IPv4 address, and one gap
      of zeros as nothing\<close>
  "ipv6_groups s =
     (let parts0 = split_on (CHR '':'') (cut_at (\<lambda>c. c = CHR ''%'') s);
          group = (\<lambda>p. if p = [] then None else Some (read_digits 16 hex_val p));
          v4 = uint (ipv4_value (last parts0));
          parts = (if CHR ''.'' \<in> set (last parts0)
                   then map group (butlast parts0) @ [Some (v4 div 65536), Some (v4 mod 65536)] else map group parts0);
          n = length parts
      in case filter (\<lambda>i. parts ! i = None) [1..<n - 1] of
           [] \<Rightarrow> map the parts
         | g # _ \<Rightarrow>
             let hi = (if hd parts = None then g - 1 else g); lo = (if last parts = None then n - g - 2 else n - g - 1)
             in map the (take hi parts) @ replicate (8 - hi - lo) 0 @ map the (drop (n - lo) parts))"

definition ip_address :: "string \<Rightarrow> ip option" where
  "ip_address s =
     (if is_ipv4 s then Some (IPv4 (ipv4_value s))
      else if is_ipv6 s \<and> CHR ''/'' \<notin> set s then Some (IPv6 (foldl (\<lambda>n g. 65536 * n + word_of_int g) 0 (ipv6_groups s)))
      else None)"

definition net_mask :: "nat \<Rightarrow> 'a::len word" where
  \<comment> \<open>\<open>p\<close> leading ones\<close>
  "net_mask p = NOT (mask (LENGTH('a) - p))"

definition prefix_number :: "nat \<Rightarrow> string \<Rightarrow> nat option" where
  "prefix_number limit s =
     (let n = read_digits 10 digit_val s in if s \<noteq> [] \<and> list_all is_digit s \<and> n \<le> int limit then Some (nat n) else None)"

definition prefix_of_mask :: "32 word \<Rightarrow> nat option" where
  \<comment> \<open>a netmask, or a host mask\<close>
  "prefix_of_mask m =
     (case find (\<lambda>p. net_mask p = m) [0..<33] of
        Some p \<Rightarrow> Some p | None \<Rightarrow> find (\<lambda>p. net_mask p = NOT m) [0..<33])"

definition network4 :: "string \<Rightarrow> string \<Rightarrow> network option" where
  "network4 addr prefix =
     (case (if is_ipv4 addr
            then (case prefix_number 32 prefix of Some p \<Rightarrow> Some p
                  | None \<Rightarrow> if is_ipv4 prefix then prefix_of_mask (ipv4_value prefix) else None)
            else None) of
        None \<Rightarrow> None
      | Some p \<Rightarrow> let a = ipv4_value addr in if a AND net_mask p = a then Some (Net4 a p) else None)"

definition network6 :: "string \<Rightarrow> string \<Rightarrow> network option" where
  "network6 addr prefix =
     (case ip_address addr of
        Some (IPv6 a) \<Rightarrow>
          (case prefix_number 128 prefix of
             Some p \<Rightarrow> if a AND net_mask p = a then Some (Net6 a p) else None | None \<Rightarrow> None)
      | _ \<Rightarrow> None)"

definition ip_network :: "string \<Rightarrow> network option" where
  "ip_network s =
     (case split_on (CHR ''/'') s of
        [addr] \<Rightarrow> (case network4 addr ''32'' of Some n \<Rightarrow> Some n | None \<Rightarrow> network6 addr ''128'')
      | [addr, prefix] \<Rightarrow> (case network4 addr prefix of Some n \<Rightarrow> Some n | None \<Rightarrow> network6 addr prefix)
      | _ \<Rightarrow> None)"

fun in_network :: "ip \<Rightarrow> network \<Rightarrow> bool" where
  \<comment> \<open>\<open>ip in net\<close>\<close>
  "in_network (IPv4 a) (Net4 b p) = (a AND net_mask p = b)"
| "in_network (IPv6 a) (Net6 b p) = (a AND net_mask p = b)"
| "in_network _ _ = False"

section \<open>The cache of networks\<close>

definition DEFAULT_STRIPE_IPS :: "string list" where
  "DEFAULT_STRIPE_IPS = [
     ''13.248.128.0/24'', ''13.248.129.0/24'', ''13.248.130.0/24'', ''13.248.131.0/24'', ''13.248.132.0/24'',
     ''13.248.133.0/24'', ''13.248.134.0/24'', ''13.248.135.0/24'', ''18.155.128.0/24'', ''18.155.129.0/24'',
     ''18.155.130.0/24'', ''18.155.131.0/24'', ''18.155.132.0/24'', ''18.155.133.0/24'', ''18.155.134.0/24'',
     ''18.155.135.0/24'', ''54.187.174.0/24'', ''54.187.175.0/24'', ''54.187.176.0/24'', ''54.187.177.0/24'',
     ''54.187.178.0/24'', ''54.187.179.0/24'']"

record ip_cache =
  ic_networks :: "network list"
  ic_last_fetch :: pyfloat
  ic_prev_count :: nat

definition load_default_networks :: "network list" where
  "load_default_networks = map (\<lambda>c. the (ip_network c)) DEFAULT_STRIPE_IPS"

definition defaults_loaded :: "pyfloat \<Rightarrow> ip_cache" where
  \<comment> \<open>the state after the module was imported\<close>
  "defaults_loaded now = \<lparr>ic_networks = load_default_networks, ic_last_fetch = now, ic_prev_count = 0\<rparr>"

definition fetch_stripe_ips :: "string list option list \<Rightarrow> string list" where
  \<comment> \<open>what the two addresses of lists answered\<close>
  "fetch_stripe_ips answers =
     (let cidrs = concat (map (case_option [] id) answers) in if cidrs = [] then DEFAULT_STRIPE_IPS else cidrs)"

definition CACHE_TTL :: pyfloat where "CACHE_TTL = 3600"

definition refresh_stripe_ips :: "bool \<Rightarrow> pyfloat \<Rightarrow> string list option list \<Rightarrow> ip_cache \<Rightarrow> ip_cache" where
  \<comment> \<open>the networks of the result are what the function returns\<close>
  "refresh_stripe_ips force now answers c =
     (if \<not> force \<and> ic_networks c \<noteq> [] \<and> fsub now (ic_last_fetch c) < CACHE_TTL then c
      else
        let networks = List.map_filter ip_network (fetch_stripe_ips answers);
            c1 = (if networks \<noteq> [] then c\<lparr>ic_networks := networks, ic_last_fetch := now\<rparr> else c)
        in c1\<lparr>ic_prev_count := length networks\<rparr>)"

record ip_check =
  ip_now :: pyfloat
  ip_answers :: "string list option list"
  ip_check_disabled :: bool
  ip_debug :: bool

definition validate_stripe_ip :: "ip_check \<Rightarrow> string \<Rightarrow> ip_cache \<Rightarrow> bool \<times> ip_cache" where
  "validate_stripe_ip env client_ip c =
     (if ip_check_disabled env \<and> ip_debug env then (True, c)
      else case ip_address client_ip of
        None \<Rightarrow> (False, c)
      | Some ip \<Rightarrow>
          let c1 = refresh_stripe_ips False (ip_now env) (ip_answers env) c; networks = ic_networks c1 in
          if networks \<noteq> [] \<and> list_ex (in_network ip) networks then (True, c1)
          else if networks \<noteq> [] then (False, c1)
          else (True, c1))"

section \<open>The check\<close>

lemma masked_eq:
  fixes a b :: "'a::len word"
  assumes b: "b AND net_mask p = b"
  shows "(a AND net_mask p = b) = (drop_bit (LENGTH('a) - p) a = drop_bit (LENGTH('a) - p) b)"
proof
  assume "a AND net_mask p = b"
  then have "drop_bit (LENGTH('a) - p) b = drop_bit (LENGTH('a) - p) (a AND net_mask p)" by simp
  also have "\<dots> = drop_bit (LENGTH('a) - p) a"
    by (rule bit_word_eqI) (auto simp: bit_simps net_mask_def dest: bit_imp_le_length)
  finally show "drop_bit (LENGTH('a) - p) a = drop_bit (LENGTH('a) - p) b" by simp
next
  assume d: "drop_bit (LENGTH('a) - p) a = drop_bit (LENGTH('a) - p) b"
  have "bit a n = bit b n" if "LENGTH('a) - p \<le> n" for n
  proof -
    have "bit (drop_bit (LENGTH('a) - p) a) (n - (LENGTH('a) - p)) = bit (drop_bit (LENGTH('a) - p) b) (n - (LENGTH('a) - p))"
      using d by simp
    with that show ?thesis by (simp add: bit_simps)
  qed
  then have "a AND net_mask p = b AND net_mask p"
    by (intro bit_word_eqI) (auto simp: bit_simps net_mask_def)
  with b show "a AND net_mask p = b" by simp
qed

lemma in_network_prefix:
  \<comment> \<open>membership compares the leading bits, if the network has no bits set behind its prefix\<close>
  "b AND net_mask p = b \<Longrightarrow> in_network (IPv4 a) (Net4 b p) \<longleftrightarrow> drop_bit (32 - p) a = drop_bit (32 - p) b"
  "c AND net_mask q = c \<Longrightarrow> in_network (IPv6 d) (Net6 c q) \<longleftrightarrow> drop_bit (128 - q) d = drop_bit (128 - q) c"
  using masked_eq [of b p a] masked_eq [of c q d] by auto

datatype ip_op = Refresh bool pyfloat "string list option list" | Validate ip_check string

fun ip_run :: "ip_op \<Rightarrow> ip_cache \<Rightarrow> ip_cache" where
  "ip_run (Refresh force now answers) c = refresh_stripe_ips force now answers c"
| "ip_run (Validate env client_ip) c = snd (validate_stripe_ip env client_ip c)"

lemma refresh_keeps_networks: "ic_networks c \<noteq> [] \<Longrightarrow> ic_networks (refresh_stripe_ips force now answers c) \<noteq> []"
  by (simp add: refresh_stripe_ips_def Let_def)

lemma ip_run_keeps_networks: "ic_networks c \<noteq> [] \<Longrightarrow> ic_networks (ip_run op c) \<noteq> []"
  by (cases op) (auto simp: refresh_keeps_networks validate_stripe_ip_def Let_def split: option.split)

text \<open>
  C26. The check of the sender's address never falls open: whatever was refreshed and checked since the module was
  loaded, and whatever the published lists contained, there is a network in the cache, and an address is
  admitted exactly if the check is switched off in a debug setting or the address lies in one of the cached
  networks; the branch that admits everybody is never taken.
\<close>

theorem stripe_ips_never_open:
  "let c = fold ip_run ops (defaults_loaded now); (admitted, c') = validate_stripe_ip env client_ip c in
     ic_networks c' \<noteq> [] \<and>
     (admitted \<longleftrightarrow> ip_check_disabled env \<and> ip_debug env \<or>
        (\<exists>ip. ip_address client_ip = Some ip \<and> list_ex (in_network ip) (ic_networks c')))"
proof -
  have "ic_networks (fold ip_run ops c) \<noteq> []" if "ic_networks c \<noteq> []" for c
    using that ip_run_keeps_networks by (induction ops arbitrary: c) auto
  moreover have "ic_networks (defaults_loaded now) \<noteq> []"
    by (simp add: defaults_loaded_def load_default_networks_def DEFAULT_STRIPE_IPS_def)
  ultimately have "ic_networks (fold ip_run ops (defaults_loaded now)) \<noteq> []" by blast
  then show ?thesis
    using refresh_keeps_networks [of _ False "ip_now env" "ip_answers env"]
    by (auto simp: validate_stripe_ip_def Let_def split: option.split)
qed

text \<open>
  A half-failed refresh locks the payment service out: if the list of IPv4 networks cannot be fetched and
  the other list can, the cache is replaced by IPv6 networks alone, and for an hour every sender with an IPv4
  address is refused, those of the built-in list included.
\<close>

theorem half_refresh_refuses_ipv4:
  assumes "List.map_filter ip_network cidrs \<noteq> []" "list_all (\<lambda>s. case ip_network s of Some (Net4 a p) \<Rightarrow> False | _ \<Rightarrow> True) cidrs"
    and "ip_address client_ip = Some (IPv4 a)"
    and "fsub (ip_now env) now < CACHE_TTL" "\<not> (ip_check_disabled env \<and> ip_debug env)"
  shows "fst (validate_stripe_ip env client_ip (refresh_stripe_ips True now [None, Some cidrs] c)) = False"
proof -
  have f: "fetch_stripe_ips [None, Some cidrs] = cidrs"
    using assms(1) by (auto simp: fetch_stripe_ips_def map_filter_simps)
  have "\<not> in_network (IPv4 a) n" if "n \<in> set (List.map_filter ip_network cidrs)" for n
  proof -
    from that obtain s where "s \<in> set cidrs" "ip_network s = Some n" by (auto simp: List.map_filter_def)
    with assms(2) show ?thesis by (cases n) (auto simp: list_all_iff)
  qed
  then have "\<not> list_ex (in_network (IPv4 a)) (List.map_filter ip_network cidrs)" by (auto simp: list_ex_iff)
  with assms f show ?thesis
    by (simp add: validate_stripe_ip_def refresh_stripe_ips_def Let_def)
qed

theorem half_refresh_refuses_ipv4_witness:
  "fst (validate_stripe_ip \<lparr>ip_now = 60, ip_answers = [], ip_check_disabled = False, ip_debug = False\<rparr> ''13.248.128.7''
     (refresh_stripe_ips True 0 [None, Some [''2600:1f00::/24'']] (defaults_loaded 0))) = False"
proof (rule half_refresh_refuses_ipv4)
  show "ip_address ''13.248.128.7'' = Some (IPv4 0xDF88007)" by code_simp
  show "List.map_filter ip_network [''2600:1f00::/24''] \<noteq> []" by code_simp
  show "list_all (\<lambda>s. case ip_network s of Some (Net4 a p) \<Rightarrow> False | _ \<Rightarrow> True) [''2600:1f00::/24'']" by code_simp
qed (simp_all add: CACHE_TTL_def fsub_def f64_numeral)

lemma default_networks:
  "load_default_networks =
     map (\<lambda>k. Net4 (word_of_int (256 * k)) 24) ([0x0DF880..0x0DF887] @ [0x129B80..0x129B87] @ [0x36BBAE..0x36BBB3])"
  by code_simp

lemma block_of: "in_network (IPv4 a) (Net4 (word_of_int (256 * k)) 24) \<longleftrightarrow> uint (drop_bit 8 a) = k"
  if "0 \<le> k" "k < 2 ^ 24"
proof -
  have "word_of_int (256 * k) = (push_bit 8 (word_of_int k) :: 32 word)" by (simp add: push_bit_eq_mult)
  moreover from this have "word_of_int (256 * k) AND net_mask 24 = (word_of_int (256 * k) :: 32 word)"
    by (auto intro!: bit_word_eqI simp: bit_simps net_mask_def)
  moreover have "uint (drop_bit 8 (word_of_int (256 * k) :: 32 word)) = k"
  proof -
    have "take_bit 32 (256 * k) = 256 * k" using that by (simp add: take_bit_int_eq_self_iff)
    moreover from this have "uint (word_of_int (256 * k) :: 32 word) = 256 * k" by (simp only: uint_word_of_int_eq) simp
    ultimately show ?thesis by (simp only: unsigned_drop_bit_eq) (simp add: drop_bit_eq_div)
  qed
  ultimately show ?thesis using in_network_prefix(1) [of "word_of_int (256 * k)" 24 a] by (auto simp: word_uint_eq_iff)
qed

text \<open>
  The built-in list admits what it says: while it is in use, an IPv4 sender passes exactly if its address lies
  in one of the 22 blocks of 256 addresses, 13.248.128 to 13.248.135, 18.155.128 to 18.155.135 and 54.187.174
  to 54.187.179.
\<close>

theorem default_ranges:
  assumes "ip_address client_ip = Some (IPv4 a)" "fsub (ip_now env) now < CACHE_TTL" "\<not> (ip_check_disabled env \<and> ip_debug env)"
  shows "fst (validate_stripe_ip env client_ip (defaults_loaded now)) \<longleftrightarrow>
    uint (drop_bit 8 a) \<in> {0x0DF880..0x0DF887} \<union> {0x129B80..0x129B87} \<union> {0x36BBAE..0x36BBB3}"
proof -
  define ks :: "int list" where "ks = [0x0DF880..0x0DF887] @ [0x129B80..0x129B87] @ [0x36BBAE..0x36BBB3]"
  have "0 \<le> k \<and> k < 2 ^ 24" if "k \<in> set ks" for k using that by (auto simp: ks_def simp del: upto_rec_numeral)
  then have "list_ex (in_network (IPv4 a)) load_default_networks \<longleftrightarrow> (\<exists>k \<in> set ks. uint (drop_bit 8 a) = k)"
    unfolding default_networks ks_def [symmetric] list_ex_iff
    by (auto simp: block_of simp del: in_network.simps of_int_mult)
  then have "list_ex (in_network (IPv4 a)) load_default_networks \<longleftrightarrow>
      uint (drop_bit 8 a) \<in> {0x0DF880..0x0DF887} \<union> {0x129B80..0x129B87} \<union> {0x36BBAE..0x36BBB3}"
    by (simp add: ks_def del: upto_rec_numeral)
  moreover have "load_default_networks \<noteq> []" by (simp add: load_default_networks_def DEFAULT_STRIPE_IPS_def)
  ultimately show ?thesis
    using assms by (auto simp: validate_stripe_ip_def defaults_loaded_def refresh_stripe_ips_def Let_def)
qed

theorem default_ranges_witness:
  "fst (validate_stripe_ip \<lparr>ip_now = 60, ip_answers = [], ip_check_disabled = False, ip_debug = True\<rparr> ''54.187.179.255''
     (defaults_loaded 0))"
proof -
  have "ip_address ''54.187.179.255'' = Some (IPv4 0x36BBB3FF)" by code_simp
  moreover have "uint (drop_bit 8 (0x36BBB3FF :: 32 word)) = 0x36BBB3" by simp
  ultimately show ?thesis
    using default_ranges [where client_ip = "''54.187.179.255''" and a = "0x36BBB3FF" and now = 0 and env = "\<lparr>ip_now = 60, ip_answers = [], ip_check_disabled = False, ip_debug = True\<rparr>"]
    by (simp add: CACHE_TTL_def fsub_def f64_numeral)
qed

end
