(* ===== verification/StripeCache.thy ===== *)
theory StripeCache
  imports PyNum "HOL-Library.AList"
begin

text \<open>
  The cache of subscriptions in Redis: \<open>src/backend/app/billing/stripe_cache.py\<close>. The two kinds of keys are two maps
  from identifiers to a value and the time at which Redis forgets it; the JSON text of a record stands for the record. The
  clock of Redis and the clock of the program agree.
\<close>

datatype redis_mode = Absent | Failing | Up  \<comment> \<open>no client; a client whose commands raise; a working client\<close>

record subscription =
  cs_plan :: string
  cs_status :: string
  cs_customer_id :: "string option"

record cached_subscription = subscription +
  cs_cached_at :: pyfloat
  cs_expires_at :: pyfloat

record stripe_cache =
  sc_subscriptions :: "string \<rightharpoonup> cached_subscription \<times> pyfloat"
  sc_customers :: "string \<rightharpoonup> string \<times> pyfloat"

definition live :: "pyfloat \<Rightarrow> ('k \<rightharpoonup> 'v \<times> pyfloat) \<Rightarrow> 'k \<Rightarrow> 'v option" where
  \<comment> \<open>what \<open>GET\<close> answers\<close>
  "live now m k = (case m k of Some (v, expiry) \<Rightarrow> if now < expiry then Some v else None | None \<Rightarrow> None)"

section \<open>Operations\<close>

definition DEFAULT_TTL :: int where "DEFAULT_TTL = 300"

definition get_ttl :: "int option \<Rightarrow> int" where
  \<comment> \<open>the setting, if the settings can be read\<close>
  "get_ttl setting = (case setting of Some n \<Rightarrow> n | None \<Rightarrow> DEFAULT_TTL)"

definition get_cached_subscription ::
    "redis_mode \<Rightarrow> pyfloat \<Rightarrow> string \<Rightarrow> stripe_cache \<Rightarrow> cached_subscription option \<times> stripe_cache" where
  "get_cached_subscription mode now sub c =
     (if sub = [] \<or> mode \<noteq> Up then (None, c)
      else case live now (sc_subscriptions c) sub of
        None \<Rightarrow> (None, c)
      | Some data \<Rightarrow>
          if cs_expires_at data < now then (None, c\<lparr>sc_subscriptions := (sc_subscriptions c)(sub := None)\<rparr>)
          else (Some data, c))"

definition set_cached_subscription ::
    "redis_mode \<Rightarrow> pyfloat \<Rightarrow> int option \<Rightarrow> int option \<Rightarrow> string \<Rightarrow> subscription \<Rightarrow> stripe_cache \<Rightarrow> bool \<times> stripe_cache" where
  \<comment> \<open>\<open>ttl\<close>: the argument; Redis refuses an expiry that is not positive\<close>
  "set_cached_subscription mode now setting ttl sub data c =
     (let ttl_s = (case ttl of Some n \<Rightarrow> if n = 0 then get_ttl setting else n | None \<Rightarrow> get_ttl setting);
          expiry = fadd now (f64 (of_int ttl_s));
          entry = \<lparr>cs_plan = cs_plan data, cs_status = cs_status data, cs_customer_id = cs_customer_id data,
                   cs_cached_at = now, cs_expires_at = expiry\<rparr>
      in if sub = [] \<or> mode \<noteq> Up \<or> ttl_s \<le> 0 then (False, c)
         else
           let c1 = c\<lparr>sc_subscriptions := (sc_subscriptions c)(sub \<mapsto> (entry, expiry))\<rparr> in
           (True, case cs_customer_id data of
                    Some customer \<Rightarrow> if customer = [] then c1
                                     else c1\<lparr>sc_customers := (sc_customers c1)(customer \<mapsto> (sub, expiry))\<rparr>
                  | None \<Rightarrow> c1))"

definition invalidate_subscription_cache ::
    "redis_mode \<Rightarrow> pyfloat \<Rightarrow> string option \<Rightarrow> string option \<Rightarrow> stripe_cache \<Rightarrow> bool \<times> stripe_cache" where
  "invalidate_subscription_cache mode now sub customer c =
     (let subs1 = (case sub of Some s \<Rightarrow> if s = [] then {} else {s} | None \<Rightarrow> {});
          customers = (case customer of Some k \<Rightarrow> if k = [] then {} else {k} | None \<Rightarrow> {});
          indexed = (case customer of
                       Some k \<Rightarrow> (if k = [] then {}
                                 else case live now (sc_customers c) k of Some s \<Rightarrow> if s = [] then {} else {s} | None \<Rightarrow> {})
                     | None \<Rightarrow> {});
          subs = subs1 \<union> indexed
      in if mode \<noteq> Up \<or> subs = {} \<and> customers = {} then (False, c)
         else (True, \<lparr>sc_subscriptions = (\<lambda>s. if s \<in> subs then None else sc_subscriptions c s),
                      sc_customers = (\<lambda>k. if k \<in> customers then None else sc_customers c k)\<rparr>))"

definition get_cached_subscription_by_customer ::
    "redis_mode \<Rightarrow> pyfloat \<Rightarrow> string \<Rightarrow> stripe_cache \<Rightarrow> cached_subscription option \<times> stripe_cache" where
  "get_cached_subscription_by_customer mode now customer c =
     (if customer = [] \<or> mode \<noteq> Up then (None, c)
      else case live now (sc_customers c) customer of
        None \<Rightarrow> (None, c)
      | Some sub \<Rightarrow> get_cached_subscription mode now sub c)"

section \<open>Plans of prices\<close>

record price_map =
  pm_map :: "(string \<times> string) list"
  pm_loaded :: pyfloat

definition PRICE_MAP_TTL :: pyfloat where "PRICE_MAP_TTL = 60"

definition resolve_plan_from_price_id ::
    "(string \<Rightarrow> (string \<times> string) list option) \<Rightarrow> pyfloat \<Rightarrow> string option \<Rightarrow> string \<Rightarrow> price_map \<Rightarrow> string \<times> price_map" where
  \<comment> \<open>\<open>loads\<close>: the JSON reader, \<open>None\<close> if it raises; \<open>setting\<close>: the text of the setting, \<open>None\<close> if the settings cannot be read.
      A map that was never loaded is empty\<close>
  "resolve_plan_from_price_id loads now setting price p =
     (let p1 = (if pm_map p = [] \<or> PRICE_MAP_TTL < fsub now (pm_loaded p)
                then (case setting of
                        None \<Rightarrow> p
                      | Some text \<Rightarrow> (case (if text = [] then Some [] else loads text) of
                                       Some m \<Rightarrow> \<lparr>pm_map = m, pm_loaded = now\<rparr> | None \<Rightarrow> p))
                else p)
      in (case find (\<lambda>(name, price'). price' = price) (pm_map p1) of Some (name, _) \<Rightarrow> name | None \<Rightarrow> ''unknown'', p1))"

record stripe_object =
  so_id :: string
  so_status :: "string option"
  so_customer :: "string option"
  so_prices :: "string list option"  \<comment> \<open>the price of each item; \<open>None\<close> if the items cannot be read\<close>

definition set_cache_from_stripe_object ::
    "redis_mode \<Rightarrow> pyfloat \<Rightarrow> int option \<Rightarrow> (string \<Rightarrow> (string \<times> string) list option) \<Rightarrow> string option \<Rightarrow> stripe_object \<Rightarrow>
     price_map \<times> stripe_cache \<Rightarrow> (bool \<times> price_map \<times> stripe_cache) option" where
  \<comment> \<open>\<open>None\<close>: the call raises\<close>
  "set_cache_from_stripe_object mode now ttl loads setting obj s =
     map_option (\<lambda>prices.
       let (plan, p) = fold (\<lambda>price (plan, p). if price = [] then (plan, p) else resolve_plan_from_price_id loads now setting price p)
                         prices (''unknown'', fst s);
           (ok, c) = set_cached_subscription mode now ttl None (so_id obj)
             \<lparr>cs_plan = plan, cs_status = (case so_status obj of Some t \<Rightarrow> t | None \<Rightarrow> ''unknown''),
              cs_customer_id = so_customer obj\<rparr> (snd s)
       in (ok, p, c)) (so_prices obj)"

section \<open>What the cache promises\<close>

text \<open>
  A cached subscription is found as it was stored until it expires and never after: under its own identifier and
  under its customer's.
\<close>

theorem cache_roundtrip:
  assumes "sub \<noteq> []" "0 < ttl_s" "cs_customer_id data = Some customer" "customer \<noteq> []"
  shows "let (ok, c') = set_cached_subscription Up now setting (Some ttl_s) sub data c;
             got = fst (get_cached_subscription Up later sub c');
             by_customer = fst (get_cached_subscription_by_customer Up later customer c')
         in ok \<and> by_customer = got \<and>
            (if later < fadd now (f64 (of_int ttl_s)) then map_option subscription.truncate got = Some data else got = None)"
  using assms
  by (auto simp: set_cached_subscription_def get_cached_subscription_by_customer_def get_cached_subscription_def live_def
      subscription.defs Let_def)

theorem cache_roundtrip_witness:
  "fst (get_cached_subscription Up 200 ''sub_1'' (snd (set_cached_subscription Up 0 None (Some 300) ''sub_1''
     \<lparr>cs_plan = ''pro'', cs_status = ''active'', cs_customer_id = Some ''cus_1''\<rparr>
     \<lparr>sc_subscriptions = \<lambda>k. None, sc_customers = \<lambda>k. None\<rparr>))) \<noteq> None"
proof -
  have "fadd 0 (f64 (of_int 300)) = 300" by (simp add: fadd_def f64_numeral)
  then show ?thesis
    using cache_roundtrip [of "''sub_1''" 300 "\<lparr>cs_plan = ''pro'', cs_status = ''active'', cs_customer_id = Some ''cus_1''\<rparr>"
        "''cus_1''" 0 None "\<lparr>sc_subscriptions = \<lambda>k. None, sc_customers = \<lambda>k. None\<rparr>" 200]
    by (auto simp: Let_def case_prod_beta)
qed

lemma invalidated_customer:
  \<comment> \<open>if the entry of a customer is written and the customer is invalidated at once, neither key is left\<close>
  assumes "0 < get_ttl setting" "now' < fadd now (f64 (of_int (get_ttl setting)))"
    and "cs_customer_id data = Some customer" "customer \<noteq> []" "sub \<noteq> []"
  shows "let c' = snd (invalidate_subscription_cache Up now' None (Some customer)
                        (snd (set_cached_subscription Up now setting None sub data c)))
         in sc_subscriptions c' sub = None \<and> sc_customers c' customer = None"
  using assms by (simp add: set_cached_subscription_def invalidate_subscription_cache_def live_def Let_def)

end
