(* ===== verification/StripeWebhook.thy ===== *)
theory StripeWebhook
  imports Quota PyValue CircuitBreaker StripeIps StripeCache
begin

text \<open>
  Payment events: the webhook of \<open>src/backend/app/billing/invoice_routes.py\<close>, from the limits on requests to the
  handlers that move a company between plans. The payment service's library is an argument: what it makes of the
  body and its signature, and what it answers for a subscription. A request reads the clocks and Redis in phases; each phase has
  its own reading and its own state of the connection. A request that raises rolls its database changes back; Redis,
  the breaker and the module's variables keep theirs.
\<close>

datatype phase = Slot | Rate | Address | Skew | Dedup | Cache | Release

datatype fault = Http_status nat | Crash  \<comment> \<open>an \<open>HTTPException\<close>; any other exception\<close>

record stripe_event =
  ev_id :: string  \<comment> \<open>empty if missing\<close>
  ev_type :: string
  ev_created :: int
  ev_object :: pyval  \<comment> \<open>\<open>event["data"]["object"]\<close>\<close>

datatype construction = Bad_payload | Bad_signature | Event stripe_event
datatype retrieval = Stripe_error | Library_error | Customer pyval  \<comment> \<open>the customer of the subscription\<close>
datatype row_lock = Lock_free | Lock_busy | Lock_error

record webhook_redis =
  wr_concurrent :: "(int \<times> pyfloat) option"
  wr_global :: "int list"
  wr_addresses :: "string \<rightharpoonup> int \<times> pyfloat"
  wr_dedup :: "string \<rightharpoonup> unit \<times> pyfloat"

record billing_state =
  bs_companies :: "company list"
  bs_db :: database
  bs_events :: "(string \<times> string) list"  \<comment> \<open>\<open>stripe_webhook_events\<close>: identifier and type\<close>
  bs_redis :: webhook_redis
  bs_cache :: stripe_cache
  bs_circuit :: "breaker_redis \<times> breaker"
  bs_ips :: ip_cache
  bs_local :: "(string \<times> pyfloat) list"  \<comment> \<open>\<open>_webhook_rate\<close>, in insertion order\<close>

record webhook_env =
  we_redis :: "phase \<Rightarrow> redis_mode"
  we_time :: "phase \<Rightarrow> pyfloat"
  we_client :: string
  we_ip_check :: ip_check
  we_content_length :: "int option option"  \<comment> \<open>no header, or the number it holds, if it is one\<close>
  we_body :: "string list"
  we_max_body :: nat
  we_construct :: "string \<Rightarrow> construction"
  we_tolerance :: int
  we_digest :: "string \<Rightarrow> int \<Rightarrow> string"
  we_advisory :: bool
  we_lock :: row_lock
  we_retrieve :: "string \<Rightarrow> retrieval"
  we_circuit_times :: "pyfloat \<times> pyfloat \<times> int"  \<comment> \<open>the question, a failure, its wall clock\<close>
  we_uuid_text :: "uuid \<Rightarrow> string"
  we_fresh :: uuid
  we_now :: micros
  we_cache_ttl :: "int option"

datatype response = Received | Deduplicated

definition whole :: "pyfloat \<Rightarrow> int" where
  \<comment> \<open>\<open>int(t)\<close> of a time\<close>
  "whole t = \<lfloor>t\<rfloor>"

section \<open>Limits on requests\<close>

definition WEBHOOK_MAX_CONCURRENT :: int where "WEBHOOK_MAX_CONCURRENT = 5"
definition WEBHOOK_RATE_LIMIT :: int where "WEBHOOK_RATE_LIMIT = 60"
definition WEBHOOK_RATE_WINDOW :: int where "WEBHOOK_RATE_WINDOW = 60"
definition webhook_rate_limit :: int where "webhook_rate_limit = 10"
definition webhook_window :: pyfloat where "webhook_window = 60"
definition MAX_WEBHOOK_IPS :: nat where "MAX_WEBHOOK_IPS = 10000"

definition counter :: "pyfloat \<Rightarrow> (int \<times> pyfloat) option \<Rightarrow> int" where
  \<comment> \<open>what \<open>INCR\<close> starts from\<close>
  "counter now c = (case c of Some (n, expiry) \<Rightarrow> if now < expiry then n else 0 | None \<Rightarrow> 0)"

definition acquire_webhook_slot :: "redis_mode \<Rightarrow> pyfloat \<Rightarrow> webhook_redis \<Rightarrow> (fault + unit) \<times> webhook_redis" where
  "acquire_webhook_slot mode now r =
     (if mode \<noteq> Up then (Inr (), r)
      else
        let count = counter now (wr_concurrent r) + 1; expiry = fadd now 30 in
        if WEBHOOK_MAX_CONCURRENT < count then (Inl (Http_status 429), r\<lparr>wr_concurrent := Some (count - 1, expiry)\<rparr>)
        else (Inr (), r\<lparr>wr_concurrent := Some (count, expiry)\<rparr>))"

definition release_webhook_slot :: "redis_mode \<Rightarrow> pyfloat \<Rightarrow> webhook_redis \<Rightarrow> webhook_redis" where
  "release_webhook_slot mode now r =
     (if mode \<noteq> Up then r
      else case wr_concurrent r of
        Some (n, expiry) \<Rightarrow> r\<lparr>wr_concurrent := if now < expiry \<and> 1 < n then Some (n - 1, expiry) else None\<rparr>
      | None \<Rightarrow> r)"

definition check_global_webhook_rate :: "redis_mode \<Rightarrow> pyfloat \<Rightarrow> webhook_redis \<Rightarrow> (fault + unit) \<times> webhook_redis" where
  \<comment> \<open>the sorted set: each member is the text of its score, so a second that is there already is not added again;
      its expiry never removes what the next request would keep\<close>
  "check_global_webhook_rate mode now r =
     (if mode \<noteq> Up then (Inr (), r)
      else
        let now_ts = whole now;
            kept = filter (\<lambda>score. \<not> (0 \<le> score \<and> score \<le> now_ts - WEBHOOK_RATE_WINDOW)) (wr_global r) in
        if WEBHOOK_RATE_LIMIT \<le> int (length kept) then (Inl (Http_status 429), r\<lparr>wr_global := kept\<rparr>)
        else (Inr (), r\<lparr>wr_global := if now_ts \<in> set kept then kept else kept @ [now_ts]\<rparr>))"

definition check_webhook_rate_local :: "pyfloat \<Rightarrow> string \<Rightarrow> (string \<times> pyfloat) list \<Rightarrow> (fault + unit) \<times> (string \<times> pyfloat) list" where
  "check_webhook_rate_local now ip rate =
     (let cutoff = fsub now webhook_window;
          rate1 = filter (\<lambda>(k, ts). \<not> ts < cutoff) rate;
          count = int (length (filter (\<lambda>(k, ts). cutoff < ts) rate1)) in
      if webhook_rate_limit \<le> count then (Inl (Http_status 429), rate1)
      else
        let rate2 = AList.update ip now rate1 in
        (Inr (), if MAX_WEBHOOK_IPS < length rate2 then tl rate2 else rate2))"

definition check_webhook_rate ::
    "redis_mode \<Rightarrow> pyfloat \<Rightarrow> string \<Rightarrow> webhook_redis \<times> (string \<times> pyfloat) list \<Rightarrow>
     (fault + unit) \<times> webhook_redis \<times> (string \<times> pyfloat) list" where
  "check_webhook_rate mode now ip = (\<lambda>(r, rate).
     (if mode = Up
      then
        let count = counter now (wr_addresses r ip) in
        if webhook_rate_limit \<le> count then (Inl (Http_status 429), r, rate)
        else (Inr (), r\<lparr>wr_addresses := (wr_addresses r)(ip \<mapsto> (count + 1, fadd now webhook_window))\<rparr>, rate)
      else case check_webhook_rate_local now ip rate of (res, rate') \<Rightarrow> (res, r, rate')))"

section \<open>Admission of an event\<close>

definition admit_sender :: "webhook_env \<Rightarrow> billing_state \<Rightarrow> (fault + unit) \<times> billing_state" where
  \<comment> \<open>\<open>_validate_stripe_ip\<close>; only senders that fail it are counted\<close>
  "admit_sender env s =
     (case validate_stripe_ip (we_ip_check env) (we_client env) (bs_ips s) of
        (True, ips) \<Rightarrow> (Inr (), s\<lparr>bs_ips := ips\<rparr>)
      | (False, ips) \<Rightarrow>
          let (res, r, rate) = check_webhook_rate (we_redis env Address) (we_time env Address) (we_client env) (bs_redis s, bs_local s);
              s1 = s\<lparr>bs_ips := ips, bs_redis := r, bs_local := rate\<rparr>
          in (case res of Inl e \<Rightarrow> Inl e | Inr _ \<Rightarrow> Inl (Http_status 403), s1))"

fun read_stream :: "nat \<Rightarrow> string \<Rightarrow> string list \<Rightarrow> string option" where
  \<comment> \<open>\<open>None\<close>: more than the limit was read\<close>
  "read_stream limit payload [] = Some payload"
| "read_stream limit payload (chunk # chunks) =
     (if limit < length (payload @ chunk) then None else read_stream limit (payload @ chunk) chunks)"

definition read_event :: "webhook_env \<Rightarrow> fault + stripe_event" where
  "read_event env =
     try_then
       (case we_content_length env of
          Some None \<Rightarrow> Inl Crash
        | Some (Some n) \<Rightarrow> if int (we_max_body env) < n then Inl (Http_status 413) else Inr ()
        | None \<Rightarrow> Inr ())
     (\<lambda>_. case read_stream (we_max_body env) [] (we_body env) of
       None \<Rightarrow> Inl (Http_status 413)
     | Some payload \<Rightarrow>
         (case we_construct env payload of
            Event ev \<Rightarrow> if we_tolerance env < \<bar>ev_created ev - whole (we_time env Skew)\<bar> then Inl (Http_status 400) else Inr ev
          | _ \<Rightarrow> Inl (Http_status 400)))"

definition effective_event_id :: "webhook_env \<Rightarrow> stripe_event \<Rightarrow> string" where
  "effective_event_id env ev = (if ev_id ev \<noteq> [] then ev_id ev else we_digest env (ev_type ev) (ev_created ev))"

definition deduplicate :: "webhook_env \<Rightarrow> stripe_event \<Rightarrow> billing_state \<Rightarrow> (fault + bool) \<times> billing_state" where
  \<comment> \<open>the row of the event, its key in Redis, and the advisory lock; the answer says whether it is a duplicate\<close>
  "deduplicate env ev s =
     (let eid = effective_event_id env ev; now = we_time env Dedup;
          locked = (\<lambda>s. (if we_advisory env then Inr False else Inl (Http_status 409), s)) in
      if eid \<in> fst ` set (bs_events s) then (Inr True, s)
      else
        let s1 = s\<lparr>bs_events := bs_events s @ [(eid, ev_type ev)]\<rparr> in
        if we_redis env Dedup \<noteq> Up then locked s1
        else if live now (wr_dedup (bs_redis s1)) eid \<noteq> None then (Inr True, s1)
        else locked (s1\<lparr>bs_redis := (bs_redis s1)\<lparr>wr_dedup := (wr_dedup (bs_redis s1))(eid \<mapsto> ((), fadd now 604800))\<rparr>\<rparr>))"

section \<open>Handlers\<close>

definition get_field :: "pyval \<Rightarrow> string \<Rightarrow> pyval \<Rightarrow> fault + pyval" where
  "get_field obj k dflt = (case val_get obj k dflt of Inr v \<Rightarrow> Inr v | Inl e \<Rightarrow> Inl Crash)"

definition ident :: "pyval \<Rightarrow> fault + string" where
  \<comment> \<open>a value bound to a text column\<close>
  "ident v = (case v of VStr t \<Rightarrow> Inr t | _ \<Rightarrow> Inl Crash)"

definition required :: "pyval \<Rightarrow> fault + string" where
  "required v = (if truthy v then ident v else Inl (Http_status 400))"

definition companies_of :: "string \<Rightarrow> billing_state \<Rightarrow> company list" where
  "companies_of customer s = filter (\<lambda>c. co_stripe_customer_id c = Some customer) (bs_companies s)"

definition scalar_one_or_none :: "'a list \<Rightarrow> fault + 'a option" where
  "scalar_one_or_none rows = (case rows of [] \<Rightarrow> Inr None | [r] \<Rightarrow> Inr (Some r) | _ \<Rightarrow> Inl Crash)"

definition lock_company :: "webhook_env \<Rightarrow> string \<Rightarrow> billing_state \<Rightarrow> fault + company" where
  \<comment> \<open>the company of a customer, locked without waiting; no company is a refusal\<close>
  "lock_company env customer s =
     (let rows = companies_of customer s in
      if we_lock env = Lock_error then Inl Crash
      else if we_lock env = Lock_busy \<and> rows \<noteq> [] then Inl (Http_status 409)
      else try_then (scalar_one_or_none rows) (\<lambda>c. case c of Some c \<Rightarrow> Inr c | None \<Rightarrow> Inl (Http_status 400)))"

definition same_company :: "webhook_env \<Rightarrow> pyval \<Rightarrow> company \<Rightarrow> fault + unit" where
  \<comment> \<open>the company named in the event's metadata, if any\<close>
  "same_company env named c =
     (if truthy named \<and> named \<noteq> VStr (we_uuid_text env (co_id c)) then Inl (Http_status 400) else Inr ())"

definition change_company :: "uuid \<Rightarrow> (company \<Rightarrow> company) \<Rightarrow> billing_state \<Rightarrow> billing_state" where
  "change_company i f s = s\<lparr>bs_companies := modify_by co_id i f (bs_companies s)\<rparr>"

definition with_account_row :: "webhook_env \<Rightarrow> uuid \<Rightarrow> string \<Rightarrow> (billing_account \<Rightarrow> billing_account) \<Rightarrow> billing_state \<Rightarrow> billing_state" where
  \<comment> \<open>\<open>get_or_create_account\<close>, and changes to the row\<close>
  "with_account_row env i plan f s =
     s\<lparr>bs_db := change_account i f (get_or_create_account (we_fresh env) (we_now env) i plan (bs_db s))\<rparr>"

definition forget_subscription :: "webhook_env \<Rightarrow> string option \<Rightarrow> string option \<Rightarrow> billing_state \<Rightarrow> billing_state" where
  "forget_subscription env sub customer s =
     s\<lparr>bs_cache := snd (invalidate_subscription_cache (we_redis env Cache) (we_time env Cache) sub customer (bs_cache s))\<rparr>"

definition verify_subscription :: "webhook_env \<Rightarrow> string \<Rightarrow> string \<Rightarrow> billing_state \<Rightarrow> (fault + unit) \<times> billing_state" where
  "verify_subscription env customer sub s =
     (case (we_circuit_times env, bs_circuit s) of ((ask, fail, wall), (redis, b)) \<Rightarrow>
        case is_available ask redis b of (ok, b1) \<Rightarrow>
          if \<not> ok then (Inl (Http_status 502), s\<lparr>bs_circuit := (redis, b1)\<rparr>)
          else case we_retrieve env sub of
            Stripe_error \<Rightarrow> (case record_failure fail wall redis b1 of (b2, r2) \<Rightarrow> (Inl (Http_status 502), s\<lparr>bs_circuit := (r2, b2)\<rparr>))
          | Library_error \<Rightarrow> (Inl Crash, s\<lparr>bs_circuit := (redis, b1)\<rparr>)
          | Customer c \<Rightarrow>
              (case record_success redis b1 of (b2, r2) \<Rightarrow>
                 (if c = VStr customer then Inr () else Inl (Http_status 400), s\<lparr>bs_circuit := (r2, b2)\<rparr>)))"

definition check_period :: "webhook_env \<Rightarrow> stripe_event \<Rightarrow> string \<Rightarrow> billing_state \<Rightarrow> (fault + unit) \<times> billing_state" where
  "check_period env ev customer s =
     (if ev_created ev = 0 then (Inr (), s)
      else case companies_of customer s of
        [] \<Rightarrow> (Inr (), s)
      | [c] \<Rightarrow>
          let s1 = with_account_row env (co_id c) (co_subscription_plan c) id s in
          (case account_of (bs_db s1) (co_id c) of
             Some a \<Rightarrow> (case ba_billing_period_start a of
                         Some t \<Rightarrow> if seconds (ev_created ev) < t then Inl (Http_status 400) else Inr () | None \<Rightarrow> Inr ())
           | None \<Rightarrow> Inr (), s1)
      | _ \<Rightarrow> (Inl Crash, s))"

definition tier_or_pro :: "string \<Rightarrow> plan_tier" where
  \<comment> \<open>\<open>PLAN_TIERS.get(plan, PLAN_TIERS["pro"])\<close>\<close>
  "tier_or_pro plan = (case map_of PLAN_TIERS plan of Some t \<Rightarrow> t | None \<Rightarrow> the (map_of PLAN_TIERS ''pro''))"

fun sub_text :: "pyval \<Rightarrow> string option" where
  \<comment> \<open>the identifier in a key of the cache, if it is not false\<close>
  "sub_text (VStr t) = Some t"
| "sub_text _ = None"

definition metadata_field :: "pyval \<Rightarrow> string \<Rightarrow> pyval \<Rightarrow> fault + pyval" where
  "metadata_field obj k dflt = try_then (get_field obj ''metadata'' (VDict [])) (\<lambda>m. get_field m k dflt)"

definition apply_upgrade :: "webhook_env \<Rightarrow> company \<Rightarrow> string \<Rightarrow> string \<Rightarrow> string \<Rightarrow> billing_state \<Rightarrow> billing_state" where
  "apply_upgrade env c customer sub plan s =
     (let s1 = change_company (co_id c) (\<lambda>c. c\<lparr>co_subscription_plan := plan, co_stripe_customer_id := Some customer,
                 co_stripe_subscription_id := Some sub\<rparr>) s;
          s2 = with_account_row env (co_id c) plan
                 (\<lambda>a. a\<lparr>ba_plan := plan, ba_monthly_quota_acu := quota_acu (tier_or_pro plan)\<rparr>) s1;
          s3 = s2\<lparr>bs_cache := snd (set_cached_subscription (we_redis env Cache) (we_time env Cache) (we_cache_ttl env) None sub
                 \<lparr>cs_plan = plan, cs_status = ''active'', cs_customer_id = Some customer\<rparr> (bs_cache s2))\<rparr>
      in forget_subscription env None (Some customer) s3)"

definition checkout_completed :: "webhook_env \<Rightarrow> stripe_event \<Rightarrow> billing_state \<Rightarrow> (fault + response) \<times> billing_state" where
  "checkout_completed env ev s =
     and_then (metadata_field (ev_object ev) ''company_id'' VNone, s) (\<lambda>named s.
     and_then (get_field (ev_object ev) ''customer'' VNone, s) (\<lambda>customer_v s.
     and_then (get_field (ev_object ev) ''subscription'' VNone, s) (\<lambda>sub_v s.
     and_then (metadata_field (ev_object ev) ''plan'' (VStr ''pro''), s) (\<lambda>plan_v s.
     and_then (required customer_v, s) (\<lambda>customer s.
     and_then (required sub_v, s) (\<lambda>sub s.
     and_then (verify_subscription env customer sub s) (\<lambda>_ s.
     and_then (check_period env ev customer s) (\<lambda>_ s.
     and_then (lock_company env customer s, s) (\<lambda>c s.
     and_then (same_company env named c, s) (\<lambda>_ s.
     and_then (ident plan_v, s) (\<lambda>plan s.
       (Inr Received, apply_upgrade env c customer sub plan s))))))))))))"

definition apply_downgrade :: "webhook_env \<Rightarrow> company \<Rightarrow> string \<Rightarrow> pyval \<Rightarrow> billing_state \<Rightarrow> billing_state" where
  "apply_downgrade env c customer sub s =
     (let s1 = change_company (co_id c) (\<lambda>c. c\<lparr>co_subscription_plan := ''free'', co_stripe_subscription_id := None\<rparr>) s;
          s2 = with_account_row env (co_id c) ''free''
                 (\<lambda>a. a\<lparr>ba_plan := ''free'', ba_monthly_quota_acu := quota_acu (tier_of ''free'')\<rparr>) s1
      in forget_subscription env (sub_text sub) (Some customer) s2)"

definition subscription_deleted :: "webhook_env \<Rightarrow> stripe_event \<Rightarrow> billing_state \<Rightarrow> (fault + response) \<times> billing_state" where
  "subscription_deleted env ev s =
     and_then (get_field (ev_object ev) ''customer'' VNone, s) (\<lambda>customer_v s.
     and_then (get_field (ev_object ev) ''id'' VNone, s) (\<lambda>sub_v s.
     and_then (metadata_field (ev_object ev) ''company_id'' VNone, s) (\<lambda>named s.
     and_then (required customer_v, s) (\<lambda>customer s.
     and_then (if truthy sub_v then Inr () else Inl (Http_status 400), s) (\<lambda>_ s.
     and_then (lock_company env customer s, s) (\<lambda>c s.
     and_then (same_company env named c, s) (\<lambda>_ s.
     and_then (case co_stripe_subscription_id c of
                 Some stored \<Rightarrow> if stored \<noteq> [] \<and> VStr stored \<noteq> sub_v then Inl (Http_status 400) else Inr ()
               | None \<Rightarrow> Inr (), s) (\<lambda>_ s.
       (Inr Received, apply_downgrade env c customer sub_v s)))))))))"

definition payment_fields :: "stripe_event \<Rightarrow> fault + (string \<times> pyval)" where
  \<comment> \<open>the customer and the subscription of an invoice\<close>
  "payment_fields ev =
     try_then (get_field (ev_object ev) ''customer'' VNone) (\<lambda>customer_v.
     try_then (get_field (ev_object ev) ''subscription'' VNone) (\<lambda>sub_v.
     try_then (required customer_v) (\<lambda>customer. Inr (customer, sub_v))))"

definition payment_failed :: "webhook_env \<Rightarrow> stripe_event \<Rightarrow> billing_state \<Rightarrow> (fault + response) \<times> billing_state" where
  "payment_failed env ev s =
     and_then (payment_fields ev, s) (\<lambda>(customer, sub) s.
     and_then (lock_company env customer s, s) (\<lambda>c s.
       let s1 = with_account_row env (co_id c) (co_subscription_plan c)
                  (\<lambda>a. a\<lparr>ba_ai_disabled := True, ba_ai_disabled_reason := Some ''payment_failed''\<rparr>) s
       in (Inr Received, forget_subscription env (sub_text sub) (Some customer) s1)))"

definition payment_succeeded :: "webhook_env \<Rightarrow> stripe_event \<Rightarrow> billing_state \<Rightarrow> (fault + response) \<times> billing_state" where
  "payment_succeeded env ev s =
     and_then (payment_fields ev, s) (\<lambda>(customer, sub) s.
     and_then (lock_company env customer s, s) (\<lambda>c s.
       let s1 = with_account_row env (co_id c) (co_subscription_plan c)
                  (\<lambda>a. if ba_ai_disabled a \<and> ba_ai_disabled_reason a = Some ''payment_failed''
                        then a\<lparr>ba_ai_disabled := False, ba_ai_disabled_reason := None\<rparr> else a) s
       in (Inr Received, forget_subscription env (sub_text sub) (Some customer) s1)))"

definition handle_event :: "webhook_env \<Rightarrow> stripe_event \<Rightarrow> billing_state \<Rightarrow> (fault + response) \<times> billing_state" where
  "handle_event env ev s =
     (if ev_type ev = ''checkout.session.completed'' then checkout_completed env ev s
      else if ev_type ev = ''customer.subscription.deleted'' then subscription_deleted env ev s
      else if ev_type ev = ''invoice.payment_failed'' then payment_failed env ev s
      else if ev_type ev = ''invoice.payment_succeeded'' then payment_succeeded env ev s
      else (Inr Received, s))"

section \<open>The webhook\<close>

definition process_webhook :: "webhook_env \<Rightarrow> billing_state \<Rightarrow> (fault + response) \<times> billing_state" where
  "process_webhook env s =
     and_then (case check_global_webhook_rate (we_redis env Rate) (we_time env Rate) (bs_redis s) of
                 (res, r) \<Rightarrow> (res, s\<lparr>bs_redis := r\<rparr>)) (\<lambda>_ s.
     and_then (admit_sender env s) (\<lambda>_ s.
     and_then (read_event env, s) (\<lambda>ev s.
     and_then (deduplicate env ev s) (\<lambda>duplicate s.
       if duplicate then (Inr Deduplicated, s) else handle_event env ev s))))"

definition roll_back :: "billing_state \<Rightarrow> billing_state \<Rightarrow> billing_state" where
  \<comment> \<open>the session is rolled back to \<open>s\<close>\<close>
  "roll_back s s' = s'\<lparr>bs_companies := bs_companies s, bs_db := bs_db s, bs_events := bs_events s\<rparr>"

definition stripe_webhook :: "webhook_env \<Rightarrow> billing_state \<Rightarrow> (fault + response) \<times> billing_state" where
  "stripe_webhook env s =
     (case acquire_webhook_slot (we_redis env Slot) (we_time env Slot) (bs_redis s) of
        (Inl e, r) \<Rightarrow> (Inl e, s\<lparr>bs_redis := r\<rparr>)
      | (Inr _, r) \<Rightarrow>
          case process_webhook env (s\<lparr>bs_redis := r\<rparr>) of
            (res, s1) \<Rightarrow>
              let s2 = (case res of Inl _ \<Rightarrow> roll_back s s1 | Inr _ \<Rightarrow> s1) in
              (case res of Inl Crash \<Rightarrow> Inl (Http_status 503) | _ \<Rightarrow> res,
               s2\<lparr>bs_redis := release_webhook_slot (we_redis env Release) (we_time env Release) (bs_redis s2)\<rparr>))"

fun webhooks :: "webhook_env list \<Rightarrow> billing_state \<Rightarrow> (fault + response) list \<times> billing_state" where
  "webhooks [] s = ([], s)"
| "webhooks (env # envs) s =
     (case stripe_webhook env s of (res, s1) \<Rightarrow> case webhooks envs s1 of (rs, s2) \<Rightarrow> (res # rs, s2))"

section \<open>Shape of a run\<close>

definition same_tables :: "billing_state \<Rightarrow> billing_state \<Rightarrow> bool" where
  "same_tables s s' \<longleftrightarrow> bs_companies s' = bs_companies s \<and> bs_db s' = bs_db s"

lemma check_webhook_rate_dedup:
  "check_webhook_rate mode now ip (r, rate) = (res, r', rate') \<Longrightarrow> wr_dedup r' = wr_dedup r"
  by (auto simp: check_webhook_rate_def Let_def split: prod.splits if_splits)

lemma admit_sender_parts:
  assumes "admit_sender env s = (r, s')"
  shows "same_tables s s'" "bs_events s' = bs_events s" "bs_cache s' = bs_cache s" "wr_dedup (bs_redis s') = wr_dedup (bs_redis s)"
    "r = Inr () \<Longrightarrow> fst (validate_stripe_ip (we_ip_check env) (we_client env) (bs_ips s))"
proof -
  obtain ok ips where v: "validate_stripe_ip (we_ip_check env) (we_client env) (bs_ips s) = (ok, ips)" by fastforce
  obtain res r1 rate where c: "check_webhook_rate (we_redis env Address) (we_time env Address) (we_client env) (bs_redis s, bs_local s)
      = (res, r1, rate)" by (metis prod_cases3)
  have s': "s' = (if ok then s\<lparr>bs_ips := ips\<rparr> else s\<lparr>bs_ips := ips, bs_redis := r1, bs_local := rate\<rparr>)"
    and r: "\<not> ok \<Longrightarrow> \<exists>e. r = Inl e"
    using assms v c by (cases ok; cases res; auto simp: admit_sender_def)+
  show "same_tables s s'" "bs_events s' = bs_events s" "bs_cache s' = bs_cache s" "wr_dedup (bs_redis s') = wr_dedup (bs_redis s)"
    using check_webhook_rate_dedup [OF c] by (simp_all add: s' same_tables_def)
  show "r = Inr () \<Longrightarrow> fst (validate_stripe_ip (we_ip_check env) (we_client env) (bs_ips s))"
    using r v by (cases ok) auto
qed

lemma rate_parts: "wr_dedup (snd (check_global_webhook_rate mode now r)) = wr_dedup r"
  "wr_dedup (snd (acquire_webhook_slot mode now r)) = wr_dedup r"
  "wr_dedup (release_webhook_slot mode now r) = wr_dedup r"
  by (auto simp: check_global_webhook_rate_def acquire_webhook_slot_def release_webhook_slot_def Let_def split: option.split)

lemma deduplicate_parts:
  assumes "deduplicate env ev s = (r, s')"
  shows "same_tables s s'" "bs_cache s' = bs_cache s"
    "r = Inr False \<Longrightarrow> effective_event_id env ev \<in> fst ` set (bs_events s') \<and> effective_event_id env ev \<notin> fst ` set (bs_events s)"
  using assms by (auto simp: deduplicate_def same_tables_def Let_def split: if_splits)

text \<open>
  The event reaches its handler with the tables as they were, or the request leaves companies and accounts alone.
\<close>

lemma stripe_webhook_cases:
  assumes run: "stripe_webhook env s = (r, s')"
  obtains (refused) e where "r = Inl e" "same_tables s s'" "bs_events s' = bs_events s"
  | (duplicate) ev s0 s1 where "r = Inr Deduplicated" "same_tables s s'" "read_event env = Inr ev" "bs_events s0 = bs_events s"
      "wr_dedup (bs_redis s0) = wr_dedup (bs_redis s)" "deduplicate env ev s0 = (Inr True, s1)" "bs_events s' = bs_events s1"
  | (handled) ev s0 s1 s2 where "read_event env = Inr ev" "same_tables s s0" "bs_events s0 = bs_events s" "bs_cache s0 = bs_cache s"
      "wr_dedup (bs_redis s0) = wr_dedup (bs_redis s)" "fst (validate_stripe_ip (we_ip_check env) (we_client env) (bs_ips s))"
      "deduplicate env ev s0 = (Inr False, s1)" "handle_event env ev s1 = (r, s2)" "\<exists>x. r = Inr x"
      "same_tables s2 s'" "bs_events s' = bs_events s2" "bs_cache s' = bs_cache s2"
proof -
  obtain a r0 where slot: "acquire_webhook_slot (we_redis env Slot) (we_time env Slot) (bs_redis s) = (a, r0)" by fastforce
  show thesis
  proof (cases a)
    case (Inl e)
    with run slot refused show thesis by (auto simp: stripe_webhook_def same_tables_def)
  next
    case (Inr u)
    let ?s = "s\<lparr>bs_redis := r0\<rparr>"
    have d0: "wr_dedup r0 = wr_dedup (bs_redis s)" using rate_parts(2) slot by (metis snd_conv)
    obtain p s3 where p: "process_webhook env ?s = (p, s3)" by fastforce
    show thesis
    proof (cases p)
      case (Inl e)
      with run slot Inr p have "\<exists>e. r = Inl e" "same_tables s s'" "bs_events s' = bs_events s"
        by (cases e; auto simp: stripe_webhook_def same_tables_def roll_back_def Let_def)+
      then show thesis using refused by blast
    next
      case ok: (Inr x)
      have s': "r = Inr x" "same_tables s3 s'" "bs_events s' = bs_events s3" "bs_cache s' = bs_cache s3"
        using run slot Inr p ok by (auto simp: stripe_webhook_def same_tables_def Let_def)
      from p ok obtain r4 s4 s5 ev s6 duplicate where
        rate: "check_global_webhook_rate (we_redis env Rate) (we_time env Rate) r0 = (Inr (), r4)" and
        s4: "s4 = ?s\<lparr>bs_redis := r4\<rparr>" and admit: "admit_sender env s4 = (Inr (), s5)" and ev: "read_event env = Inr ev" and
        dd: "deduplicate env ev s5 = (Inr duplicate, s6)" and
        rest: "(if duplicate then (Inr Deduplicated, s6) else handle_event env ev s6) = (Inr x, s3)"
        by (cases "check_global_webhook_rate (we_redis env Rate) (we_time env Rate) r0") (auto simp: process_webhook_def and_then_Inr)
      have d5: "wr_dedup (bs_redis s5) = wr_dedup (bs_redis s)"
        using admit_sender_parts(4) [OF admit] rate_parts(1) [of "we_redis env Rate" "we_time env Rate" r0] rate s4 d0 by simp
      have t: "same_tables s s5" "bs_events s5 = bs_events s" "bs_cache s5 = bs_cache s"
        using admit_sender_parts(1-3) [OF admit] s4 by (auto simp: same_tables_def)
      show thesis
      proof (cases duplicate)
        case True
        with dd rest s' have "r = Inr Deduplicated" "same_tables s s'" "bs_events s' = bs_events s6" "deduplicate env ev s5 = (Inr True, s6)"
          using t deduplicate_parts(1) [OF dd] by (auto simp: same_tables_def)
        with ev t d5 show thesis by (intro duplicate) auto
      next
        case False
        have "fst (validate_stripe_ip (we_ip_check env) (we_client env) (bs_ips s))"
          using admit_sender_parts(5) [OF admit] s4 by simp
        with False dd rest s' ev t d5 show thesis by (intro handled [of ev s5 s6 s3]) (auto simp: same_tables_def)
      qed
    qed
  qed
qed

section \<open>What handlers leave alone\<close>

lemma and_then_keeps:
  "g (snd step) = g s \<Longrightarrow> (\<And>a s1. step = (Inr a, s1) \<Longrightarrow> g s1 = g s \<Longrightarrow> g (snd (f a s1)) = g s) \<Longrightarrow> g (snd (and_then step f)) = g s"
  by (cases step; cases "fst step") auto

lemma handler_frames [simp]:
  "bs_events (change_company i f s) = bs_events s" "bs_redis (change_company i f s) = bs_redis s"
  "bs_db (change_company i f s) = bs_db s"
  "bs_events (with_account_row env i p h s) = bs_events s" "bs_redis (with_account_row env i p h s) = bs_redis s"
  "bs_companies (with_account_row env i p h s) = bs_companies s"
  "bs_events (forget_subscription env u k s) = bs_events s" "bs_redis (forget_subscription env u k s) = bs_redis s"
  "bs_companies (forget_subscription env u k s) = bs_companies s" "bs_db (forget_subscription env u k s) = bs_db s"
  by (simp_all add: change_company_def with_account_row_def forget_subscription_def)

lemma upgrade_frames [simp]:
  "bs_events (apply_upgrade env c k u plan s) = bs_events s" "bs_redis (apply_upgrade env c k u plan s) = bs_redis s"
  "bs_events (apply_downgrade env c k v s) = bs_events s" "bs_redis (apply_downgrade env c k v s) = bs_redis s"
  by (simp_all add: apply_upgrade_def apply_downgrade_def Let_def)

lemma verify_parts:
  "bs_events (snd (verify_subscription env k u s)) = bs_events s" "bs_redis (snd (verify_subscription env k u s)) = bs_redis s"
  "bs_companies (snd (verify_subscription env k u s)) = bs_companies s" "bs_db (snd (verify_subscription env k u s)) = bs_db s"
proof -
  obtain ask fail wall where t: "we_circuit_times env = (ask, fail, wall)" by (metis prod_cases3)
  obtain redis b where c: "bs_circuit s = (redis, b)" by fastforce
  obtain ok b1 where a: "is_available ask redis b = (ok, b1)" by fastforce
  have "\<exists>x. snd (verify_subscription env k u s) = s\<lparr>bs_circuit := x\<rparr>"
    unfolding verify_subscription_def t c prod.case a
    by (cases ok; cases "we_retrieve env u"; cases "record_failure fail wall redis b1"; cases "record_success redis b1") auto
  then show "bs_events (snd (verify_subscription env k u s)) = bs_events s" "bs_redis (snd (verify_subscription env k u s)) = bs_redis s"
    "bs_companies (snd (verify_subscription env k u s)) = bs_companies s" "bs_db (snd (verify_subscription env k u s)) = bs_db s"
    by auto
qed

lemma period_parts:
  "bs_events (snd (check_period env ev k s)) = bs_events s" "bs_redis (snd (check_period env ev k s)) = bs_redis s"
  "bs_companies (snd (check_period env ev k s)) = bs_companies s"
  by (auto simp: check_period_def Let_def split: list.split option.split)

lemma checkout_frame: "bs_events (snd (checkout_completed env ev s)) = bs_events s" "bs_redis (snd (checkout_completed env ev s)) = bs_redis s"
  unfolding checkout_completed_def Let_def
  by ((rule and_then_keeps, simp add: verify_parts period_parts)+; simp)+

lemma deleted_frame: "bs_events (snd (subscription_deleted env ev s)) = bs_events s" "bs_redis (snd (subscription_deleted env ev s)) = bs_redis s"
  unfolding subscription_deleted_def Let_def by ((rule and_then_keeps, simp)+; simp)+

lemma payment_frame: "bs_events (snd (payment_failed env ev s)) = bs_events s" "bs_redis (snd (payment_failed env ev s)) = bs_redis s"
  "bs_events (snd (payment_succeeded env ev s)) = bs_events s" "bs_redis (snd (payment_succeeded env ev s)) = bs_redis s"
  unfolding payment_failed_def payment_succeeded_def Let_def case_prod_beta by ((rule and_then_keeps, simp)+; simp)+

lemma handle_event_frame: "bs_events (snd (handle_event env ev s)) = bs_events s" "bs_redis (snd (handle_event env ev s)) = bs_redis s"
  by (simp_all add: handle_event_def checkout_frame deleted_frame payment_frame)

lemma deduplicate_events: "fst ` set (bs_events s) \<subseteq> fst ` set (bs_events (snd (deduplicate env ev s)))"
  by (auto simp: deduplicate_def Let_def)

lemma stripe_webhook_events:
  assumes "stripe_webhook env s = (r, s')"
  shows "fst ` set (bs_events s) \<subseteq> fst ` set (bs_events s')"
  using assms
proof (cases rule: stripe_webhook_cases)
  case (duplicate ev s0 s1)
  with deduplicate_events [of s0 env ev] show ?thesis by simp
next
  case (handled ev s0 s1 s2)
  with deduplicate_events [of s0 env ev] handle_event_frame(1) [of env ev s1] show ?thesis by simp
qed simp

lemma webhooks_events: "webhooks envs s = (rs, s') \<Longrightarrow> fst ` set (bs_events s) \<subseteq> fst ` set (bs_events s')"
proof (induction envs arbitrary: s rs)
  case (Cons env envs)
  then obtain r s1 rs1 where "stripe_webhook env s = (r, s1)" "webhooks envs s1 = (rs1, s')" by (auto split: prod.splits)
  then show ?case using subset_trans [OF stripe_webhook_events Cons.IH] by blast
qed simp

section \<open>Upgrades\<close>

lemma lock_company_Inr: "lock_company env k s = Inr c \<Longrightarrow> companies_of k s = [c]"
  by (auto simp: lock_company_def scalar_one_or_none_def try_then_iff Let_def split: if_splits list.splits option.splits)

lemma and_then_isl:
  assumes "bs_companies (snd step) = bs_companies s0"
    and "\<And>a s1. step = (Inr a, s1) \<Longrightarrow> bs_companies s1 = bs_companies s0 \<Longrightarrow> isl (fst (f a s1))"
  shows "isl (fst (and_then step f))"
  using assms by (cases step; cases "fst step") auto

lemma customer_needed:
  assumes "handle_event env ev s = (Inr x, s')" "\<forall>k. companies_of k s = []"
  shows "same_tables s s'"
proof -
  have none: "lock_company env k s1 \<noteq> Inr c" if "bs_companies s1 = bs_companies s" for k s1 c
    using assms(2) lock_company_Inr [of env k s1 c] that by (auto simp: companies_of_def)
  have "isl (fst (checkout_completed env ev s))"
    unfolding checkout_completed_def Let_def
    by ((rule and_then_isl [where ?s0.0 = s], simp add: verify_parts period_parts)+; simp add: none)
  moreover have "isl (fst (subscription_deleted env ev s))"
    unfolding subscription_deleted_def Let_def by ((rule and_then_isl [where ?s0.0 = s], simp)+; simp add: none)
  moreover have "isl (fst (payment_failed env ev s))" "isl (fst (payment_succeeded env ev s))"
    unfolding payment_failed_def payment_succeeded_def Let_def case_prod_beta
    by ((rule and_then_isl [where ?s0.0 = s], simp)+; simp add: none)+
  ultimately show ?thesis using assms(1) by (auto simp: handle_event_def same_tables_def split: if_splits)
qed

text \<open>
  C6. Nobody is ever upgraded by a payment: as long as no company has a customer number of the payment service,
  and the program writes that number nowhere but here, no sequence of events changes any company or account, whatever
  was paid for: the handler looks the company up by the number that it is about to store.
\<close>

theorem nobody_is_upgraded:
  assumes "list_all (\<lambda>c. co_stripe_customer_id c = None) (bs_companies s)" "webhooks envs s = (rs, s')"
  shows "same_tables s s'"
  using assms
proof (induction envs arbitrary: s rs)
  case (Cons env envs)
  obtain r s1 rs1 where run: "stripe_webhook env s = (r, s1)" "webhooks envs s1 = (rs1, s')"
    using Cons.prems(2) by (auto split: prod.splits)
  have none: "companies_of k s2 = []" if "bs_companies s2 = bs_companies s" for k s2
    using Cons.prems(1) that by (auto simp: companies_of_def list_all_iff filter_empty_conv)
  from run(1) have "same_tables s s1"
  proof (cases rule: stripe_webhook_cases)
    case (handled ev s0 s3 s2)
    have "same_tables s s3" using handled deduplicate_parts(1) [OF handled(7)] by (simp add: same_tables_def)
    moreover obtain x where "handle_event env ev s3 = (Inr x, s2)" using handled(8,9) by auto
    then have "same_tables s3 s2" by (rule customer_needed) (use none [of s3] calculation in \<open>simp add: same_tables_def\<close>)
    ultimately show ?thesis using handled by (simp add: same_tables_def)
  qed
  with Cons.IH [of s1 rs1] Cons.prems(1) run(2) show ?case by (simp add: same_tables_def)
qed (simp add: same_tables_def)

section \<open>Deliveries of the same event\<close>

text \<open>
  C14. An event is applied once: after a delivery that was handled, a further delivery of the same event changes no
  company and no account, however many other events came between, whether Redis works, has lost its keys or is gone.
\<close>

theorem event_applied_once:
  assumes "stripe_webhook env s = (Inr Received, s1)" "webhooks envs s1 = (rs, s2)"
    and "read_event env = Inr ev" "read_event env' = Inr ev" "ev_id ev \<noteq> []"
  shows "same_tables s2 (snd (stripe_webhook env' s2)) \<and> fst (stripe_webhook env' s2) \<noteq> Inr Received"
proof -
  have eid: "effective_event_id e ev = ev_id ev" for e using assms(5) by (simp add: effective_event_id_def)
  from assms(1) have "ev_id ev \<in> fst ` set (bs_events s1)"
  proof (cases rule: stripe_webhook_cases)
    case (handled ev0 s0 s3 s4)
    then show ?thesis using deduplicate_parts(3) [OF handled(7)] handle_event_frame(1) [of env ev s3] assms(3) eid by auto
  qed auto
  then have known: "ev_id ev \<in> fst ` set (bs_events s2)" using webhooks_events [OF assms(2)] by auto
  obtain r s3 where run: "stripe_webhook env' s2 = (r, s3)" by fastforce
  then have "same_tables s2 s3 \<and> r \<noteq> Inr Received"
  proof (cases rule: stripe_webhook_cases)
    case (handled ev0 s0 s4 s5)
    then show ?thesis using deduplicate_parts(3) [OF handled(7)] known assms(4) eid by auto
  qed auto
  with run show ?thesis by simp
qed

lemma early_refusals:
  \<comment> \<open>answers 409 and 502 come from behind the key in Redis\<close>
  assumes "fst (acquire_webhook_slot mode now r) = Inl f \<or> fst (check_global_webhook_rate mode now r) = Inl f \<or>
     fst (admit_sender env s) = Inl f \<or> read_event env = Inl f"
  shows "f \<notin> {Http_status 409, Http_status 502}"
proof -
  have rate: "fst (check_webhook_rate m n ip (r, rate)) = Inl e \<Longrightarrow> e = Http_status 429" for m n ip r rate e
    by (auto simp: check_webhook_rate_def check_webhook_rate_local_def Let_def split: prod.splits if_splits)
  have "fst (admit_sender env s) = Inl f \<Longrightarrow> f = Http_status 403 \<or> f = Http_status 429"
    using rate [of "we_redis env Address" "we_time env Address" "we_client env" "bs_redis s" "bs_local s"]
    by (cases "validate_stripe_ip (we_ip_check env) (we_client env) (bs_ips s)";
        cases "check_webhook_rate (we_redis env Address) (we_time env Address) (we_client env) (bs_redis s, bs_local s)")
      (auto simp: admit_sender_def split: bool.splits sum.splits)
  moreover have "read_event env = Inl f \<Longrightarrow> f \<in> {Crash, Http_status 413, Http_status 400}"
    by (auto simp: read_event_def try_then_iff split: option.splits construction.splits if_splits)
  moreover have "fst (acquire_webhook_slot mode now r) = Inl f \<Longrightarrow> f = Http_status 429"
    "fst (check_global_webhook_rate mode now r) = Inl f \<Longrightarrow> f = Http_status 429"
    by (auto simp: acquire_webhook_slot_def check_global_webhook_rate_def Let_def split: if_splits)
  ultimately show ?thesis using assms by auto
qed

lemma deduplicate_key:
  assumes "deduplicate env ev s = (r, s')" "r \<noteq> Inr True" "we_redis env Dedup = Up"
  shows "wr_dedup (bs_redis s') (effective_event_id env ev) = Some ((), fadd (we_time env Dedup) 604800)"
  using assms by (auto simp: deduplicate_def Let_def split: if_splits)

lemma late_refusal:
  assumes run: "stripe_webhook env s = (Inl (Http_status n), s')" and n: "n \<in> {409, 502}"
    and ev: "read_event env = Inr ev" and up: "we_redis env Dedup = Up"
  shows "same_tables s s'" "wr_dedup (bs_redis s') (effective_event_id env ev) = Some ((), fadd (we_time env Dedup) 604800)"
proof -
  obtain a r0 where slot: "acquire_webhook_slot (we_redis env Slot) (we_time env Slot) (bs_redis s) = (a, r0)" by fastforce
  have "\<not> isl a" using early_refusals [where mode = "we_redis env Slot" and now = "we_time env Slot" and r = "bs_redis s" and f = "Http_status n"] slot run n
    by (cases a) (auto simp: stripe_webhook_def)
  then obtain u where a: "a = Inr u" by (cases a) auto
  obtain p s3 where p: "process_webhook env (s\<lparr>bs_redis := r0\<rparr>) = (p, s3)" by fastforce
  then have s': "p = Inl (Http_status n)" "same_tables s s'" "wr_dedup (bs_redis s') = wr_dedup (bs_redis s3)"
    using run slot a n by (cases p; auto simp: stripe_webhook_def Let_def roll_back_def same_tables_def rate_parts split: fault.splits)+
  obtain b r4 where rate: "check_global_webhook_rate (we_redis env Rate) (we_time env Rate) r0 = (b, r4)" by fastforce
  have "\<not> isl b" using early_refusals [where mode = "we_redis env Rate" and now = "we_time env Rate" and r = r0 and f = "Http_status n"] rate p s'(1) n
    by (cases b) (auto simp: process_webhook_def)
  then obtain u' where b: "b = Inr u'" by (cases b) auto
  obtain c s5 where admit: "admit_sender env (s\<lparr>bs_redis := r4\<rparr>) = (c, s5)" by fastforce
  have "\<not> isl c" using early_refusals [where env = env and s = "s\<lparr>bs_redis := r4\<rparr>" and f = "Http_status n"] admit rate b p s'(1) n
    by (cases c) (auto simp: process_webhook_def)
  then obtain u'' where c: "c = Inr u''" by (cases c) auto
  obtain d s6 where dd: "deduplicate env ev s5 = (d, s6)" by fastforce
  have d: "d \<noteq> Inr True" using dd admit c rate b p s'(1) ev by (auto simp: process_webhook_def)
  have "bs_redis s3 = bs_redis s6"
    using dd d admit c rate b p ev handle_event_frame(2) [of env ev s6] by (cases d) (auto simp: process_webhook_def)
  with deduplicate_key [OF dd d up] s' show "same_tables s s'"
    "wr_dedup (bs_redis s') (effective_event_id env ev) = Some ((), fadd (we_time env Dedup) 604800)" by simp_all
qed

text \<open>
  C11. An event that is refused for the moment is lost: if a delivery is answered with 409 (try again) or 502, because another
  request holds a lock or the payment service does not answer, its key stays in Redis for seven days while its row is
  rolled back, so the next delivery within that time is answered as a duplicate and nothing of it is ever applied.
\<close>

theorem refused_event_is_lost:
  assumes "stripe_webhook env s = (Inl (Http_status n), s1)" "n \<in> {409, 502}"
    and "read_event env = Inr ev" "read_event env' = Inr ev" "ev_id ev \<noteq> []"
    and "we_redis env Dedup = Up" "we_redis env' Dedup = Up" "we_time env' Dedup < fadd (we_time env Dedup) 604800"
    and "stripe_webhook env' s1 = (Inr x, s2)"
  shows "x = Deduplicated \<and> same_tables s s2"
proof -
  have eid: "effective_event_id e ev = ev_id ev" for e using assms(5) by (simp add: effective_event_id_def)
  note late = late_refusal [OF assms(1,2,3,6)]
  from assms(9) have "x = Deduplicated \<and> same_tables s1 s2"
  proof (cases rule: stripe_webhook_cases)
    case (handled ev0 s0 s3 s4)
    then show ?thesis using late(2) assms(4,7,8) eid by (auto simp: deduplicate_def live_def Let_def split: if_splits)
  qed auto
  with late(1) show ?thesis by (simp add: same_tables_def)
qed

section \<open>What an applied event means\<close>

lemma read_stream_Some: "read_stream limit acc chunks = Some p \<Longrightarrow> length acc \<le> limit \<Longrightarrow> p = acc @ concat chunks \<and> length p \<le> limit"
  by (induction limit acc chunks rule: read_stream.induct) (auto split: if_splits)

lemma handled_types:
  assumes "handle_event env ev s = (r, s')" "\<not> same_tables s s'"
  shows "ev_type ev \<in> {''checkout.session.completed'', ''customer.subscription.deleted'', ''invoice.payment_failed'', ''invoice.payment_succeeded''}"
  using assms by (auto simp: handle_event_def same_tables_def split: if_splits)

text \<open>
  C23. Companies and accounts change only by an authentic event that is new: if a request changes one of them, it was
  answered as received, its sender passed the address check, its body is within the limit and the library accepted
  its signature, its time is within the tolerance, it is of one of four types, and it was not there before.
\<close>

theorem tables_change_by_admitted_event:
  assumes "stripe_webhook env s = (r, s')" "\<not> same_tables s s'"
  shows "r = Inr Received \<and> fst (validate_stripe_ip (we_ip_check env) (we_client env) (bs_ips s)) \<and>
    length (concat (we_body env)) \<le> we_max_body env \<and>
    (\<exists>ev. we_construct env (concat (we_body env)) = Event ev \<and> \<bar>ev_created ev - whole (we_time env Skew)\<bar> \<le> we_tolerance env \<and>
      effective_event_id env ev \<notin> fst ` set (bs_events s) \<and> effective_event_id env ev \<in> fst ` set (bs_events s') \<and>
      ev_type ev \<in> {''checkout.session.completed'', ''customer.subscription.deleted'', ''invoice.payment_failed'', ''invoice.payment_succeeded''})"
  using assms(1)
proof (cases rule: stripe_webhook_cases)
  case (handled ev s0 s1 s2)
  have "same_tables s s1" using handled(2) deduplicate_parts(1) [OF handled(7)] by (simp add: same_tables_def)
  then have type: "ev_type ev \<in> {''checkout.session.completed'', ''customer.subscription.deleted'', ''invoice.payment_failed'', ''invoice.payment_succeeded''}"
    using assms(2) handled handled_types [OF handled(8)] by (simp add: same_tables_def)
  have ev: "we_construct env (concat (we_body env)) = Event ev \<and> \<bar>ev_created ev - whole (we_time env Skew)\<bar> \<le> we_tolerance env \<and>
      length (concat (we_body env)) \<le> we_max_body env"
    using handled(1) read_stream_Some [of "we_max_body env" "[]" "we_body env"]
    by (auto simp: read_event_def try_then_iff split: option.splits construction.splits if_splits)
  have id: "effective_event_id env ev \<in> fst ` set (bs_events s')" "effective_event_id env ev \<notin> fst ` set (bs_events s)"
    using deduplicate_parts(3) [OF handled(7)] handled handle_event_frame(1) [of env ev s1] by auto
  obtain x where x: "r = Inr x" using handled(9) by blast
  have "x = Received"
  proof (rule ccontr)
    assume "x \<noteq> Received"
    then have "x = Deduplicated" by (cases x) auto
    with handled(8) x type show False
      by (auto simp: handle_event_def checkout_completed_def subscription_deleted_def payment_failed_def payment_succeeded_def
          and_then_Inr Let_def)
  qed
  with x ev id type handled(6) show ?thesis by blast
qed (use assms(2) in auto)

lemma payment_applied:
  \<comment> \<open>a payment event that was received has found its company and its account\<close>
  assumes "stripe_webhook env s = (Inr Received, s')" "read_event env = Inr ev" "payment_fields ev = Inr (customer, sub)"
    and "ev_type ev = ''invoice.payment_failed'' \<or> ev_type ev = ''invoice.payment_succeeded''"
  obtains c a where "companies_of customer s = [c]" "bs_companies s' = bs_companies s"
    "account_of (get_or_create_account (we_fresh env) (we_now env) (co_id c) (co_subscription_plan c) (bs_db s)) (co_id c) = Some a"
    "\<And>i. account_of (bs_db s') i =
       (if i = co_id c
        then Some (if ev_type ev = ''invoice.payment_failed'' then a\<lparr>ba_ai_disabled := True, ba_ai_disabled_reason := Some ''payment_failed''\<rparr>
                   else if ba_ai_disabled a \<and> ba_ai_disabled_reason a = Some ''payment_failed''
                   then a\<lparr>ba_ai_disabled := False, ba_ai_disabled_reason := None\<rparr> else a)
        else account_of (bs_db s) i)"
  using assms(1)
proof (cases rule: stripe_webhook_cases)
  case (handled ev0 s0 s1 s2)
  then have [simp]: "ev0 = ev" using assms(2) by simp
  have t: "bs_companies s1 = bs_companies s" "bs_db s1 = bs_db s"
    using handled(2) deduplicate_parts(1) [OF handled(7)] by (auto simp: same_tables_def)
  let ?f = "\<lambda>a. if ev_type ev = ''invoice.payment_failed'' then a\<lparr>ba_ai_disabled := True, ba_ai_disabled_reason := Some ''payment_failed''\<rparr>
                   else if ba_ai_disabled a \<and> ba_ai_disabled_reason a = Some ''payment_failed''
                   then a\<lparr>ba_ai_disabled := False, ba_ai_disabled_reason := None\<rparr> else a"
  obtain c where c: "lock_company env customer s1 = Inr c"
    and s2: "s2 = forget_subscription env (sub_text sub) (Some customer) (with_account_row env (co_id c) (co_subscription_plan c) ?f s1)"
    using handled(8) assms(3,4) by (auto simp: handle_event_def payment_failed_def payment_succeeded_def and_then_Inr Let_def)
  obtain a where a: "account_of (get_or_create_account (we_fresh env) (we_now env) (co_id c) (co_subscription_plan c) (bs_db s)) (co_id c) = Some a"
    by (cases "account_of (bs_db s) (co_id c)") (auto simp: account_of_create)
  have key: "keeps_account_key ?f" by (rule keeps_account_keyI) auto
  have s': "bs_db s' = change_account (co_id c) ?f (get_or_create_account (we_fresh env) (we_now env) (co_id c) (co_subscription_plan c) (bs_db s))"
    using handled(10) s2 t by (simp add: same_tables_def with_account_row_def)
  have "account_of (bs_db s') i = (if i = co_id c then Some (?f a) else account_of (bs_db s) i)" for i
    unfolding s' acct.fetch_change [OF key] using a by (auto simp: account_of_create)
  moreover have "companies_of customer s = [c]" using lock_company_Inr [OF c] t by (simp add: companies_of_def)
  moreover have "bs_companies s' = bs_companies s" using handled(10) s2 t by (simp add: same_tables_def)
  ultimately show thesis using that a by blast
qed auto

text \<open>
  A late payment lifts every ban: when a payment of a company has failed and a later one succeeded, the company's account
  ends with AI enabled and otherwise as it was, also if AI had been disabled for abuse or by an administrator before.
\<close>

theorem payment_lifts_any_ban:
  assumes "stripe_webhook env s = (Inr Received, s1)" "read_event env = Inr ev" "payment_fields ev = Inr (customer, sub)"
    and "ev_type ev = ''invoice.payment_failed''"
    and "stripe_webhook env' s1 = (Inr Received, s2)" "read_event env' = Inr ev'" "payment_fields ev' = Inr (customer, sub')"
    and "ev_type ev' = ''invoice.payment_succeeded''"
  shows "\<exists>c. companies_of customer s = [c] \<and>
    (\<forall>a. account_of (bs_db s) (co_id c) = Some a \<longrightarrow>
       account_of (bs_db s2) (co_id c) = Some (a\<lparr>ba_ai_disabled := False, ba_ai_disabled_reason := None\<rparr>))"
proof -
  let ?paid = "\<lambda>e a. if ev_type e = ''invoice.payment_failed'' then a\<lparr>ba_ai_disabled := True, ba_ai_disabled_reason := Some ''payment_failed''\<rparr>
      else if ba_ai_disabled a \<and> ba_ai_disabled_reason a = Some ''payment_failed''
      then a\<lparr>ba_ai_disabled := False, ba_ai_disabled_reason := None\<rparr> else a"
  obtain c a where c: "companies_of customer s = [c]" "bs_companies s1 = bs_companies s"
    "account_of (get_or_create_account (we_fresh env) (we_now env) (co_id c) (co_subscription_plan c) (bs_db s)) (co_id c) = Some a"
    "\<And>i. account_of (bs_db s1) i = (if i = co_id c then Some (?paid ev a) else account_of (bs_db s) i)"
    by (rule payment_applied [OF assms(1-3) disjI1 [OF assms(4)]]) (rule that)
  obtain c' b where c': "companies_of customer s1 = [c']" "bs_companies s2 = bs_companies s1"
    "account_of (get_or_create_account (we_fresh env') (we_now env') (co_id c') (co_subscription_plan c') (bs_db s1)) (co_id c') = Some b"
    "\<And>i. account_of (bs_db s2) i = (if i = co_id c' then Some (?paid ev' b) else account_of (bs_db s1) i)"
    by (rule payment_applied [OF assms(5-7) disjI2 [OF assms(8)]]) (rule that)
  have "c' = c" using c(1,2) c'(1) by (simp add: companies_of_def)
  moreover from this have "b = ?paid ev a" using c(4) c'(3) by (simp add: account_of_create)
  ultimately show ?thesis using c(1,3) c'(4) assms(4,8) by (auto simp: account_of_create)
qed

lemma required_Inr: "required v = Inr t \<Longrightarrow> v = VStr t \<and> t \<noteq> []"
  by (auto simp: required_def ident_def split: if_splits pyval.splits)

lemma checkout_steps:
  assumes "checkout_completed env ev s = (Inr x, s')"
  obtains customer sub plan c sa sb where
    "get_field (ev_object ev) ''customer'' VNone = Inr (VStr customer)" "customer \<noteq> []" "sub \<noteq> []"
    "get_field (ev_object ev) ''subscription'' VNone = Inr (VStr sub)"
    "metadata_field (ev_object ev) ''plan'' (VStr ''pro'') = Inr (VStr plan)"
    "verify_subscription env customer sub s = (Inr (), sa)" "check_period env ev customer sa = (Inr (), sb)"
    "lock_company env customer sb = Inr c" "s' = apply_upgrade env c customer sub plan sb"
proof -
  from assms obtain customer_v sub_v plan_v customer sub sa sb c plan where steps:
    "get_field (ev_object ev) ''customer'' VNone = Inr customer_v" "get_field (ev_object ev) ''subscription'' VNone = Inr sub_v"
    "metadata_field (ev_object ev) ''plan'' (VStr ''pro'') = Inr plan_v"
    "required customer_v = Inr customer" "required sub_v = Inr sub" "verify_subscription env customer sub s = (Inr (), sa)"
    "check_period env ev customer sa = (Inr (), sb)" "lock_company env customer sb = Inr c" "ident plan_v = Inr plan"
    and result: "s' = apply_upgrade env c customer sub plan sb"
    unfolding checkout_completed_def and_then_Inr by auto
  have "plan_v = VStr plan" using steps(9) by (cases plan_v) (auto simp: ident_def)
  with steps result show thesis using required_Inr [OF steps(4)] required_Inr [OF steps(5)] by (intro that) auto
qed

lemma period_accounts:
  assumes "check_period env ev customer s = (r, s')"
  shows "account_of (bs_db s') i =
    (if companies_of customer s \<noteq> [] \<and> i \<noteq> co_id (hd (companies_of customer s)) \<or> account_of (bs_db s) i \<noteq> None
     then account_of (bs_db s) i else account_of (bs_db s') i)"
  using assms acct.fetch_change [of id]
  by (auto simp: check_period_def with_account_row_def account_of_create keeps_account_key_def option.map_id Let_def
      split: if_splits list.splits option.splits)

text \<open>
  C19. What an upgrade does: a checkout that is received names a subscription that the payment service confirmed to belong to
  the customer; exactly the one company of that customer gets the plan, the customer and the subscription, its
  account gets the plan and that plan's quota (the quota of \<open>pro\<close> if the plan is unknown) and keeps the rest, no other account changes,
  and the cache, which is written and then invalidated, does not know the subscription.
\<close>

theorem checkout_upgrades:
  assumes "stripe_webhook env s = (Inr Received, s')" "read_event env = Inr ev" "ev_type ev = ''checkout.session.completed''"
  shows "\<exists>customer sub plan c.
    get_field (ev_object ev) ''customer'' VNone = Inr (VStr customer) \<and>
    get_field (ev_object ev) ''subscription'' VNone = Inr (VStr sub) \<and>
    metadata_field (ev_object ev) ''plan'' (VStr ''pro'') = Inr (VStr plan) \<and> we_retrieve env sub = Customer (VStr customer) \<and>
    companies_of customer s = [c] \<and>
    bs_companies s' = modify_by co_id (co_id c) (\<lambda>c. c\<lparr>co_subscription_plan := plan, co_stripe_customer_id := Some customer,
      co_stripe_subscription_id := Some sub\<rparr>) (bs_companies s) \<and>
    (\<forall>a. account_of (bs_db s) (co_id c) = Some a \<longrightarrow>
       account_of (bs_db s') (co_id c) = Some (a\<lparr>ba_plan := plan, ba_monthly_quota_acu := quota_acu (tier_or_pro plan)\<rparr>)) \<and>
    (\<forall>i. i \<noteq> co_id c \<longrightarrow> account_of (bs_db s') i = account_of (bs_db s) i) \<and>
    (we_redis env Cache = Up \<longrightarrow> 0 < get_ttl (we_cache_ttl env) \<longrightarrow>
       we_time env Cache < fadd (we_time env Cache) (f64 (of_int (get_ttl (we_cache_ttl env)))) \<longrightarrow> sc_subscriptions (bs_cache s') sub = None)"
  using assms(1)
proof (cases rule: stripe_webhook_cases)
  case (handled ev0 s0 s1 s2)
  then have [simp]: "ev0 = ev" using assms(2) by simp
  have t: "bs_companies s1 = bs_companies s" "bs_db s1 = bs_db s"
    using handled(2) deduplicate_parts(1) [OF handled(7)] by (auto simp: same_tables_def)
  have "checkout_completed env ev s1 = (Inr Received, s2)" using handled(8) assms(3) by (simp add: handle_event_def)
  then obtain customer sub plan c sa sb where steps:
    "get_field (ev_object ev) ''customer'' VNone = Inr (VStr customer)" "customer \<noteq> []" "sub \<noteq> []"
    "get_field (ev_object ev) ''subscription'' VNone = Inr (VStr sub)"
    "metadata_field (ev_object ev) ''plan'' (VStr ''pro'') = Inr (VStr plan)"
    and verify: "verify_subscription env customer sub s1 = (Inr (), sa)" and period: "check_period env ev customer sa = (Inr (), sb)"
    and lock: "lock_company env customer sb = Inr c" and s2: "s2 = apply_upgrade env c customer sub plan sb"
    by (rule checkout_steps)
  have sa: "bs_companies sa = bs_companies s" "bs_db sa = bs_db s"
    using verify_parts(3,4) [of env customer sub s1] verify t by simp_all
  have sb: "bs_companies sb = bs_companies s" using period_parts(3) [of env ev customer sa] period sa by simp
  have "we_retrieve env sub = Customer (VStr customer)"
    using verify by (auto simp: verify_subscription_def split: prod.splits if_splits retrieval.splits)
  moreover have one: "companies_of customer s = [c]" using lock_company_Inr [OF lock] sb by (simp add: companies_of_def)
  moreover have "bs_companies s' = bs_companies s2" "bs_db s' = bs_db s2" "bs_cache s' = bs_cache s2"
    using handled by (auto simp: same_tables_def)
  moreover have "bs_companies s2 = modify_by co_id (co_id c) (\<lambda>c. c\<lparr>co_subscription_plan := plan, co_stripe_customer_id := Some customer,
      co_stripe_subscription_id := Some sub\<rparr>) (bs_companies s)"
    by (simp add: s2 apply_upgrade_def Let_def change_company_def with_account_row_def forget_subscription_def sb)
  moreover have "account_of (bs_db s2) i = (if i = co_id c
      then map_option (\<lambda>a. a\<lparr>ba_plan := plan, ba_monthly_quota_acu := quota_acu (tier_or_pro plan)\<rparr>)
             (account_of (get_or_create_account (we_fresh env) (we_now env) (co_id c) plan (bs_db sb)) i)
      else account_of (get_or_create_account (we_fresh env) (we_now env) (co_id c) plan (bs_db sb)) i)" for i
    by (simp add: s2 apply_upgrade_def Let_def with_account_row_def forget_subscription_def acct.fetch_change keeps_account_keyI)
  moreover have "account_of (bs_db sb) i = account_of (bs_db s) i" if "i \<noteq> co_id c \<or> account_of (bs_db s) i \<noteq> None" for i
    using period_accounts [OF period, of i] that one sa by (auto simp: companies_of_def)
  moreover have "sc_subscriptions (bs_cache s2) sub = None" if "we_redis env Cache = Up" "0 < get_ttl (we_cache_ttl env)"
      "we_time env Cache < fadd (we_time env Cache) (f64 (of_int (get_ttl (we_cache_ttl env))))"
    using invalidated_customer [OF that(2,3)] that(1) steps(2,3)
    by (simp add: s2 apply_upgrade_def Let_def forget_subscription_def)
  ultimately show ?thesis using steps by (intro exI [of _ customer] exI [of _ sub] exI [of _ plan] exI [of _ c]) (auto simp: account_of_create)
qed auto

text \<open>
  C25. What a cancellation does: the company of the customer, whose stored subscription is absent or the one that was deleted,
  falls back to the free plan; its account gets the free quota and keeps its usage, its reservations and its bans; no
  other company or account changes.
\<close>

theorem deletion_downgrades:
  assumes "stripe_webhook env s = (Inr Received, s')" "read_event env = Inr ev" "ev_type ev = ''customer.subscription.deleted''"
  shows "\<exists>customer c.
    get_field (ev_object ev) ''customer'' VNone = Inr (VStr customer) \<and> companies_of customer s = [c] \<and>
    (\<forall>t. co_stripe_subscription_id c = Some t \<and> t \<noteq> [] \<longrightarrow> get_field (ev_object ev) ''id'' VNone = Inr (VStr t)) \<and>
    bs_companies s' = modify_by co_id (co_id c) (\<lambda>c. c\<lparr>co_subscription_plan := ''free'', co_stripe_subscription_id := None\<rparr>) (bs_companies s) \<and>
    (\<forall>a. account_of (bs_db s) (co_id c) = Some a \<longrightarrow>
       account_of (bs_db s') (co_id c) = Some (a\<lparr>ba_plan := ''free'', ba_monthly_quota_acu := 15\<rparr>)) \<and>
    (\<forall>i. i \<noteq> co_id c \<longrightarrow> account_of (bs_db s') i = account_of (bs_db s) i)"
  using assms(1)
proof (cases rule: stripe_webhook_cases)
  case (handled ev0 s0 s1 s2)
  then have [simp]: "ev0 = ev" using assms(2) by simp
  have t: "bs_companies s1 = bs_companies s" "bs_db s1 = bs_db s"
    using handled(2) deduplicate_parts(1) [OF handled(7)] by (auto simp: same_tables_def)
  have "subscription_deleted env ev s1 = (Inr Received, s2)" using handled(8) assms(3) by (simp add: handle_event_def)
  then obtain customer_v customer sub_v c where steps: "get_field (ev_object ev) ''customer'' VNone = Inr customer_v"
    "get_field (ev_object ev) ''id'' VNone = Inr sub_v" "required customer_v = Inr customer" "lock_company env customer s1 = Inr c"
    "(case co_stripe_subscription_id c of
        Some stored \<Rightarrow> if stored \<noteq> [] \<and> VStr stored \<noteq> sub_v then Inl (Http_status 400) else Inr ()
      | None \<Rightarrow> Inr ()) = Inr ()"
    and s2: "s2 = apply_downgrade env c customer sub_v s1"
    unfolding subscription_deleted_def and_then_Inr by auto
  have "companies_of customer s = [c]" using lock_company_Inr [OF steps(4)] t by (simp add: companies_of_def)
  moreover have "bs_companies s' = modify_by co_id (co_id c) (\<lambda>c. c\<lparr>co_subscription_plan := ''free'', co_stripe_subscription_id := None\<rparr>) (bs_companies s)"
    using handled(10) t by (simp add: same_tables_def s2 apply_downgrade_def Let_def change_company_def with_account_row_def forget_subscription_def)
  moreover have "account_of (bs_db s') i = (if i = co_id c
      then map_option (\<lambda>a. a\<lparr>ba_plan := ''free'', ba_monthly_quota_acu := 15\<rparr>)
             (account_of (get_or_create_account (we_fresh env) (we_now env) (co_id c) ''free'' (bs_db s)) i)
      else account_of (get_or_create_account (we_fresh env) (we_now env) (co_id c) ''free'' (bs_db s)) i)" for i
    using handled(10) t by (simp add: same_tables_def s2 apply_downgrade_def Let_def with_account_row_def forget_subscription_def
      acct.fetch_change keeps_account_keyI free_tier_def)
  moreover have "\<forall>t. co_stripe_subscription_id c = Some t \<and> t \<noteq> [] \<longrightarrow> sub_v = VStr t" using steps(5) by (auto split: if_splits)
  ultimately show ?thesis using steps required_Inr [OF steps(3)]
    by (intro exI [of _ customer] exI [of _ c]) (auto simp: account_of_create)
qed auto

section \<open>The limit on all requests\<close>

fun rate_run :: "pyfloat list \<Rightarrow> webhook_redis \<Rightarrow> (fault + unit) list \<times> webhook_redis" where
  "rate_run [] r = ([], r)"
| "rate_run (t # ts) r = (case check_global_webhook_rate Up t r of (res, r1) \<Rightarrow> case rate_run ts r1 of (rs, r2) \<Rightarrow> (res # rs, r2))"

lemma rate_run_seconds:
  assumes "finite S" "card S < 60" "set (wr_global r) \<subseteq> S" "distinct (wr_global r)" "whole ` set ts \<subseteq> S"
  shows "list_all (\<lambda>res. res = Inr ()) (fst (rate_run ts r))"
  using assms(3-5)
proof (induction ts arbitrary: r)
  case (Cons t ts)
  define kept where "kept = filter (\<lambda>score. \<not> (0 \<le> score \<and> score \<le> whole t - WEBHOOK_RATE_WINDOW)) (wr_global r)"
  have k: "set kept \<subseteq> S" "distinct kept" using Cons.prems by (auto simp: kept_def)
  then have "length kept \<le> card S" using assms(1) by (metis card_mono distinct_card)
  then have "check_global_webhook_rate Up t r = (Inr (), r\<lparr>wr_global := if whole t \<in> set kept then kept else kept @ [whole t]\<rparr>)"
    using assms(2) unfolding check_global_webhook_rate_def Let_def kept_def [symmetric] WEBHOOK_RATE_LIMIT_def by simp
  moreover have "list_all (\<lambda>res. res = Inr ()) (fst (rate_run ts (r\<lparr>wr_global := if whole t \<in> set kept then kept else kept @ [whole t]\<rparr>)))"
    by (rule Cons.IH) (use k Cons.prems in auto)
  ultimately show ?case by (simp add: case_prod_beta)
qed simp

text \<open>
  The limit of 60 events a minute counts seconds, not events: any number of requests, however fast, passes as long
  as they arrive in fewer than 60 different seconds, because requests of the same second share one entry of the set.
\<close>

theorem bursts_not_limited:
  assumes "wr_global r = []" "card (set (map whole ts)) < 60"
  shows "list_all (\<lambda>res. res = Inr ()) (fst (rate_run ts r))"
  by (rule rate_run_seconds [of "set (map whole ts)"]) (use assms in auto)

section \<open>Applications\<close>

definition no_keys :: webhook_redis where
  "no_keys = \<lparr>wr_concurrent = None, wr_global = [], wr_addresses = (\<lambda>k. None), wr_dedup = (\<lambda>k. None)\<rparr>"

theorem bursts_not_limited_witness: "list_all (\<lambda>res. res = Inr ()) (fst (rate_run (replicate 1000000 5) no_keys))"
proof (rule bursts_not_limited)
  have "set (map whole (replicate 1000000 5)) \<subseteq> {5}" by (auto simp: whole_def)
  then have "card (set (map whole (replicate 1000000 5))) \<le> 1" using card_mono [of "{5}"] by simp
  then show "card (set (map whole (replicate 1000000 5))) < 60" by linarith
qed (simp add: no_keys_def)

definition paying_company :: "string option \<Rightarrow> company" where
  "paying_company sub = \<lparr>co_id = 1, co_name = ''Acme'', co_subscription_plan = ''free'', co_trade_type = ''hvac'',
     co_stripe_customer_id = Some ''cus_1'', co_stripe_subscription_id = sub, co_created_at = 0, co_updated_at = 0\<rparr>"

definition billing_sample :: "string option \<Rightarrow> billing_account \<Rightarrow> billing_state" where
  "billing_sample sub a = \<lparr>bs_companies = [paying_company sub], bs_db = empty_db\<lparr>db_accounts := [a]\<rparr>, bs_events = [], bs_redis = no_keys,
     bs_cache = \<lparr>sc_subscriptions = (\<lambda>k. None), sc_customers = (\<lambda>k. None)\<rparr>, bs_circuit = (Redis_none, new_breaker 3 120 1 600 3),
     bs_ips = defaults_loaded 0, bs_local = []\<rparr>"

definition sample_event :: "string \<Rightarrow> string \<Rightarrow> stripe_event" where
  "sample_event i type = \<lparr>ev_id = i, ev_type = type, ev_created = 1000,
     ev_object = VDict [(''id'', VStr ''sub_1''), (''customer'', VStr ''cus_1''), (''subscription'', VStr ''sub_1''),
       (''metadata'', VDict [(''plan'', VStr ''business'')])]\<rparr>"

definition sample_delivery :: "row_lock \<Rightarrow> stripe_event \<Rightarrow> webhook_env" where
  "sample_delivery lock ev = \<lparr>we_redis = (\<lambda>p. Up), we_time = (\<lambda>p. 1000), we_client = ''testclient'',
     we_ip_check = \<lparr>ip_now = 0, ip_answers = [], ip_check_disabled = True, ip_debug = True\<rparr>, we_content_length = None,
     we_body = [], we_max_body = 1000, we_construct = (\<lambda>p. Event ev), we_tolerance = 600, we_digest = (\<lambda>t n. t), we_advisory = True,
     we_lock = lock, we_retrieve = (\<lambda>s. Customer (VStr ''cus_1'')), we_circuit_times = (0, 0, 0), we_uuid_text = (\<lambda>i. []),
     we_fresh = 9, we_now = 0, we_cache_ttl = None\<rparr>"

lemma sample_account: "account_of (empty_db\<lparr>db_accounts := [a]\<rparr>) i = (if i = ba_company_id a then Some a else None)"
  by (simp add: account_of_def row_by_Cons)

lemma default_account_fields: "ba_company_id (default_account i c now) = c" "ba_billing_period_start (default_account i c now) = None"
  by (simp_all add: default_account_def)

lemma sample_read: "read_event (sample_delivery lock (sample_event i type)) = Inr (sample_event i type)"
  by (simp add: read_event_def sample_delivery_def sample_event_def whole_def)

lemmas sample_run = stripe_webhook_def process_webhook_def acquire_webhook_slot_def check_global_webhook_rate_def admit_sender_def
  validate_stripe_ip_def read_event_def deduplicate_def effective_event_id_def handle_event_def checkout_completed_def subscription_deleted_def
  payment_failed_def payment_succeeded_def payment_fields_def metadata_field_def get_field_def required_def ident_def verify_subscription_def
  check_period_def lock_company_def companies_of_def scalar_one_or_none_def same_company_def counter_def WEBHOOK_MAX_CONCURRENT_def WEBHOOK_RATE_LIMIT_def
  sample_delivery_def billing_sample_def paying_company_def sample_event_def no_keys_def live_def whole_def with_account_row_def
  is_available_def local_available_def new_breaker_def record_success_def roll_back_def release_webhook_slot_def

theorem nobody_is_upgraded_witness:
  "let s = (billing_sample None (default_account 1 1 0))\<lparr>bs_companies := [(paying_company None)\<lparr>co_stripe_customer_id := None\<rparr>]\<rparr>;
       env = sample_delivery Lock_free (sample_event ''e1'' ''checkout.session.completed'')
   in same_tables s (snd (webhooks [env, env] s))"
  using nobody_is_upgraded [where s = "(billing_sample None (default_account 1 1 0))\<lparr>bs_companies := [(paying_company None)\<lparr>co_stripe_customer_id := None\<rparr>]\<rparr>"
    and envs = "[sample_delivery Lock_free (sample_event ''e1'' ''checkout.session.completed''),
      sample_delivery Lock_free (sample_event ''e1'' ''checkout.session.completed'')]", OF _ surjective_pairing]
  by (simp add: Let_def)

theorem event_applied_once_witness:
  "let env = sample_delivery Lock_free (sample_event ''e1'' ''checkout.session.completed'');
       s = snd (stripe_webhook env (billing_sample None (default_account 1 1 0)))
   in same_tables s (snd (stripe_webhook env s))"
proof -
  let ?env = "sample_delivery Lock_free (sample_event ''e1'' ''checkout.session.completed'')"
  let ?s = "billing_sample None (default_account 1 1 0)"
  have "fst (stripe_webhook ?env ?s) = Inr Received"
    by (simp add: sample_run Let_def acct.fetch_change keeps_account_key_def account_of_create sample_account default_account_fields
        del: One_nat_def)
  then have "stripe_webhook ?env ?s = (Inr Received, snd (stripe_webhook ?env ?s))" by (metis prod.collapse)
  from event_applied_once [OF this, of "[]"] sample_read [of Lock_free "''e1''" "''checkout.session.completed''"]
  show ?thesis by (simp add: Let_def sample_event_def)
qed

theorem refused_event_is_lost_witness:
  "let ev = sample_event ''e1'' ''invoice.payment_failed''; s = billing_sample None (default_account 1 1 0)
   in same_tables s (snd (stripe_webhook (sample_delivery Lock_free ev) (snd (stripe_webhook (sample_delivery Lock_busy ev) s))))"
proof -
  let ?ev = "sample_event ''e1'' ''invoice.payment_failed''"
  let ?s = "billing_sample None (default_account 1 1 0)"
  let ?s1 = "snd (stripe_webhook (sample_delivery Lock_busy ?ev) ?s)"
  have week: "fadd 1000 604800 = 605800" by (simp add: fadd_def f64_numeral)
  have "fst (stripe_webhook (sample_delivery Lock_busy ?ev) ?s) = Inl (Http_status 409)" by (simp add: sample_run Let_def)
  then have first: "stripe_webhook (sample_delivery Lock_busy ?ev) ?s = (Inl (Http_status 409), ?s1)" by (metis prod.collapse)
  have "fst (stripe_webhook (sample_delivery Lock_free ?ev) ?s1) = Inr Deduplicated" by (simp add: sample_run Let_def week)
  then have second: "stripe_webhook (sample_delivery Lock_free ?ev) ?s1 = (Inr Deduplicated, snd (stripe_webhook (sample_delivery Lock_free ?ev) ?s1))"
    by (metis prod.collapse)
  have "same_tables ?s (snd (stripe_webhook (sample_delivery Lock_free ?ev) ?s1))"
    using refused_event_is_lost [OF first _ sample_read sample_read _ _ _ _ second] week
    by (simp add: sample_event_def sample_delivery_def)
  then show ?thesis by (simp add: Let_def)
qed

theorem tables_change_by_admitted_event_witness:
  "let env = sample_delivery Lock_free (sample_event ''e1'' ''customer.subscription.deleted''); s = billing_sample (Some ''sub_1'') (default_account 1 1 0)
   in ''e1'' \<in> fst ` set (bs_events (snd (stripe_webhook env s)))"
proof -
  let ?env = "sample_delivery Lock_free (sample_event ''e1'' ''customer.subscription.deleted'')"
  let ?s = "billing_sample (Some ''sub_1'') (default_account 1 1 0)"
  have "\<not> same_tables ?s (snd (stripe_webhook ?env ?s))"
    by (simp add: sample_run Let_def same_tables_def apply_downgrade_def change_company_def forget_subscription_def modify_by_def update_where_def)
  from tables_change_by_admitted_event [OF surjective_pairing this] show ?thesis
    by (auto simp: Let_def effective_event_id_def sample_delivery_def sample_event_def)
qed

theorem payment_lifts_any_ban_witness:
  "let s = billing_sample None ((default_account 1 1 0)\<lparr>ba_ai_disabled := True, ba_ai_disabled_reason := Some ''abuse''\<rparr>);
       run = (\<lambda>i type s. snd (stripe_webhook (sample_delivery Lock_free (sample_event i type)) s))
   in map_option ba_ai_disabled (account_of (bs_db (run ''e2'' ''invoice.payment_succeeded'' (run ''e1'' ''invoice.payment_failed'' s))) 1) = Some False"
proof -
  let ?a = "(default_account 1 1 0)\<lparr>ba_ai_disabled := True, ba_ai_disabled_reason := Some ''abuse''\<rparr>"
  let ?s = "billing_sample None ?a"
  let ?e1 = "sample_event ''e1'' ''invoice.payment_failed''" and ?e2 = "sample_event ''e2'' ''invoice.payment_succeeded''"
  let ?s1 = "snd (stripe_webhook (sample_delivery Lock_free ?e1) ?s)"
  let ?s2 = "snd (stripe_webhook (sample_delivery Lock_free ?e2) ?s1)"
  have "fst (stripe_webhook (sample_delivery Lock_free ?e1) ?s) = Inr Received"
    "fst (stripe_webhook (sample_delivery Lock_free ?e2) ?s1) = Inr Received" by (simp_all add: sample_run Let_def)
  then have runs: "stripe_webhook (sample_delivery Lock_free ?e1) ?s = (Inr Received, ?s1)"
    "stripe_webhook (sample_delivery Lock_free ?e2) ?s1 = (Inr Received, ?s2)" by (metis prod.collapse)+
  have fields: "payment_fields (sample_event i type) = Inr (''cus_1'', VStr ''sub_1'')" for i type
    by (simp add: payment_fields_def get_field_def required_def ident_def sample_event_def)
  have types: "ev_type ?e1 = ''invoice.payment_failed''" "ev_type ?e2 = ''invoice.payment_succeeded''" by (simp_all add: sample_event_def)
  from payment_lifts_any_ban [OF runs(1) sample_read fields types(1) runs(2) sample_read fields types(2)]
  have "account_of (bs_db ?s2) 1 = Some (?a\<lparr>ba_ai_disabled := False, ba_ai_disabled_reason := None\<rparr>)"
    by (auto simp: companies_of_def billing_sample_def paying_company_def sample_account default_account_fields simp del: One_nat_def)
  then show ?thesis by (simp add: Let_def)
qed

theorem checkout_upgrades_witness:
  "let env = sample_delivery Lock_free (sample_event ''e1'' ''checkout.session.completed'');
       s' = snd (stripe_webhook env (billing_sample None (default_account 1 1 0)))
   in map co_subscription_plan (bs_companies s') = [''business'']"
proof -
  let ?env = "sample_delivery Lock_free (sample_event ''e1'' ''checkout.session.completed'')"
  let ?s = "billing_sample None (default_account 1 1 0)"
  have "fst (stripe_webhook ?env ?s) = Inr Received"
    by (simp add: sample_run Let_def acct.fetch_change keeps_account_key_def account_of_create sample_account default_account_fields
        del: One_nat_def)
  then have "stripe_webhook ?env ?s = (Inr Received, snd (stripe_webhook ?env ?s))" by (metis prod.collapse)
  from checkout_upgrades [OF this sample_read] show ?thesis
    by (auto simp: Let_def sample_event_def metadata_field_def get_field_def modify_by_def update_where_def companies_of_def
        billing_sample_def paying_company_def)
qed

theorem deletion_downgrades_witness:
  "let env = sample_delivery Lock_free (sample_event ''e1'' ''customer.subscription.deleted'');
       s' = snd (stripe_webhook env (billing_sample (Some ''sub_1'') ((default_account 1 1 0)\<lparr>ba_reserved_acu := 7\<rparr>)))
   in map_option ba_reserved_acu (account_of (bs_db s') 1) = Some 7"
proof -
  let ?env = "sample_delivery Lock_free (sample_event ''e1'' ''customer.subscription.deleted'')"
  let ?s = "billing_sample (Some ''sub_1'') ((default_account 1 1 0)\<lparr>ba_reserved_acu := 7\<rparr>)"
  have "fst (stripe_webhook ?env ?s) = Inr Received" by (simp add: sample_run Let_def)
  then have "stripe_webhook ?env ?s = (Inr Received, snd (stripe_webhook ?env ?s))" by (metis prod.collapse)
  note d = deletion_downgrades [OF this sample_read]
  have "\<exists>c. companies_of ''cus_1'' ?s = [c] \<and> (\<forall>a. account_of (bs_db ?s) (co_id c) = Some a \<longrightarrow>
      account_of (bs_db (snd (stripe_webhook ?env ?s))) (co_id c) = Some (a\<lparr>ba_plan := ''free'', ba_monthly_quota_acu := 15\<rparr>))"
    using d by (auto simp: sample_event_def get_field_def)
  then have "account_of (bs_db (snd (stripe_webhook ?env ?s))) 1 =
      Some ((default_account 1 1 0)\<lparr>ba_reserved_acu := 7, ba_plan := ''free'', ba_monthly_quota_acu := 15\<rparr>)"
    by (auto simp: companies_of_def billing_sample_def paying_company_def sample_account default_account_fields simp del: One_nat_def)
  then show ?thesis by (simp add: Let_def)
qed

end
