(* ===== verification/BillingTasks.thy ===== *)
theory BillingTasks
  imports JobState StripeCache
begin

text \<open>
  The periodic billing tasks of \<open>src/backend/tasks/billing_tasks.py\<close> and the execution lock they share
  (\<open>celery_config/beat.py\<close>). What may fail from outside is an argument: rows that another transaction locks,
  statements that raise. A task that raises is delivered again until its retries are used up.
\<close>

datatype 'a beat_outcome = Skipped string | Ran 'a | Retry_later | Gave_up string

record beat_locks =
  bl_redis :: "string \<rightharpoonup> unit \<times> pyfloat"
  bl_local :: "string \<rightharpoonup> unit \<times> pyfloat"  \<comment> \<open>the lock of the process, until its thread clears it\<close>

definition take_key :: "pyfloat \<Rightarrow> pyfloat \<Rightarrow> string \<Rightarrow> (string \<rightharpoonup> unit \<times> pyfloat) \<Rightarrow> bool \<times> (string \<rightharpoonup> unit \<times> pyfloat)" where
  \<comment> \<open>\<open>SET key 1 NX EX ttl\<close>\<close>
  "take_key now ttl k m = (if live now m k \<noteq> None then (False, m) else (True, m(k \<mapsto> ((), fadd now ttl))))"

definition acquire_beat_lock :: "redis_mode \<Rightarrow> pyfloat \<Rightarrow> string \<Rightarrow> pyfloat \<Rightarrow> beat_locks \<Rightarrow> bool \<times> beat_locks" where
  "acquire_beat_lock mode now task ttl l =
     (if mode = Up
      then (case take_key now ttl (''beat:lock:'' @ task) (bl_redis l) of (ok, m) \<Rightarrow> (ok, l\<lparr>bl_redis := m\<rparr>))
      else (case take_key now ttl task (bl_local l) of (ok, m) \<Rightarrow> (ok, l\<lparr>bl_local := m\<rparr>)))"

section \<open>The monthly reset\<close>

definition PAGE_SIZE :: nat where "PAGE_SIZE = 20"

definition stale_cutoff :: "micros \<Rightarrow> micros" where
  "stale_cutoff now = now - minutes PROCESSING_TIMEOUT_MINUTES"

definition due :: "micros \<Rightarrow> billing_account \<Rightarrow> bool" where
  "due now a \<longleftrightarrow> (case ba_reset_at a of Some t \<Rightarrow> t \<le> now | None \<Rightarrow> False) \<and>
     (case ba_reservation_heartbeat_at a of None \<Rightarrow> True | Some h \<Rightarrow> h < stale_cutoff now)"

definition stale_due :: "micros \<Rightarrow> billing_account \<Rightarrow> bool" where
  "stale_due now a \<longleftrightarrow> due now a \<and> ba_reservation_heartbeat_at a \<noteq> None"

definition due_rows :: "micros \<Rightarrow> database \<Rightarrow> billing_account list" where
  \<comment> \<open>in the order of the company\<close>
  "due_rows now d = sort_key ba_company_id (filter (due now) (db_accounts d))"

definition collect_debt :: "billing_account \<Rightarrow> billing_account" where
  "collect_debt a =
     (if 1/100 < ba_acu_debt a
      then (if ba_monthly_quota_acu a < ba_acu_debt a
            then a\<lparr>ba_used_acu := dec28 (ba_acu_debt a - ba_monthly_quota_acu a), ba_acu_debt := 0\<rparr>
            else a\<lparr>ba_used_acu := dec28 (ba_used_acu a + ba_acu_debt a), ba_acu_debt := 0\<rparr>)
      else a)"

definition start_period :: "micros \<Rightarrow> billing_account \<Rightarrow> billing_account" where
  "start_period now a = a\<lparr>ba_used_acu := 0, ba_reserved_acu := 0, ba_reservation_heartbeat_at := None,
     ba_billing_period_start := Some now, ba_reset_at := Some (now + hours 720)\<rparr>"

record reset_env =
  rt_now :: micros
  rt_page_locked :: "nat \<Rightarrow> bool"  \<comment> \<open>a row of the page at this offset is locked\<close>
  rt_fails :: "uuid \<Rightarrow> bool"  \<comment> \<open>the savepoint of this account fails\<close>
  rt_retry_fails :: "nat \<Rightarrow> uuid \<Rightarrow> bool"
  rt_stale_locked :: bool
  rt_stale_fails :: "uuid \<Rightarrow> bool"

record reset_run =
  rr_db :: database
  rr_reset :: nat
  rr_skipped :: "uuid list"

definition reset_one :: "(uuid \<Rightarrow> bool) \<Rightarrow> micros \<Rightarrow> uuid \<Rightarrow> reset_run \<Rightarrow> reset_run" where
  \<comment> \<open>the savepoint of one account: rolled back and noted if it fails\<close>
  "reset_one fails now c r =
     (if fails c then r\<lparr>rr_skipped := rr_skipped r @ [c]\<rparr>
      else r\<lparr>rr_db := change_account c (\<lambda>a. start_period now (collect_debt a)) (rr_db r), rr_reset := rr_reset r + 1\<rparr>)"

lemma reset_one_length [simp]: "length (db_accounts (rr_db (reset_one fails now c r))) = length (db_accounts (rr_db r))"
  by (simp add: reset_one_def change_account_def)

lemma fold_reset_length [simp]:
  "length (db_accounts (rr_db (fold (reset_one fails now) cs r))) = length (db_accounts (rr_db r))"
  by (induction cs arbitrary: r) simp_all

function reset_pages :: "reset_env \<Rightarrow> nat \<Rightarrow> reset_run \<Rightarrow> reset_run option" where
  \<comment> \<open>the loop over pages, from an offset; \<open>None\<close>: the query raises because a row is locked\<close>
  "reset_pages env off r =
     (let page = take PAGE_SIZE (drop off (due_rows (rt_now env) (rr_db r))) in
      if page = [] then Some r
      else if rt_page_locked env off then None
      else reset_pages env (off + PAGE_SIZE) (fold (reset_one (rt_fails env) (rt_now env)) (map ba_company_id page) r))"
  by auto
termination
proof (relation "measure (\<lambda>(env, off, r). length (db_accounts (rr_db r)) - off)")
  fix env off and r :: reset_run and page :: "billing_account list"
  assume "page = take PAGE_SIZE (drop off (due_rows (rt_now env) (rr_db r)))" "page \<noteq> []"
  then have "off < length (due_rows (rt_now env) (rr_db r))" by (metis drop_eq_Nil2 linorder_not_le take_Nil)
  also have "\<dots> \<le> length (db_accounts (rr_db r))" by (simp add: due_rows_def)
  finally show "((env, off + PAGE_SIZE, fold (reset_one (rt_fails env) (rt_now env)) (map ba_company_id page) r), (env, off, r))
      \<in> measure (\<lambda>(env, off, r). length (db_accounts (rr_db r)) - off)" by (simp add: PAGE_SIZE_def)
qed simp

declare reset_pages.simps [simp del]

definition retry_skipped :: "reset_env \<Rightarrow> reset_run \<Rightarrow> reset_run" where
  \<comment> \<open>three rounds over the accounts that failed; an account that is found is reset without asking whether it is due\<close>
  "retry_skipped env r =
     fold (\<lambda>attempt r. fold (reset_one (rt_retry_fails env attempt) (rt_now env)) (rr_skipped r) (r\<lparr>rr_skipped := []\<rparr>)) [0..<3] r"

definition reset_stale :: "reset_env \<Rightarrow> database \<Rightarrow> (nat \<times> database) option" where
  "reset_stale env d =
     (let stale = (\<lambda>a. stale_due (rt_now env) a); hit = (\<lambda>a. stale a \<and> \<not> rt_stale_fails env (ba_company_id a)) in
      if rt_stale_locked env \<and> list_ex stale (db_accounts d) then None
      else Some (row_count hit (db_accounts d), d\<lparr>db_accounts := update_where hit (start_period (rt_now env)) (db_accounts d)\<rparr>))"

definition run_reset :: "reset_env \<Rightarrow> database \<Rightarrow> ((nat \<times> nat) \<times> database) option" where
  \<comment> \<open>the accounts reset in the first and in the second phase; nothing is committed if it raises\<close>
  "run_reset env d =
     (case reset_pages env 0 \<lparr>rr_db = d, rr_reset = 0, rr_skipped = []\<rparr> of
        None \<Rightarrow> None
      | Some r \<Rightarrow>
          let r1 = retry_skipped env r in
          map_option (\<lambda>(n, d'). ((rr_reset r1, n), d')) (reset_stale env (rr_db r1)))"

definition acquire_reset_locks ::
    "pyfloat \<Rightarrow> string \<Rightarrow> (string \<rightharpoonup> unit \<times> pyfloat) \<Rightarrow> (int \<times> int \<times> string) \<times> (string \<rightharpoonup> unit \<times> pyfloat)" where
  \<comment> \<open>the Lua script: the lock of the execution for an hour, then the mark of the period for a day\<close>
  "acquire_reset_locks now period m =
     (case take_key now 3600 ''beat:lock:reset_billing_quotas'' m of
        (False, m) \<Rightarrow> ((0, 0, ''concurrent_execution_locked''), m)
      | (True, m) \<Rightarrow>
          (case take_key now 86400 (''billing:reset:'' @ period) m of
             (False, m) \<Rightarrow> ((1, 0, ''billing_period_already_reset''), m)
           | (True, m) \<Rightarrow> ((1, 1, ''ok''), m)))"

record reset_task_env = reset_env +
  rt_circuit_open :: bool
  rt_redis :: redis_mode
  rt_time :: pyfloat
  rt_period :: string  \<comment> \<open>\<open>%Y-%m\<close>\<close>
  rt_retries :: nat

definition MAX_TASK_RETRIES :: nat where "MAX_TASK_RETRIES = 3"

definition reset_billing_quotas ::
    "reset_task_env \<Rightarrow> beat_locks \<times> database \<Rightarrow> (nat \<times> nat) beat_outcome \<times> beat_locks \<times> database" where
  "reset_billing_quotas env = (\<lambda>(l, d).
     if rt_circuit_open env then (Skipped ''db_circuit_open'', l, d)
     else if rt_redis env \<noteq> Up
     then (if MAX_TASK_RETRIES \<le> rt_retries env then Gave_up ''redis_unavailable'' else Retry_later, l, d)
     else case acquire_reset_locks (rt_time env) (rt_period env) (bl_redis l) of
       ((locked, period_locked, reason), m) \<Rightarrow>
         let l1 = l\<lparr>bl_redis := m\<rparr> in
         if locked = 0 then (Skipped reason, l1, d)
         else case run_reset (reset_env.truncate env) d of
           None \<Rightarrow> (Retry_later, l1, d)
         | Some (counts, d') \<Rightarrow> (Ran counts, l1, d'))"

section \<open>The other tasks\<close>

definition apply_debt :: "micros \<Rightarrow> billing_account \<Rightarrow> billing_account" where
  "apply_debt now a = a\<lparr>ba_used_acu := quantize 4 (dec28 (ba_used_acu a + ba_acu_debt a)), ba_acu_debt := 0, ba_last_reconciled := Some now\<rparr>"

definition collect_billing_debt ::
    "redis_mode \<Rightarrow> pyfloat \<Rightarrow> micros \<Rightarrow> bool \<Rightarrow> nat \<Rightarrow> string \<Rightarrow> beat_locks \<times> database \<Rightarrow> nat beat_outcome \<times> beat_locks \<times> database" where
  \<comment> \<open>\<open>locked\<close>: a row of a debtor is locked, or the commit fails with a text of that class; \<open>retryable\<close> errors and the others
      are delivered again alike until the retries are used up\<close>
  "collect_billing_debt mode now time locked retries failure_class = (\<lambda>(l, d).
     if mode \<noteq> Up then (Skipped ''redis_unavailable'', l, d)
     else case take_key now 1800 ''beat:lock:collect_billing_debt'' (bl_redis l) of
       (False, m) \<Rightarrow> (Skipped ''concurrent_execution_locked'', l, d)
     | (True, m) \<Rightarrow>
         let l1 = l\<lparr>bl_redis := m\<rparr>; debtor = (\<lambda>a. 1/100 < ba_acu_debt a) in
         if locked \<and> list_ex debtor (db_accounts d)
         then (if retries < MAX_TASK_RETRIES then Retry_later else Gave_up failure_class, l1, d)
         else (Ran (row_count debtor (db_accounts d)), l1,
               d\<lparr>db_accounts := update_where debtor (apply_debt time) (db_accounts d)\<rparr>))"

definition purge_expired_dlq_entries ::
    "redis_mode \<Rightarrow> pyfloat \<Rightarrow> micros \<Rightarrow> bool \<Rightarrow> bool \<Rightarrow> nat \<Rightarrow> beat_locks \<times> database \<Rightarrow> unit beat_outcome \<times> beat_locks \<times> database" where
  \<comment> \<open>\<open>ok\<close>: the statement succeeds; an error that is not a serialization failure ends the task\<close>
  "purge_expired_dlq_entries mode now time ok retryable retries = (\<lambda>(l, d).
     case acquire_beat_lock mode now ''purge_expired_dlq_entries'' 86400 l of
       (False, l1) \<Rightarrow> (Skipped ''concurrent_execution_locked'', l1, d)
     | (True, l1) \<Rightarrow>
         if \<not> ok then (if retryable \<and> retries < 2 then Retry_later else Ran (), l1, d)
         else (Ran (), l1, d\<lparr>db_dead_letters := filter (\<lambda>r. \<not> (case dl_expires_at r of Some t \<Rightarrow> t < time | None \<Rightarrow> False))
                              (db_dead_letters d)\<rparr>))"

definition cleanup_dlq_fallback_files ::
    "bool \<Rightarrow> pyfloat \<Rightarrow> (string \<Rightarrow> bool) \<Rightarrow> (string \<times> pyfloat) list \<Rightarrow> nat \<times> (string \<times> pyfloat) list" where
  \<comment> \<open>the files of the directory with their times of change; \<open>removable\<close>: the calls on the file succeed\<close>
  "cleanup_dlq_fallback_files is_dir now removable files =
     (let prefix = ''workticket_dlq_fallback.''; suffix = ''.jsonl'';
          old = (\<lambda>(f, t). take (length prefix) f = prefix \<and> take (length suffix) (rev f) = rev suffix \<and>
                   t < fsub now 3600 \<and> removable f)
      in if is_dir then (length (filter old files), filter (\<lambda>x. \<not> old x) files) else (0, files))"

section \<open>Which accounts the reset reaches\<close>

function alternate :: "'a list \<Rightarrow> 'a list" where
  \<comment> \<open>every second page\<close>
  "alternate xs = (if xs = [] then [] else take PAGE_SIZE xs @ alternate (drop (2 * PAGE_SIZE) xs))"
  by auto
termination by (relation "measure length") (auto simp: PAGE_SIZE_def)

declare alternate.simps [simp del]

lemma alternate_one: "length xs \<le> 2 * PAGE_SIZE \<Longrightarrow> alternate xs = take PAGE_SIZE xs"
  by (simp add: alternate.simps [of xs] alternate.simps [of "[]"])

lemma set_alternate: "set (alternate xs) \<subseteq> set xs"
proof (induction xs rule: alternate.induct)
  case (1 xs)
  show ?case
  proof (cases "xs = []")
    case False
    then have "set (alternate (drop (2 * PAGE_SIZE) xs)) \<subseteq> set xs" using 1 set_drop_subset subset_trans by metis
    with False show ?thesis by (simp add: alternate.simps [of xs] set_take_subset)
  qed (simp add: alternate.simps [of "[]"])
qed

definition renew :: "micros \<Rightarrow> billing_account \<Rightarrow> billing_account" where
  "renew now a = start_period now (collect_debt a)"

lemma renew_exact:
  "renew now a = a\<lparr>ba_used_acu := 0, ba_reserved_acu := 0, ba_acu_debt := if 1/100 < ba_acu_debt a then 0 else ba_acu_debt a,
     ba_reservation_heartbeat_at := None, ba_billing_period_start := Some now, ba_reset_at := Some (now + hours 720)\<rparr>"
  by (simp add: renew_def start_period_def collect_debt_def)

lemma renewed_not_due [simp]: "\<not> due now (renew now a)" "ba_company_id (renew now a) = ba_company_id a"
  by (simp_all add: renew_exact due_def)

lemma keeps_renew: "keeps_account_key (\<lambda>a. start_period now (collect_debt a))"
  by (rule keeps_account_keyI) (simp add: start_period_def collect_debt_def)

lemma fold_reset_all:
  assumes "\<And>c. \<not> fails c"
  shows "fold (reset_one fails now) cs r =
    r\<lparr>rr_db := fold (\<lambda>c. change_account c (\<lambda>a. start_period now (collect_debt a))) cs (rr_db r), rr_reset := rr_reset r + length cs\<rparr>"
  by (induction cs arbitrary: r) (simp_all add: reset_one_def assms)

lemma fold_renew_accounts:
  assumes "distinct cs"
  shows "fold (\<lambda>c. change_account c (\<lambda>a. start_period now (collect_debt a))) cs d =
    d\<lparr>db_accounts := map (\<lambda>a. if ba_company_id a \<in> set cs then renew now a else a) (db_accounts d)\<rparr>"
  using assms
proof (induction cs arbitrary: d)
  case (Cons c cs)
  then show ?case
    by (auto simp: change_account_def modify_by_def update_where_def renew_def start_period_def collect_debt_def
        intro!: database.equality)
qed simp

definition renewed :: "micros \<Rightarrow> uuid set \<Rightarrow> database \<Rightarrow> database" where
  "renewed now C d = d\<lparr>db_accounts := map (\<lambda>a. if ba_company_id a \<in> C then renew now a else a) (db_accounts d)\<rparr>"

lemma renewed_renewed: "C \<inter> D = {} \<Longrightarrow> renewed now D (renewed now C d) = renewed now (C \<union> D) d"
  by (auto simp: renewed_def intro!: database.equality)

lemma due_rows_renewed: "due_rows now (renewed now C d) = filter (\<lambda>a. ba_company_id a \<notin> C) (due_rows now d)"
proof -
  have "filter (due now) (map (\<lambda>a. if ba_company_id a \<in> C then renew now a else a) xs) =
      filter (\<lambda>a. ba_company_id a \<notin> C) (filter (due now) xs)" for xs
    by (induction xs) auto
  then show ?thesis by (simp add: due_rows_def renewed_def filter_sort)
qed

lemma filter_page:
  assumes "distinct (map k (u @ p @ q))"
  shows "filter (\<lambda>a. k a \<notin> k ` set p) (u @ p @ q) = u @ q"
proof -
  have "filter (\<lambda>a. k a \<notin> k ` set p) u = u" "filter (\<lambda>a. k a \<notin> k ` set p) q = q" "filter (\<lambda>a. k a \<notin> k ` set p) p = []"
    using assms by (auto simp: filter_id_conv filter_empty_conv)
  then show ?thesis by simp
qed

lemma distinct_outer: "distinct (map k (u @ p @ q)) \<Longrightarrow> distinct (map k (u @ q))"
  by auto

lemma distinct_pages: "distinct (map k (u @ p @ q)) \<Longrightarrow> k ` set p \<inter> k ` set q = {}"
  by auto

lemma reset_pages_alternate:
  assumes "\<And>c. \<not> rt_fails env c" "\<And>n. \<not> rt_page_locked env n"
    and "due_rows (rt_now env) (rr_db r) = u @ v" "length u = off" "distinct (map ba_company_id (u @ v))"
  shows "reset_pages env off r = Some (r\<lparr>rr_db := renewed (rt_now env) (ba_company_id ` set (alternate v)) (rr_db r),
           rr_reset := rr_reset r + length (alternate v)\<rparr>)"
  using assms(3-5)
proof (induction v arbitrary: off u r rule: alternate.induct)
  case (1 v)
  let ?now = "rt_now env" and ?page = "take PAGE_SIZE v"
  show ?case
  proof (cases "v = []")
    case True
    then show ?thesis using 1(2,3) by (simp add: reset_pages.simps [of env off] alternate.simps [of "[]"] renewed_def)
  next
    case False
    then have page: "?page \<noteq> []" by (simp add: PAGE_SIZE_def)
    define r1 where "r1 = r\<lparr>rr_db := renewed ?now (ba_company_id ` set ?page) (rr_db r), rr_reset := rr_reset r + length ?page\<rparr>"
    have "distinct (map ba_company_id ?page)" using 1(4) by (simp add: distinct_take flip: take_map)
    then have "fold (reset_one (rt_fails env) ?now) (map ba_company_id ?page) r = r1"
      by (subst fold_reset_all) (simp_all add: assms(1) fold_renew_accounts renewed_def r1_def)
    then have step: "reset_pages env off r = reset_pages env (off + PAGE_SIZE) r1"
      using page 1(2,3) assms(2) by (simp add: reset_pages.simps [of env off] Let_def)
    have v: "v = ?page @ drop PAGE_SIZE v" by simp
    have split: "distinct (map ba_company_id (u @ ?page @ drop PAGE_SIZE v))" using 1(4) v by metis
    have rest: "due_rows ?now (rr_db r1) = u @ drop PAGE_SIZE v"
    proof -
      have "filter (\<lambda>a. ba_company_id a \<notin> ba_company_id ` set ?page) (u @ ?page @ drop PAGE_SIZE v) = u @ drop PAGE_SIZE v"
        using split by (rule filter_page)
      with v show ?thesis by (simp add: r1_def due_rows_renewed 1(2))
    qed
    have next_page: "drop PAGE_SIZE v = take PAGE_SIZE (drop PAGE_SIZE v) @ drop (2 * PAGE_SIZE) v"
      by (metis append_take_drop_id drop_drop mult_2)
    show ?thesis
    proof (cases "length (drop PAGE_SIZE v) \<le> PAGE_SIZE")
      case True
      then have "drop (2 * PAGE_SIZE) v = []" by simp
      then have "alternate v = ?page" using False by (simp add: alternate.simps [of v] alternate.simps [of "[]"])
      moreover have "reset_pages env (off + PAGE_SIZE) r1 = Some r1"
        using True rest 1(3) by (simp add: reset_pages.simps [of env "off + PAGE_SIZE"])
      ultimately show ?thesis using step by (simp add: r1_def)
    next
      case long: False
      let ?u = "u @ take PAGE_SIZE (drop PAGE_SIZE v)" and ?v = "drop (2 * PAGE_SIZE) v"
      have "reset_pages env (off + PAGE_SIZE) r1 = Some (r1\<lparr>rr_db := renewed ?now (ba_company_id ` set (alternate ?v)) (rr_db r1),
          rr_reset := rr_reset r1 + length (alternate ?v)\<rparr>)"
      proof (rule 1(1) [OF False])
        show "due_rows ?now (rr_db r1) = ?u @ ?v" using rest next_page by (metis append_assoc)
        show "length ?u = off + PAGE_SIZE" using 1(3) long by simp
        have "?u @ ?v = u @ drop PAGE_SIZE v" using next_page by simp
        moreover have "distinct (map ba_company_id (u @ drop PAGE_SIZE v))" using split by (rule distinct_outer)
        ultimately show "distinct (map ba_company_id (?u @ ?v))" by metis
      qed
      moreover have "ba_company_id ` set ?page \<inter> ba_company_id ` set (alternate ?v) = {}"
      proof -
        have "set ?v \<subseteq> set (drop PAGE_SIZE v)" by (subst next_page) auto
        then show ?thesis using distinct_pages [OF split] set_alternate [of ?v] by blast
      qed
      moreover have "alternate v = ?page @ alternate ?v" using False by (simp add: alternate.simps [of v])
      ultimately show ?thesis using step by (simp add: r1_def renewed_renewed image_Un Un_commute)
    qed
  qed
qed

lemma retry_nobody: "rr_skipped r = [] \<Longrightarrow> retry_skipped env r = r"
  by (simp add: retry_skipped_def numeral_3_eq_3)

text \<open>
  C17. The reset reaches every second page: if nothing fails and no reservation is live or stale, the accounts that are due are
  visited in pages of twenty, but each reset account leaves the result of the query while the offset moves on, so after the
  accounts 1 to 20 come 41 to 60, 81 to 100 and so on; the others are not reset. An account that is reached
  starts with nothing used and nothing reserved, and its debt is gone without having been charged.
\<close>

theorem reset_every_second_page:
  assumes "\<And>c. \<not> rt_fails env c" "\<And>n. \<not> rt_page_locked env n"
    and "unique_on ba_company_id (db_accounts d)" "list_all (\<lambda>a. ba_reservation_heartbeat_at a = None) (db_accounts d)"
  shows "run_reset env d = Some ((length (alternate (due_rows (rt_now env) d)), 0),
    d\<lparr>db_accounts := map (\<lambda>a. if a \<in> set (alternate (due_rows (rt_now env) d))
       then a\<lparr>ba_used_acu := 0, ba_reserved_acu := 0, ba_acu_debt := if 1/100 < ba_acu_debt a then 0 else ba_acu_debt a,
         ba_reservation_heartbeat_at := None, ba_billing_period_start := Some (rt_now env),
         ba_reset_at := Some (rt_now env + hours 720)\<rparr>
       else a) (db_accounts d)\<rparr>)"
proof -
  let ?now = "rt_now env" and ?due = "due_rows (rt_now env) d"
  have dist: "distinct (map ba_company_id (db_accounts d))" using assms(3) by (simp add: unique_on_def)
  then have "distinct (map ba_company_id ?due)" by (auto simp: due_rows_def distinct_map intro: inj_on_subset)
  then have pages: "reset_pages env 0 \<lparr>rr_db = d, rr_reset = 0, rr_skipped = []\<rparr> =
      Some \<lparr>rr_db = renewed ?now (ba_company_id ` set (alternate ?due)) d, rr_reset = length (alternate ?due), rr_skipped = []\<rparr>"
    using reset_pages_alternate [of env "\<lparr>rr_db = d, rr_reset = 0, rr_skipped = []\<rparr>" "[]" ?due 0, OF assms(1,2)] by simp
  have rows: "(ba_company_id a \<in> ba_company_id ` set (alternate ?due)) = (a \<in> set (alternate ?due))" if "a \<in> set (db_accounts d)" for a
  proof -
    have "set (alternate ?due) \<subseteq> set (db_accounts d)" using set_alternate [of ?due] by (auto simp: due_rows_def)
    with that dist show ?thesis by (auto simp: distinct_map inj_on_def)
  qed
  have accounts: "db_accounts (renewed ?now (ba_company_id ` set (alternate ?due)) d) =
      map (\<lambda>a. if a \<in> set (alternate ?due) then renew ?now a else a) (db_accounts d)"
    using rows by (simp add: renewed_def)
  have "\<not> stale_due ?now a" if "a \<in> set (db_accounts (renewed ?now (ba_company_id ` set (alternate ?due)) d))" for a
    using that assms(4) by (auto simp: accounts stale_due_def renew_exact list_all_iff split: if_splits)
  then have "reset_stale env (renewed ?now (ba_company_id ` set (alternate ?due)) d) =
      Some (0, renewed ?now (ba_company_id ` set (alternate ?due)) d)"
    by (auto simp: reset_stale_def list_ex_iff row_count_def update_where_none intro!: database.equality)
  moreover have "renewed ?now (ba_company_id ` set (alternate ?due)) d =
      d\<lparr>db_accounts := map (\<lambda>a. if a \<in> set (alternate ?due) then renew ?now a else a) (db_accounts d)\<rparr>"
    using accounts by (simp add: renewed_def)
  ultimately have "run_reset env d = Some ((length (alternate ?due), 0),
      d\<lparr>db_accounts := map (\<lambda>a. if a \<in> set (alternate ?due) then renew ?now a else a) (db_accounts d)\<rparr>)"
    by (simp add: run_reset_def pages retry_nobody)
  then show ?thesis by (simp only: renew_exact)
qed

definition due_accounts :: "nat \<Rightarrow> billing_account list" where
  "due_accounts n = map (\<lambda>i. (default_account i i 0)\<lparr>ba_reset_at := Some 0\<rparr>) [0..<n]"

lemma due_rows_due_accounts: "due_rows 0 (empty_db\<lparr>db_accounts := due_accounts n\<rparr>) = due_accounts n"
proof -
  have "filter (due 0) (due_accounts n) = due_accounts n"
    by (auto simp: due_accounts_def due_def default_account_def filter_id_conv)
  moreover have "sort_key ba_company_id (due_accounts n) = due_accounts n"
    by (rule sort_key_id_if_sorted) (simp add: due_accounts_def default_account_def comp_def)
  ultimately show ?thesis by (simp add: due_rows_def)
qed

theorem reset_every_second_page_witness:
  "map_option fst (run_reset \<lparr>rt_now = 0, rt_page_locked = (\<lambda>_. False), rt_fails = (\<lambda>_. False), rt_retry_fails = (\<lambda>_ _. False),
     rt_stale_locked = False, rt_stale_fails = (\<lambda>_. False)\<rparr> (empty_db\<lparr>db_accounts := due_accounts 25\<rparr>)) = Some (20, 0)"
proof -
  have "unique_on ba_company_id (due_accounts 25)"
    by (simp add: unique_on_def due_accounts_def default_account_def comp_def)
  moreover have "list_all (\<lambda>a. ba_reservation_heartbeat_at a = None) (due_accounts 25)"
    by (simp add: list_all_iff due_accounts_def default_account_def)
  moreover have "length (alternate (due_accounts 25)) = 20"
    by (subst alternate_one) (simp_all add: due_accounts_def PAGE_SIZE_def)
  ultimately show ?thesis by (subst reset_every_second_page) (simp_all add: due_rows_due_accounts)
qed

section \<open>The debt\<close>

definition same_claim :: "billing_account \<Rightarrow> billing_account \<Rightarrow> bool" where
  \<comment> \<open>used and owed add up to the same, nothing more than the tolerance is owed, and the rest of the row is unchanged\<close>
  "same_claim a b \<longleftrightarrow> ba_used_acu b + ba_acu_debt b = ba_used_acu a + ba_acu_debt a \<and> ba_acu_debt b \<le> 1/100 \<and>
     b\<lparr>ba_used_acu := ba_used_acu a, ba_acu_debt := ba_acu_debt a, ba_last_reconciled := ba_last_reconciled a\<rparr> = a"

lemma apply_debt_same_claim:
  assumes "numeric12 4 (ba_used_acu a)" "numeric12 4 (ba_acu_debt a)"
  shows "same_claim a (apply_debt now a)"
proof -
  have "on_grid 4 (10 ^ 12 + 10 ^ 12) (ba_used_acu a + ba_acu_debt a)" using assms by (rule on_grid_add)
  then have "quantize 4 (dec28 (ba_used_acu a + ba_acu_debt a)) = ba_used_acu a + ba_acu_debt a"
    by (simp add: on_grid_dec28 on_grid_quantize)
  then show ?thesis by (simp add: same_claim_def apply_debt_def)
qed

text \<open>
  C20. Collecting the debts moves them and loses nothing: when the task runs, every account that owes more than a hundredth has
  its debt added to what it used, in full and exactly, whatever its quota; what an account used and owed together stays the
  same for every account, no other column changes but the time of the reconciliation, and the number reported is the number of debtors.
\<close>

theorem collected_debt_is_used:
  assumes "collect_billing_debt mode now time locked retries cls (l, d) = (Ran n, l', d')"
    and "list_all (\<lambda>a. numeric12 4 (ba_used_acu a) \<and> numeric12 4 (ba_acu_debt a)) (db_accounts d)"
  shows "list_all2 same_claim (db_accounts d) (db_accounts d') \<and> d' = d\<lparr>db_accounts := db_accounts d'\<rparr> \<and>
    n = length (filter (\<lambda>a. 1/100 < ba_acu_debt a) (db_accounts d))"
proof -
  let ?debtor = "\<lambda>a. 1/100 < ba_acu_debt a"
  have run: "n = row_count ?debtor (db_accounts d)" "d' = d\<lparr>db_accounts := update_where ?debtor (apply_debt time) (db_accounts d)\<rparr>"
    using assms(1) by (auto simp: collect_billing_debt_def Let_def split: if_splits prod.splits bool.splits)
  have "same_claim a (if ?debtor a then apply_debt time a else a)" if "a \<in> set (db_accounts d)" for a
    using that assms(2) apply_debt_same_claim [of a time] by (auto simp: list_all_iff same_claim_def)
  then have "list_all2 same_claim (db_accounts d) (db_accounts d')"
    by (simp add: run update_where_def list_all2_map2 list.rel_refl_strong)
  then show ?thesis by (simp add: run row_count_def)
qed

theorem collected_debt_is_used_witness:
  "fst (collect_billing_debt Up 1000 5 False 0 [] (\<lparr>bl_redis = (\<lambda>_. None), bl_local = (\<lambda>_. None)\<rparr>,
      empty_db\<lparr>db_accounts := [(default_account 1 1 0)\<lparr>ba_used_acu := 15, ba_acu_debt := 7\<rparr>]\<rparr>)) = Ran 1"
proof -
  let ?a = "(default_account 1 1 0)\<lparr>ba_used_acu := 15, ba_acu_debt := 7\<rparr>"
  let ?run = "collect_billing_debt Up 1000 5 False 0 [] (\<lparr>bl_redis = (\<lambda>_. None), bl_local = (\<lambda>_. None)\<rparr>, empty_db\<lparr>db_accounts := [?a]\<rparr>)"
  obtain n l' d' where run: "?run = (Ran n, l', d')"
    by (auto simp: collect_billing_debt_def take_key_def live_def Let_def)
  have "numeric12 4 15" "numeric12 4 7" by (auto simp: on_grid_def intro!: exI [of _ 150000] exI [of _ 70000])
  then have "n = 1" using collected_debt_is_used [OF run] by (simp add: default_account_def)
  moreover have "fst ?run = Ran n" using run by (rule arg_cong [where f = fst, THEN trans]) simp
  ultimately show ?thesis by (simp only:)
qed

text \<open>The mark of the period is set and reported, and does not keep the reset from running again once the lock of the execution is free.\<close>

lemma period_mark_ignored:
  assumes "\<not> rt_circuit_open env" "rt_redis env = Up" "live (rt_time env) (bl_redis l) ''beat:lock:reset_billing_quotas'' = None"
  shows "map_prod id snd (reset_billing_quotas env (l, d)) =
    (case run_reset (reset_env.truncate env) d of None \<Rightarrow> (Retry_later, d) | Some (counts, d') \<Rightarrow> (Ran counts, d'))"
  using assms
  by (auto simp: reset_billing_quotas_def acquire_reset_locks_def take_key_def Let_def split: option.splits prod.splits bool.splits)

end
