(* ===== verification/DbCircuit.thy ===== *)
theory DbCircuit
  imports StripeCache
begin

text \<open>
  The circuit breaker in front of the database (\<open>src/backend/app/database.py\<close>): the state of one process, the hash in
  Redis that the processes share and its three Lua scripts, and the check that every session starts with. The pool of
  connections, the clocks and the random jitter are arguments. Redis answers \<open>HGETALL\<close> of a small hash in the order in
  which its fields were written first, and turns the numbers of a script's answer into integers.
\<close>

section \<open>The scripts\<close>

type_synonym lua_hash = "(string \<times> rat) list"

record circuit_key =
  ck_fields :: lua_hash
  ck_expires :: int

definition circuit_fields :: "int \<Rightarrow> circuit_key option \<Rightarrow> lua_hash" where
  \<comment> \<open>\<open>HGETALL\<close> at a time\<close>
  "circuit_fields now k = (case k of Some h \<Rightarrow> if now < ck_expires h then ck_fields h else [] | None \<Rightarrow> [])"

definition lua_number :: "lua_hash \<Rightarrow> string \<Rightarrow> rat \<Rightarrow> rat" where
  \<comment> \<open>\<open>tonumber(tbl[f]) or d\<close>\<close>
  "lua_number h f d = (case map_of h f of Some v \<Rightarrow> v | None \<Rightarrow> d)"

definition hset :: "string \<Rightarrow> rat \<Rightarrow> circuit_key option \<Rightarrow> circuit_key option" where
  "hset f v k = map_option (\<lambda>h. h\<lparr>ck_fields := AList.update f v (ck_fields h)\<rparr>) k"

definition opened_fields :: "int \<Rightarrow> rat \<Rightarrow> nat \<Rightarrow> lua_hash" where
  "opened_fields now cooldown level =
     [(''open'', 1), (''level'', of_nat level), (''cooldown'', cooldown), (''last_failure'', of_int now),
      (''half_open'', 0), (''half_open_probed'', 0)]"

definition lua_open :: "int \<Rightarrow> rat \<Rightarrow> nat \<Rightarrow> rat \<Rightarrow> circuit_key option \<Rightarrow> bool \<times> circuit_key option" where
  \<comment> \<open>the level is read from \<open>state[2]\<close>, which is the value of the first field\<close>
  "lua_open now cooldown level max_cooldown k =
     (case circuit_fields now k of
        (_, v) # _ \<Rightarrow>
          if of_nat level \<le> v then (False, k)
          else (True, Some \<lparr>ck_fields = opened_fields now cooldown level, ck_expires = now + \<lceil>max_cooldown * 2\<rceil>\<rparr>)
      | [] \<Rightarrow> (True, Some \<lparr>ck_fields = opened_fields now cooldown level, ck_expires = now + \<lceil>max_cooldown * 2\<rceil>\<rparr>))"

record circuit_reply =
  cr_open :: bool
  cr_probe :: bool
  cr_remaining :: int
  cr_half_open :: bool

definition lua_check :: "int \<Rightarrow> circuit_key option \<Rightarrow> circuit_reply \<times> circuit_key option" where
  "lua_check now k =
     (let tbl = circuit_fields now k;
          closed = \<lparr>cr_open = False, cr_probe = False, cr_remaining = 0, cr_half_open = False\<rparr>;
          probe = \<lparr>cr_open = True, cr_probe = True, cr_remaining = 0, cr_half_open = True\<rparr> in
      if tbl = [] then (closed, k)
      else if map_of tbl ''open'' \<noteq> Some 1 then (closed, k)
      else
        let last_failure = lua_number tbl ''last_failure'' 0; cooldown = lua_number tbl ''cooldown'' 30;
            elapsed = of_int now - last_failure; half_open = lua_number tbl ''half_open'' 0 in
        if elapsed \<le> cooldown
        then (\<lparr>cr_open = True, cr_probe = False, cr_remaining = \<lfloor>cooldown - elapsed\<rfloor>, cr_half_open = (half_open = 1)\<rparr>, k)
        else if half_open = 0 then (probe, hset ''half_open'' 1 k)
        else if lua_number tbl ''half_open_probed'' 0 = 0 then (probe, hset ''half_open_probed'' 1 k)
        else (\<lparr>cr_open = True, cr_probe = False, cr_remaining = \<lfloor>cooldown\<rfloor>, cr_half_open = True\<rparr>,
              hset ''last_failure'' (of_int now) k))"

section \<open>The state of a process\<close>

definition POOL_CIRCUIT_ERROR_THRESHOLD :: nat where "POOL_CIRCUIT_ERROR_THRESHOLD = 3"
definition POOL_CIRCUIT_BASE_COOLDOWN :: pyfloat where "POOL_CIRCUIT_BASE_COOLDOWN = 30"
definition POOL_CIRCUIT_MAX_COOLDOWN :: pyfloat where "POOL_CIRCUIT_MAX_COOLDOWN = 300"

record db_circuit =
  dc_open :: bool
  dc_last_failure :: pyfloat
  dc_errors :: nat
  dc_cooldown :: pyfloat
  dc_level :: nat
  dc_half_open :: bool
  dc_probed :: bool

definition new_db_circuit :: db_circuit where
  "new_db_circuit = \<lparr>dc_open = False, dc_last_failure = 0, dc_errors = 0, dc_cooldown = POOL_CIRCUIT_BASE_COOLDOWN,
     dc_level = 0, dc_half_open = False, dc_probed = False\<rparr>"

record pool_state =
  pl_checkedin :: int
  pl_overflow :: int
  pl_checkedout :: int
  pl_total :: "int option"  \<comment> \<open>\<open>None\<close>: the pool has no such method\<close>

record circuit_env =
  ce_client :: "redis_mode option"  \<comment> \<open>\<open>None\<close>: asking for the client raises\<close>
  ce_replica_lag :: pyfloat
  ce_now :: int  \<comment> \<open>\<open>TIME\<close> of Redis\<close>
  ce_mono :: pyfloat
  ce_jitter :: pyfloat  \<comment> \<open>the value of \<open>random.uniform\<close>\<close>
  ce_pool :: "pool_state option"  \<comment> \<open>\<open>None\<close>: there is no engine\<close>

definition get_circuit_redis :: "circuit_env \<Rightarrow> redis_mode" where
  \<comment> \<open>after an error the function returns the replica lag, a number: zero is false, and others are no client\<close>
  "get_circuit_redis env = (case ce_client env of Some m \<Rightarrow> m | None \<Rightarrow> if ce_replica_lag env = 0 then Absent else Failing)"

datatype circuit_answer = Admitted | Unavailable | Type_error

definition probe_answer :: "pool_state option \<Rightarrow> circuit_answer" where
  \<comment> \<open>the look at the pool before a probe: every exception meets an \<open>except\<close> clause whose class is not an exception\<close>
  "probe_answer p = (case p of
       None \<Rightarrow> Type_error
     | Some p \<Rightarrow>
         if pl_checkedin p = 0 \<and> 0 \<le> pl_overflow p
         then (case pl_total p of None \<Rightarrow> Type_error | Some tot \<Rightarrow> if tot \<le> pl_checkedout p then Type_error else Admitted)
         else Admitted)"

definition pool_exhausted :: "pool_state option \<Rightarrow> bool" where
  "pool_exhausted p = (case p of
       Some p \<Rightarrow> pl_checkedin p = 0 \<and> 0 \<le> pl_overflow p \<and> (case pl_total p of Some tot \<Rightarrow> tot \<le> pl_checkedout p | None \<Rightarrow> False)
     | None \<Rightarrow> False)"

definition get_cooldown_with_jitter :: "circuit_env \<Rightarrow> db_circuit \<Rightarrow> pyfloat" where
  "get_cooldown_with_jitter env c = fadd (dc_cooldown c) (ce_jitter env)"

definition check_local :: "circuit_env \<Rightarrow> db_circuit \<Rightarrow> circuit_answer \<times> db_circuit" where
  "check_local env c =
     (if \<not> dc_open c then (Admitted, c)
      else if get_cooldown_with_jitter env c < fsub (ce_mono env) (dc_last_failure c)
      then
        let c1 = (if \<not> dc_half_open c then c\<lparr>dc_half_open := True, dc_probed := False\<rparr> else c) in
        if \<not> dc_probed c1 then (Admitted, c1\<lparr>dc_probed := True\<rparr>)
        else (Unavailable, c1\<lparr>dc_last_failure := ce_mono env\<rparr>)
      else (Unavailable, c))"

definition check_db_circuit ::
    "circuit_env \<Rightarrow> db_circuit \<times> circuit_key option \<Rightarrow> circuit_answer \<times> db_circuit \<times> circuit_key option" where
  \<comment> \<open>\<open>except _db_unavailable.__class__\<close> names the type of functions, so an exception that reaches it becomes a \<open>TypeError\<close>\<close>
  "check_db_circuit env = (\<lambda>(c, k).
     case get_circuit_redis env of
       Absent \<Rightarrow> (case check_local env c of (a, c1) \<Rightarrow> (a, c1, k))
     | Failing \<Rightarrow> (Type_error, c, k)
     | Up \<Rightarrow>
         (case lua_check (ce_now env) k of (reply, k1) \<Rightarrow>
            if \<not> cr_open reply then (Admitted, c, k1)
            else if cr_probe reply
            then (probe_answer (ce_pool env),
                  if pool_exhausted (ce_pool env) then c\<lparr>dc_last_failure := ce_mono env\<rparr> else c, k1)
            else (Type_error, c, k1)))"

definition backoff_cooldown :: "nat \<Rightarrow> pyfloat option" where
  \<comment> \<open>\<open>None\<close>: the power does not fit a float\<close>
  "backoff_cooldown level =
     (if level - 1 < 1024 then Some (min (POOL_CIRCUIT_BASE_COOLDOWN * 2 ^ (level - 1)) POOL_CIRCUIT_MAX_COOLDOWN) else None)"

definition record_pool_exhaustion ::
    "circuit_env \<Rightarrow> db_circuit \<times> circuit_key option \<Rightarrow> bool \<times> db_circuit \<times> circuit_key option" where
  \<comment> \<open>whether it returns\<close>
  "record_pool_exhaustion env = (\<lambda>(c, k).
     let c1 = c\<lparr>dc_level := dc_level c + 1\<rparr> in
     case backoff_cooldown (dc_level c1) of
       None \<Rightarrow> (False, c1, k)
     | Some cooldown \<Rightarrow>
         let c2 = c1\<lparr>dc_cooldown := cooldown\<rparr>;
             (stored, k1) = (if get_circuit_redis env = Up
                             then lua_open (ce_now env) cooldown (dc_level c2) POOL_CIRCUIT_MAX_COOLDOWN k else (False, k))
         in if stored then (True, c2, k1)
            else (True, c2\<lparr>dc_open := True, dc_last_failure := ce_mono env, dc_half_open := False, dc_probed := False\<rparr>, k1))"

definition record_db_error ::
    "circuit_env \<Rightarrow> db_circuit \<times> circuit_key option \<Rightarrow> bool \<times> db_circuit \<times> circuit_key option" where
  "record_db_error env = (\<lambda>(c, k).
     let c1 = c\<lparr>dc_errors := dc_errors c + 1\<rparr> in
     if POOL_CIRCUIT_ERROR_THRESHOLD \<le> dc_errors c1 then record_pool_exhaustion env (c1, k) else (True, c1, k))"

definition reset_circuit_breaker :: "circuit_env \<Rightarrow> db_circuit \<times> circuit_key option \<Rightarrow> db_circuit \<times> circuit_key option" where
  "reset_circuit_breaker env = (\<lambda>(c, k).
     (c\<lparr>dc_open := False, dc_errors := 0, dc_cooldown := POOL_CIRCUIT_BASE_COOLDOWN, dc_level := 0, dc_half_open := False,
        dc_probed := False\<rparr>,
      if get_circuit_redis env = Up then None else k))"

section \<open>Several processes\<close>

definition check_by ::
    "nat \<times> circuit_env \<Rightarrow> db_circuit list \<times> circuit_key option \<Rightarrow> circuit_answer \<times> db_circuit list \<times> circuit_key option" where
  "check_by = (\<lambda>(i, env) (ps, k). case check_db_circuit env (ps ! i, k) of (a, c, k1) \<Rightarrow> (a, ps[i := c], k1))"

fun run_checks ::
    "(nat \<times> circuit_env) list \<Rightarrow> db_circuit list \<times> circuit_key option \<Rightarrow> circuit_answer list \<times> db_circuit list \<times> circuit_key option" where
  "run_checks [] s = ([], s)"
| "run_checks (e # es) s = (case check_by e s of (a, s1) \<Rightarrow> case run_checks es s1 of (as, s2) \<Rightarrow> (a # as, s2))"

lemma fst_run_checks_Cons: "fst (run_checks (e # es) s) = fst (check_by e s) # fst (run_checks es (snd (check_by e s)))"
  by (simp add: split_def)

lemma check_by_eq: "check_db_circuit env (ps ! i, k) = (a, c, k1) \<Longrightarrow> check_by (i, env) (ps, k) = (a, ps[i := c], k1)"
  by (simp add: check_by_def)

definition circuit_key_of :: "int \<Rightarrow> rat \<Rightarrow> nat \<Rightarrow> rat \<Rightarrow> bool \<Rightarrow> bool \<Rightarrow> circuit_key" where
  \<comment> \<open>the key of an opened circuit, by what the script reads of it\<close>
  "circuit_key_of expires cooldown level last_failure half probed =
     \<lparr>ck_fields = [(''open'', 1), (''level'', of_nat level), (''cooldown'', cooldown), (''last_failure'', last_failure),
        (''half_open'', of_bool half), (''half_open_probed'', of_bool probed)], ck_expires = expires\<rparr>"

lemma lua_check_key:
  assumes "now < expires"
  shows "lua_check now (Some (circuit_key_of expires cooldown level lf half probed)) =
    (if of_int now - lf \<le> cooldown
     then (\<lparr>cr_open = True, cr_probe = False, cr_remaining = \<lfloor>cooldown - (of_int now - lf)\<rfloor>, cr_half_open = half\<rparr>,
           Some (circuit_key_of expires cooldown level lf half probed))
     else if \<not> half then (\<lparr>cr_open = True, cr_probe = True, cr_remaining = 0, cr_half_open = True\<rparr>,
           Some (circuit_key_of expires cooldown level lf True probed))
     else if \<not> probed then (\<lparr>cr_open = True, cr_probe = True, cr_remaining = 0, cr_half_open = True\<rparr>,
           Some (circuit_key_of expires cooldown level lf half True))
     else (\<lparr>cr_open = True, cr_probe = False, cr_remaining = \<lfloor>cooldown\<rfloor>, cr_half_open = True\<rparr>,
           Some (circuit_key_of expires cooldown level (of_int now) half probed)))"
  using assms by (auto simp: lua_check_def circuit_fields_def circuit_key_of_def lua_number_def hset_def Let_def)

text \<open>How many probes a key still allows.\<close>

definition probes_left :: "bool \<Rightarrow> bool \<Rightarrow> nat" where
  "probes_left half probed = (if \<not> half then (if probed then 1 else 2) else if \<not> probed then 1 else 0)"

lemma check_key_exact:
  assumes "get_circuit_redis env = Up" "ce_now env < expires"
  shows "check_db_circuit env (c, Some (circuit_key_of expires cooldown level lf half probed)) =
    (let asked = (probe_answer (ce_pool env), if pool_exhausted (ce_pool env) then c\<lparr>dc_last_failure := ce_mono env\<rparr> else c) in
     if of_int (ce_now env) - lf \<le> cooldown then (Type_error, c, Some (circuit_key_of expires cooldown level lf half probed))
     else if \<not> half then (fst asked, snd asked, Some (circuit_key_of expires cooldown level lf True probed))
     else if \<not> probed then (fst asked, snd asked, Some (circuit_key_of expires cooldown level lf half True))
     else (Type_error, c, Some (circuit_key_of expires cooldown level (of_int (ce_now env)) half probed)))"
  using assms by (simp add: check_db_circuit_def lua_check_key Let_def)

lemma check_key:
  assumes "get_circuit_redis env = Up" "ce_now env < expires"
  obtains a c' lf' half' probed' where
    "check_db_circuit env (c, Some (circuit_key_of expires cooldown level lf half probed)) =
       (a, c', Some (circuit_key_of expires cooldown level lf' half' probed'))"
    "(if a = Admitted then 1 else 0) + probes_left half' probed' \<le> probes_left half probed"
proof -
  let ?asked = "if pool_exhausted (ce_pool env) then c\<lparr>dc_last_failure := ce_mono env\<rparr> else c"
  note exact = check_key_exact [OF assms, of c cooldown level lf half probed, unfolded Let_def fst_conv snd_conv]
  consider "of_int (ce_now env) - lf \<le> cooldown" | "\<not> of_int (ce_now env) - lf \<le> cooldown" "\<not> half"
    | "\<not> of_int (ce_now env) - lf \<le> cooldown" "half" "\<not> probed" | "\<not> of_int (ce_now env) - lf \<le> cooldown" "half" "probed" by blast
  then show thesis
  proof cases
    case 1
    show thesis by (rule that [OF exact [unfolded if_P [OF 1]]]) simp
  next
    case 2
    show thesis by (rule that [OF exact [unfolded if_not_P [OF 2(1)] if_P [OF 2(2)]]]) (use 2 in \<open>simp add: probes_left_def\<close>)
  next
    case 3
    show thesis
      by (rule that [of "probe_answer (ce_pool env)" ?asked lf half True]) (use 3 exact in \<open>simp_all add: probes_left_def\<close>)
  next
    case 4
    show thesis
      by (rule that [of Type_error c "of_int (ce_now env)" half probed]) (use 4 exact in \<open>simp_all add: probes_left_def\<close>)
  qed
qed

lemma admitted_by_key:
  assumes "list_all (\<lambda>(i, env). get_circuit_redis env = Up \<and> ce_now env < expires) checks"
  shows "length (filter (\<lambda>a. a = Admitted) (fst (run_checks checks (ps, Some (circuit_key_of expires cooldown level lf half probed)))))
    \<le> probes_left half probed"
  using assms
proof (induction checks arbitrary: ps lf half probed)
  case (Cons e checks)
  obtain i env where e: "e = (i, env)" by (cases e)
  with Cons.prems have "get_circuit_redis env = Up" "ce_now env < expires" by simp_all
  then obtain a c' lf' half' probed' where step:
      "check_db_circuit env (ps ! i, Some (circuit_key_of expires cooldown level lf half probed)) =
         (a, c', Some (circuit_key_of expires cooldown level lf' half' probed'))"
    and left: "(if a = Admitted then 1 else 0) + probes_left half' probed' \<le> probes_left half probed" by (rule check_key)
  have "length (filter (\<lambda>a. a = Admitted)
      (fst (run_checks checks (ps[i := c'], Some (circuit_key_of expires cooldown level lf' half' probed'))))) \<le> probes_left half' probed'"
    using Cons by simp
  with left show ?case by (simp add: e fst_run_checks_Cons check_by_eq [OF step] del: run_checks.simps split: if_splits)
qed simp

lemma lua_open_key:
  "lua_open now cooldown level 300 None = (True, Some (circuit_key_of (now + 600) cooldown level (of_int now) False False))"
  by (simp add: lua_open_def circuit_fields_def opened_fields_def circuit_key_of_def)

text \<open>
  C8. An opening of the shared circuit admits two probes: while the key of the opening lives, the processes together get at most two
  requests through, whatever the order and the times of their checks; and two it is, not one: when the cooldown has passed,
  the first two checks are admitted, because the first only marks the circuit half open.
\<close>

theorem two_probes:
  assumes "snd (lua_open t cooldown level 300 None) = k"
    and "list_all (\<lambda>(i, env). get_circuit_redis env = Up \<and> ce_now env < t + 600) checks"
  shows "length (filter (\<lambda>a. a = Admitted) (fst (run_checks checks (ps, k)))) \<le> 2 \<and>
    (checks = (i, env) # (j, env') # rest \<and> cooldown < of_int (ce_now env - t) \<and> cooldown < of_int (ce_now env' - t) \<and>
       probe_answer (ce_pool env) = Admitted \<and> probe_answer (ce_pool env') = Admitted \<longrightarrow>
     take 2 (fst (run_checks checks (ps, k))) = [Admitted, Admitted])"
proof -
  have k: "k = Some (circuit_key_of (t + 600) cooldown level (of_int t) False False)" using assms(1) by (simp add: lua_open_key)
  have "length (filter (\<lambda>a. a = Admitted) (fst (run_checks checks (ps, k)))) \<le> 2"
    using admitted_by_key [OF assms(2), of ps cooldown level "of_int t" False False] by (simp add: k probes_left_def)
  moreover have "take 2 (fst (run_checks checks (ps, k))) = [Admitted, Admitted]"
    if "checks = (i, env) # (j, env') # rest" "cooldown < of_int (ce_now env - t)" "cooldown < of_int (ce_now env' - t)"
      "probe_answer (ce_pool env) = Admitted" "probe_answer (ce_pool env') = Admitted"
    using that assms(2) by (simp add: k fst_run_checks_Cons check_by_def check_key_exact Let_def del: run_checks.simps)
  ultimately show ?thesis by blast
qed

text \<open>
  A circuit that is open for all processes never answers that the database is unavailable: with a client for Redis the check
  either admits the request or fails with a type error, because the clause that should pass the exception on names a
  class that is not one; and when Redis does not answer, every request fails that way, although the database may be well.
\<close>

theorem redis_check_never_unavailable:
  assumes "get_circuit_redis env \<noteq> Absent"
  shows "fst (check_db_circuit env s) \<noteq> Unavailable \<and>
    (get_circuit_redis env = Failing \<longrightarrow> check_db_circuit env s = (Type_error, s))"
  using assms
  by (cases s) (auto simp: check_db_circuit_def probe_answer_def split: redis_mode.splits prod.splits option.splits if_splits)

definition plain_env :: "redis_mode \<Rightarrow> int \<Rightarrow> circuit_env" where
  \<comment> \<open>both clocks alike, no jitter, free connections\<close>
  "plain_env mode now = \<lparr>ce_client = Some mode, ce_replica_lag = 0, ce_now = now, ce_mono = of_int now, ce_jitter = 0,
     ce_pool = Some \<lparr>pl_checkedin = 3, pl_overflow = -2, pl_checkedout = 0, pl_total = None\<rparr>\<rparr>"

theorem two_probes_witness:
  "take 2 (fst (run_checks [(0, plain_env Up 131), (1, plain_env Up 132), (0, plain_env Up 133)]
     ([new_db_circuit, new_db_circuit], snd (lua_open 100 30 1 300 None)))) = [Admitted, Admitted]"
  using two_probes [OF refl, where t = 100 and cooldown = 30 and level = 1 and i = 0 and j = 1 and env = "plain_env Up 131"
      and env' = "plain_env Up 132" and rest = "[(0, plain_env Up 133)]" and ps = "[new_db_circuit, new_db_circuit]"
      and checks = "[(0, plain_env Up 131), (1, plain_env Up 132), (0, plain_env Up 133)]"]
  by (simp add: plain_env_def get_circuit_redis_def probe_answer_def del: One_nat_def run_checks.simps)

theorem redis_check_never_unavailable_witness:
  "check_db_circuit (plain_env Failing 5) (new_db_circuit, None) = (Type_error, new_db_circuit, None)"
  using redis_check_never_unavailable [of "plain_env Failing 5" "(new_db_circuit, None)"] by (simp add: plain_env_def get_circuit_redis_def)

lemma local_used_up:
  assumes "get_circuit_redis env = Absent" "dc_open c" "dc_half_open c" "dc_probed c"
  obtains c' where "check_by (0, env) ([c], k) = (Unavailable, [c'], k)" "dc_open c'" "dc_half_open c'" "dc_probed c'"
proof (cases "get_cooldown_with_jitter env c < fsub (ce_mono env) (dc_last_failure c)")
  case True
  then show thesis
    using assms by (intro that [of "c\<lparr>dc_last_failure := ce_mono env\<rparr>"]) (simp_all add: check_by_def check_db_circuit_def check_local_def)
next
  case False
  then show thesis
    using assms by (intro that [of c]) (simp_all add: check_by_def check_db_circuit_def check_local_def)
qed

text \<open>
  C18. Without Redis a process asks the database once and never again: after the cooldown of an opened circuit one check is admitted,
  and from then on every check is refused, however much later it comes, until an error or a success of a
  request is recorded, for which there has to be a request.
\<close>

theorem local_circuit_stays_open:
  assumes "dc_open c" "\<not> dc_half_open c" "get_cooldown_with_jitter env c < fsub (ce_mono env) (dc_last_failure c)"
    and "list_all (\<lambda>env. get_circuit_redis env = Absent) (env # envs)"
  shows "fst (run_checks (map (Pair 0) (env # envs)) ([c], k)) = Admitted # replicate (length envs) Unavailable"
proof -
  have rest: "fst (run_checks (map (Pair 0) envs) ([c], k)) = replicate (length envs) Unavailable"
    if "dc_open c" "dc_half_open c" "dc_probed c" for c
    using that assms(4)
  proof (induction envs arbitrary: c)
    case (Cons e envs)
    from Cons.prems obtain c' where "check_by (0, e) ([c], k) = (Unavailable, [c'], k)" "dc_open c'" "dc_half_open c'" "dc_probed c'"
      by (auto elim: local_used_up [of e c k])
    with Cons show ?case by (simp add: fst_run_checks_Cons del: run_checks.simps(2))
  qed simp
  have "check_by (0, env) ([c], k) = (Admitted, [c\<lparr>dc_half_open := True, dc_probed := True\<rparr>], k)"
    using assms by (simp add: check_by_def check_db_circuit_def check_local_def Let_def)
  with rest [of "c\<lparr>dc_half_open := True, dc_probed := True\<rparr>"] assms(1) show ?thesis
    by (simp add: fst_run_checks_Cons del: run_checks.simps(2))
qed

theorem local_circuit_stays_open_witness:
  "fst (run_checks (map (Pair 0) [plain_env Absent 131, plain_env Absent 200, plain_env Absent 1000000])
     ([new_db_circuit\<lparr>dc_open := True, dc_last_failure := 100\<rparr>], None)) = [Admitted, Unavailable, Unavailable]"
proof -
  have "fst (run_checks (map (Pair 0) (plain_env Absent 131 # [plain_env Absent 200, plain_env Absent 1000000]))
      ([new_db_circuit\<lparr>dc_open := True, dc_last_failure := 100\<rparr>], None)) =
    Admitted # replicate (length [plain_env Absent 200, plain_env Absent 1000000]) Unavailable"
    by (rule local_circuit_stays_open)
      (simp_all add: new_db_circuit_def plain_env_def get_circuit_redis_def get_cooldown_with_jitter_def POOL_CIRCUIT_BASE_COOLDOWN_def
        fadd_def fsub_def f64_numeral)
  then show ?thesis by (simp add: numeral_2_eq_2)
qed

section \<open>Opening again\<close>

lemma lua_open_again:
  assumes "now < expires"
  shows "lua_open now cooldown level 300 (Some (circuit_key_of expires cooldown' level' lf half probed)) =
    (if level \<le> 1 then (False, Some (circuit_key_of expires cooldown' level' lf half probed))
     else (True, Some (circuit_key_of (now + 600) cooldown level (of_int now) False False)))"
  using assms by (simp add: lua_open_def circuit_fields_def circuit_key_of_def opened_fields_def)

lemma backoff_cooldowns: "map backoff_cooldown [1, 2, 3, 4, 5, 6] = map Some [30, 60, 120, 240, 300, 300]"
  by (simp add: backoff_cooldown_def POOL_CIRCUIT_BASE_COOLDOWN_def POOL_CIRCUIT_MAX_COOLDOWN_def)

text \<open>
  The shared back-off can be lowered: a process that counts its second exhaustion stores its own level and its cooldown of
  a minute in place of whatever level another process has reached, and takes the marks of the probes away, because the script
  compares with the mark that the circuit is open instead of the level.
\<close>

theorem lower_level_replaces:
  assumes "get_circuit_redis env = Up" "ce_now env < expires" "dc_level c = 1"
  shows "record_pool_exhaustion env (c, Some (circuit_key_of expires 300 level lf half probed)) =
    (True, c\<lparr>dc_level := 2, dc_cooldown := 60\<rparr>, Some (circuit_key_of (ce_now env + 600) 60 2 (of_int (ce_now env)) False False))"
  using assms
  by (simp add: record_pool_exhaustion_def backoff_cooldown_def POOL_CIRCUIT_BASE_COOLDOWN_def POOL_CIRCUIT_MAX_COOLDOWN_def
      lua_open_again numeral_2_eq_2)

theorem lower_level_replaces_witness:
  "map_option ck_fields (snd (snd (record_pool_exhaustion (plain_env Up 150)
     (new_db_circuit\<lparr>dc_level := 1\<rparr>, Some (circuit_key_of 700 300 5 100 True True))))) = Some (opened_fields 150 60 2)"
  using lower_level_replaces [of "plain_env Up 150" 700 "new_db_circuit\<lparr>dc_level := 1\<rparr>" 5 100 True True]
  by (simp add: plain_env_def get_circuit_redis_def circuit_key_of_def opened_fields_def)

end
