(* ===== verification/DbSession.thy ===== *)
theory DbSession
  imports DbCircuit OutputChecks
begin

text \<open>
  Database sessions and the tenant that row-level security sees: \<open>get_db\<close> and its variants, the retry helpers and the
  statement filter of \<open>src/backend/app/database.py\<close>, \<open>app/db/rls.py\<close>, \<open>app/db/transactional.py\<close>, the policies
  that the migrations install, and the order of the dependencies of an authenticated request (\<open>app/auth/dependencies.py\<close>).
  \<open>SET\<close> and \<open>RESET\<close> belong to the transaction in which they run: a rollback takes them back. A session that is closed
  rolls back and returns its connection to the pool as it is.
\<close>

section \<open>The settings of a connection and the policies\<close>

datatype rls_tenant = Unset | Blocked | Tenant uuid

record guc =
  g_tenant :: rls_tenant
  g_bypass :: bool

record connection =
  cn_committed :: guc
  cn_current :: guc

definition fresh_connection :: connection where
  "fresh_connection = \<lparr>cn_committed = \<lparr>g_tenant = Unset, g_bypass = False\<rparr>, cn_current = \<lparr>g_tenant = Unset, g_bypass = False\<rparr>\<rparr>"

definition visible :: "connection \<Rightarrow> uuid \<Rightarrow> bool" where
  \<comment> \<open>the two policies of a table with a company: a row is seen, and may be written, if one of them admits it\<close>
  "visible c company \<longleftrightarrow> g_tenant (cn_current c) = Tenant company \<or> g_bypass (cn_current c)"

definition set_rls_tenant_context :: "uuid \<Rightarrow> connection \<Rightarrow> connection" where
  "set_rls_tenant_context t c = c\<lparr>cn_current := (cn_current c)\<lparr>g_tenant := Tenant t\<rparr>\<rparr>"

definition set_rls_block_context :: "connection \<Rightarrow> connection" where
  "set_rls_block_context c = c\<lparr>cn_current := (cn_current c)\<lparr>g_tenant := Blocked\<rparr>\<rparr>"

definition set_rls_bypass_context :: "connection \<Rightarrow> connection" where
  "set_rls_bypass_context c = c\<lparr>cn_current := (cn_current c)\<lparr>g_bypass := True\<rparr>\<rparr>"

definition clear_rls_tenant_context :: "connection \<Rightarrow> connection" where
  "clear_rls_tenant_context c = c\<lparr>cn_current := \<lparr>g_tenant = Unset, g_bypass = False\<rparr>\<rparr>"

definition commit :: "connection \<Rightarrow> connection" where "commit c = c\<lparr>cn_committed := cn_current c\<rparr>"
definition rollback :: "connection \<Rightarrow> connection" where "rollback c = c\<lparr>cn_current := cn_committed c\<rparr>"
definition close :: "connection \<Rightarrow> connection" where "close c = rollback c"

definition enter_tenant :: "uuid option \<Rightarrow> connection \<Rightarrow> connection" where
  "enter_tenant t c = (case t of Some t \<Rightarrow> set_rls_tenant_context t c | None \<Rightarrow> set_rls_block_context c)"

lemmas rls_defs = set_rls_tenant_context_def set_rls_block_context_def set_rls_bypass_context_def clear_rls_tenant_context_def
  commit_def rollback_def close_def enter_tenant_def

section \<open>Errors\<close>

definition RETRYABLE_PG_CODES :: "string list" where "RETRYABLE_PG_CODES = [''40001'', ''40P01'', ''55P03'']"

definition is_retryable_error :: "string \<Rightarrow> bool" where
  \<comment> \<open>of \<open>str(exc)\<close>: the SQLSTATE itself, \<open>exc.orig.sqlstate\<close>, is not looked at\<close>
  "is_retryable_error exc = list_ex (\<lambda>code. contains code exc) RETRYABLE_PG_CODES"

definition pool_timeout :: "string \<Rightarrow> bool" where
  "pool_timeout exc \<longleftrightarrow> contains ''timeout'' (lower exc) \<and> contains ''pool'' (lower exc)"

section \<open>The session of a request\<close>

datatype db_variant = Writer | Refresh | Readonly

datatype 'a served = Refused circuit_answer | Served 'a | Db_unavailable | Raised string | Second_yield

record 'a db_env =
  de_circuit :: circuit_env
  de_tenant :: "uuid option"
  de_body :: "connection \<Rightarrow> (string + 'a) \<times> connection"
  de_commit :: "string option"  \<comment> \<open>the text of the error, if committing fails\<close>

definition MAX_RETRIES :: nat where "MAX_RETRIES = 2"

definition close_session :: "connection \<Rightarrow> connection" where
  "close_session c = close (clear_rls_tenant_context c)"

definition session_failed ::
    "db_variant \<Rightarrow> 'a db_env \<Rightarrow> string \<Rightarrow> db_circuit \<times> circuit_key option \<Rightarrow> connection \<Rightarrow>
     'a served \<times> (db_circuit \<times> circuit_key option) \<times> connection" where
  \<comment> \<open>the handler of the first attempt. After a retryable error the generator yields a session a second time, which the
      protocol of a context manager refuses; the second session is opened and closed\<close>
  "session_failed variant env exc s c =
     (let c1 = close_session (rollback c); circ = de_circuit env in
      if pool_timeout exc
      then (case record_pool_exhaustion circ s of (returns, s1) \<Rightarrow> (if returns then Db_unavailable else Raised ''OverflowError'', s1, c1))
      else if is_retryable_error exc
      then (case (if variant = Writer then record_db_error circ s else (True, s)) of
             (returns, s1) \<Rightarrow> if \<not> returns then (Raised ''OverflowError'', s1, c1)
                             else (Second_yield, s1, close_session (enter_tenant (de_tenant env) c1)))
      else (Raised exc, s, c1))"

definition get_db ::
    "db_variant \<Rightarrow> 'a db_env \<Rightarrow> (db_circuit \<times> circuit_key option) \<times> connection \<Rightarrow>
     'a served \<times> (db_circuit \<times> circuit_key option) \<times> connection" where
  \<comment> \<open>\<open>get_db_with_refresh\<close> awaits the result of \<open>expire_all\<close>, which is \<open>None\<close>\<close>
  "get_db variant env = (\<lambda>(s, c).
     case check_db_circuit (de_circuit env) s of
       (Admitted, s1) \<Rightarrow>
         (case de_body env (enter_tenant (de_tenant env) c) of
            (Inl exc, c1) \<Rightarrow> session_failed variant env exc s1 c1
          | (Inr a, c1) \<Rightarrow>
              (case de_commit env of
                 Some exc \<Rightarrow> session_failed variant env exc s1 c1
               | None \<Rightarrow>
                   if variant = Refresh
                   then session_failed variant env ''object NoneType can't be used in 'await' expression'' s1 (commit c1)
                   else (Served a, reset_circuit_breaker (de_circuit env) s1, close_session (commit c1))))
     | (answer, s1) \<Rightarrow> (Refused answer, s1, c))"

section \<open>Retries elsewhere\<close>

fun celery_attempts :: "nat \<Rightarrow> (nat \<Rightarrow> string + 'a) \<Rightarrow> nat \<Rightarrow> (string + 'a) \<times> nat" where
  \<comment> \<open>\<open>run_celery_tx_with_retry\<close> from an attempt on, with the attempts left: what it returns or raises, and the transactions begun\<close>
  "celery_attempts 0 tx n = (Inl ''DB retry exhausted'', n)"
| "celery_attempts (Suc left) tx n =
     (case tx n of
        Inr a \<Rightarrow> (Inr a, Suc n)
      | Inl exc \<Rightarrow> if is_retryable_error exc \<and> 0 < left then celery_attempts left tx (Suc n) else (Inl exc, Suc n))"

definition run_celery_tx_with_retry :: "nat \<Rightarrow> (nat \<Rightarrow> string + 'a) \<Rightarrow> (string + 'a) \<times> nat" where
  "run_celery_tx_with_retry max_retries tx = celery_attempts max_retries tx 0"

fun transactional_attempts ::
    "nat \<Rightarrow> (nat \<Rightarrow> connection \<Rightarrow> (string + 'a) \<times> connection) \<Rightarrow> nat \<Rightarrow> connection \<Rightarrow> (string + 'a) \<times> connection" where
  \<comment> \<open>the wrapper around a handler that was given a session: the attempts use that session again\<close>
  "transactional_attempts left tx n c =
     (case tx n c of
        (Inr a, c1) \<Rightarrow> (Inr a, commit c1)
      | (Inl exc, c1) \<Rightarrow>
          if pool_timeout exc then (Inl ''Database connection pool exhausted'', rollback c1)
          else if is_retryable_error exc
          then (case left of 0 \<Rightarrow> (Inl exc, rollback c1) | Suc left \<Rightarrow> transactional_attempts left tx (Suc n) (rollback c1))
          else (Inl exc, rollback c1))"

section \<open>The filter of statements\<close>

record sql_statement =
  sq_text :: string  \<comment> \<open>as compiled\<close>
  sq_table :: "string option"
  sq_dml :: bool
  sq_select :: bool
  sq_has_company :: bool  \<comment> \<open>\<open>clause.columns\<close> has a company\<close>

definition TENANT_SCOPED_TABLES :: "string list" where
  "TENANT_SCOPED_TABLES =
     [''users'', ''customers'', ''jobs'', ''job_media'', ''ai_outputs'', ''quotes'', ''billing_accounts'', ''usage_ledger'',
      ''invoices'', ''company_pricing_brains'', ''services'', ''estimates'', ''estimate_line_items'', ''historical_job_data'',
      ''ai_job_estimates'', ''notifications'', ''push_tokens'', ''analytics_events'', ''idempotency_keys'', ''job_audit_logs'',
      ''billing_audit_logs'', ''ai_output_feedback'', ''execution_traces'', ''estimate_audit_logs'', ''user_audit_logs'',
      ''integration_connections'', ''import_jobs'', ''import_logs'', ''mapping_rules'']"

definition query_has_company_id :: "string \<Rightarrow> bool" where
  "query_has_company_id txt =
     (let raw = lower txt in
      contains ''company_id'' raw \<and>
      (contains ''company_id = '' raw \<or> contains ''company_id='' raw \<or> contains ''company_id in'' raw \<or>
       contains ''company_id IN'' raw \<or> contains ''company_id ='' raw))"

definition filter_added :: "uuid option \<Rightarrow> sql_statement \<Rightarrow> bool" where
  "filter_added tid q \<longleftrightarrow>
     tid \<noteq> None \<and> (sq_select q \<or> sq_dml q) \<and>
     (case sq_table q of Some t \<Rightarrow> t \<in> set TENANT_SCOPED_TABLES | None \<Rightarrow> False) \<and>
     \<not> query_has_company_id (sq_text q) \<and> sq_has_company q"

definition tenant_drift :: "bool \<Rightarrow> string list \<Rightarrow> nat option" where
  \<comment> \<open>the startup check: how many tables with a company are not in the list, or \<open>None\<close> if it refuses to start\<close>
  "tenant_drift debug db_tables =
     (let missing = remdups (filter (\<lambda>t. t \<notin> set TENANT_SCOPED_TABLES) db_tables) in
      if missing \<noteq> [] \<and> \<not> debug then None else Some (length missing))"

section \<open>An authenticated request\<close>

record user_row =
  ur_id :: string
  ur_company :: uuid
  ur_active :: bool
  ur_token_version :: nat

definition find_user :: "connection \<Rightarrow> user_row list \<Rightarrow> string \<Rightarrow> user_row option" where
  \<comment> \<open>the select under the policy of the table\<close>
  "find_user c rows uid = find (\<lambda>u. ur_id u = uid \<and> visible c (ur_company u)) rows"

definition get_current_user :: "user_row list \<Rightarrow> (string \<times> nat) option \<Rightarrow> connection \<Rightarrow> (string + user_row) \<times> uuid option" where
  \<comment> \<open>after the token: the identity and its version; the tenant of the context is set last\<close>
  "get_current_user rows identity c =
     (case identity of
        None \<Rightarrow> (Inl ''401'', None)
      | Some (uid, version) \<Rightarrow>
          (case find_user c rows uid of
             None \<Rightarrow> (Inl ''401'', None)
           | Some u \<Rightarrow> if \<not> ur_active u then (Inl ''401'', None)
                       else if version < ur_token_version u then (Inl ''401'', None)
                       else (Inr u, Some (ur_company u))))"

definition authenticated_request ::
    "circuit_env \<Rightarrow> user_row list \<Rightarrow> (string \<times> nat) option \<Rightarrow> (user_row \<Rightarrow> connection \<Rightarrow> (string + 'a) \<times> connection) \<Rightarrow> string option \<Rightarrow>
     (db_circuit \<times> circuit_key option) \<times> connection \<Rightarrow> 'a served \<times> (db_circuit \<times> circuit_key option) \<times> connection" where
  \<comment> \<open>the session is a dependency of the user: it is opened before the tenant of the request is known\<close>
  "authenticated_request circ rows identity handler commit_error =
     get_db Writer \<lparr>de_circuit = circ, de_tenant = None,
       de_body = (\<lambda>c. case get_current_user rows identity c of (Inl e, _) \<Rightarrow> (Inl e, c) | (Inr u, _) \<Rightarrow> handler u c),
       de_commit = commit_error\<rparr>"

section \<open>What sessions see\<close>

lemma visible_block [simp]: "visible (set_rls_block_context c) u = g_bypass (cn_current c)"
  by (simp add: visible_def set_rls_block_context_def)

lemma visible_tenant [simp]: "visible (set_rls_tenant_context t c) u \<longleftrightarrow> u = t \<or> g_bypass (cn_current c)"
  by (auto simp: visible_def set_rls_tenant_context_def)

lemma close_clear [simp]: "close_session c = rollback c"
  by (simp add: close_session_def rls_defs)

lemma rollback_rollback [simp]: "rollback (rollback c) = rollback c" "rollback (commit c) = commit c"
  "rollback (enter_tenant t (rollback c)) = rollback c"
  by (simp_all add: rls_defs split: option.splits)

lemma get_db_admitted:
  assumes "check_db_circuit (de_circuit env) s = (Admitted, s1)" "de_body env (enter_tenant (de_tenant env) c) = (res, c1)"
  shows "get_db variant env (s, c) =
    (case res of
       Inl exc \<Rightarrow> session_failed variant env exc s1 c1
     | Inr a \<Rightarrow> (case de_commit env of
         Some exc \<Rightarrow> session_failed variant env exc s1 c1
       | None \<Rightarrow> if variant = Refresh
                 then session_failed variant env ''object NoneType can't be used in 'await' expression'' s1 (commit c1)
                 else (Served a, reset_circuit_breaker (de_circuit env) s1, commit c1)))"
  using assms by (simp add: get_db_def split: sum.splits option.splits)

lemma session_failed_not_served [simp]: "session_failed variant env exc s c \<noteq> (Served a, x)"
  by (simp add: session_failed_def Let_def split: prod.splits if_splits)

lemmas session_failed_not_served_sym [simp] = session_failed_not_served [symmetric]

lemma plain_failures [simp]: "\<not> pool_timeout ''401''" "\<not> is_retryable_error ''401''"
  by (simp_all add: pool_timeout_def is_retryable_error_def RETRYABLE_PG_CODES_def lower_def lower_char_def)

text \<open>
  C7. Where the policies apply, nobody is authenticated: the session of a request is opened before its tenant is known, so it blocks
  every company, and the look-up of the user, which the policy of its table covers too, finds nothing. Every request with
  whatever token is answered with 401, its handler does not run, and the tables stay as they are.
\<close>

theorem nobody_authenticates_under_policies:
  assumes "\<not> g_bypass (cn_current c)"
  shows "fst (authenticated_request circ rows identity handler commit_error (s, c)) =
    (case fst (check_db_circuit circ s) of Admitted \<Rightarrow> Raised ''401'' | answer \<Rightarrow> Refused answer)"
proof -
  have nobody: "find_user (set_rls_block_context c) rows uid = None" for uid
    using assms by (simp add: find_user_def find_None_iff)
  obtain answer s1 where check: "check_db_circuit circ s = (answer, s1)" by (cases "check_db_circuit circ s")
  have "get_current_user rows identity (set_rls_block_context c) = (Inl ''401'', None)"
    by (simp add: get_current_user_def nobody split: option.splits)
  then show ?thesis
    by (cases answer) (simp_all add: authenticated_request_def get_db_def check enter_tenant_def session_failed_def)
qed

theorem nobody_authenticates_under_policies_witness:
  "fst (authenticated_request (plain_env Up 5) [\<lparr>ur_id = ''u1'', ur_company = 7, ur_active = True, ur_token_version = 0\<rparr>] (Some (''u1'', 0))
     (\<lambda>u c. (Inr (), c)) None ((new_db_circuit, None), fresh_connection)) = Raised ''401''"
  by (subst nobody_authenticates_under_policies)
    (simp_all add: fresh_connection_def check_db_circuit_def plain_env_def get_circuit_redis_def lua_check_def circuit_fields_def)

text \<open>
  An error of a request that passes for retryable is not retried: the generator opens and yields a second session, which no
  request is there to use, and the request fails with an error of the context manager. Retryable is an error whose
  text contains one of the three codes. The text of a real serialization failure is the server's message with the statement and its
  parameters, in which no SQLSTATE stands, so such a failure is raised again at once; an error of another kind passes for
  retryable when a code occurs among the parameters. (For a writer the circuit's level stays below the one at which
  its backoff overflows.)
\<close>

lemma request_never_retried:
  assumes "check_db_circuit (de_circuit env) s = (Admitted, s1)" "de_body env (enter_tenant (de_tenant env) c) = (res, c1)"
    and "res = Inl exc \<or> (\<exists>a. res = Inr a \<and> de_commit env = Some exc)" "is_retryable_error exc" "\<not> pool_timeout exc"
    and "variant = Writer \<Longrightarrow> dc_level (fst s1) < 1024"
  shows "fst (get_db variant env (s, c)) = Second_yield"
proof -
  have ok: "fst (record_db_error (de_circuit env) s1)" if "variant = Writer"
    using assms(6) [OF that]
    by (cases s1) (auto simp: record_db_error_def record_pool_exhaustion_def backoff_cooldown_def Let_def split: prod.splits option.splits if_splits)
  have failed: "fst (session_failed variant env exc s1 c1) = Second_yield"
    using assms(4,5) ok by (auto simp: session_failed_def Let_def split: prod.splits if_splits)
  from assms(3) get_db_admitted [OF assms(1,2), of variant] failed show ?thesis by (auto split: sum.splits option.splits)
qed

lemma request_never_retried_sample:
  "fst (get_db Writer \<lparr>de_circuit = plain_env Up 5, de_tenant = None, de_body = (\<lambda>c. (Inl ''[parameters: (40001,)]'', c)), de_commit = None\<rparr>
     ((new_db_circuit, None), fresh_connection)) = (Second_yield :: unit served)"
proof (rule request_never_retried)
  show "check_db_circuit (de_circuit \<lparr>de_circuit = plain_env Up 5, de_tenant = None, de_body = (\<lambda>c. (Inl ''[parameters: (40001,)]'', c)),
      de_commit = None\<rparr>) (new_db_circuit, None) = (Admitted, new_db_circuit, None)"
    by (simp add: check_db_circuit_def plain_env_def get_circuit_redis_def lua_check_def circuit_fields_def)
  show "is_retryable_error ''[parameters: (40001,)]''" "\<not> pool_timeout ''[parameters: (40001,)]''" by code_simp+
qed (simp_all add: new_db_circuit_def)

lemma message_without_code_is_raised:
  "fst (get_db variant \<lparr>de_circuit = circ, de_tenant = t,
     de_body = (\<lambda>c. (Inl ''could not serialize access due to concurrent update'', c)), de_commit = ce\<rparr> (s, c)) =
   (case fst (check_db_circuit circ s) of
      Admitted \<Rightarrow> Raised ''could not serialize access due to concurrent update''
    | answer \<Rightarrow> Refused answer)"
proof -
  have e: "\<not> is_retryable_error ''could not serialize access due to concurrent update''"
    "\<not> pool_timeout ''could not serialize access due to concurrent update''" by code_simp+
  show ?thesis
    by (cases "check_db_circuit circ s")
      (simp add: get_db_def session_failed_def e split: circuit_answer.splits)
qed

text \<open>The retry of the worker's transactions returns what the first attempt answers that does not fail with a retryable error, or the last.\<close>

lemma celery_attempts_first:
  assumes "\<And>i. i < k \<Longrightarrow> \<exists>exc. tx (n + i) = Inl exc \<and> is_retryable_error exc" "k < left"
    and "(\<forall>exc. tx (n + k) = Inl exc \<longrightarrow> \<not> is_retryable_error exc) \<or> Suc k = left"
  shows "celery_attempts left tx n = (tx (n + k), n + Suc k)"
  using assms
proof (induction k arbitrary: left n)
  case 0
  then obtain l where "left = Suc l" by (cases left) auto
  with 0 show ?case by (auto split: sum.splits)
next
  case (Suc k)
  then obtain l where l: "left = Suc l" "k < l" by (cases left) auto
  from Suc.prems(1) [of 0] obtain exc where now: "tx n = Inl exc" "is_retryable_error exc" by auto
  have "celery_attempts l tx (Suc n) = (tx (Suc n + k), Suc n + Suc k)"
    using Suc.prems(1) [of "Suc i" for i] Suc.prems(3) l by (intro Suc.IH) auto
  with now l show ?case by (auto split: nat.splits)
qed

text \<open>
  A handler that is tried again runs under the settings that the connection brought along: the rollback has taken
  back the tenant of the request.
\<close>

lemma retry_changes_tenant:
  assumes "tx n c = (Inl exc, c1)" "is_retryable_error exc" "\<not> pool_timeout exc" "cn_committed c1 = cn_committed c"
  shows "transactional_attempts (Suc left) tx n c = transactional_attempts left tx (Suc n) (rollback c1)"
    and "cn_current (rollback c1) = cn_committed c"
  using assms by (simp_all add: rollback_def)

text \<open>A statement that compares two companies with each other is taken to be filtered.\<close>

lemma join_is_not_filtered:
  "\<not> filter_added (Some t) \<lparr>sq_text = ''SELECT jobs.id FROM jobs JOIN customers ON jobs.company_id = customers.company_id'',
     sq_table = Some ''jobs'', sq_dml = False, sq_select = True, sq_has_company = True\<rparr>"
  by (simp add: filter_added_def query_has_company_id_def lower_def lower_char_def)

end
