(* ===== verification/ImportService.thy ===== *)
theory ImportService
  imports DataModel DbSession
begin

text \<open>
  The import of customers, jobs, invoices and so on from other products:
  \<open>src/backend/app/integrations/services/import_service.py\<close>, its tables (\<open>models.py\<close>), the registry of providers and the
  routes that start and take back an import (\<open>router.py\<close>). A connector is an argument: whether it can log in and what its
  fetchers return. The session is the database together with the mark that a failed flush leaves: after one, every further
  statement raises until the transaction is rolled back, which takes back all of it. A select that has no condition on
  the company, which a \<open>get\<close> by identifier has not either, is changed by the listener of \<open>database.py\<close> (\<open>filter_added\<close>).
\<close>

section \<open>Tables\<close>

datatype import_type = CUSTOMERS | JOBS | WORK_ORDERS | INVOICES | PAYMENTS | EMPLOYEES | ASSETS | SCHEDULE_EVENTS | LOCATIONS

datatype import_status = I_pending | I_scanning | I_ready | I_in_progress | I_completed | I_partial | I_failed

datatype import_result = R_success | R_skipped | R_failed | R_duplicate | R_rolled_back

datatype connection_status = C_connected | C_disconnected | C_expired | C_error | C_pending

record integration_connection =
  ic_id :: uuid
  ic_company :: uuid
  ic_provider :: string
  ic_tenant :: string
  ic_status :: connection_status
  ic_access_token :: "string option"
  ic_refresh_token :: "string option"
  ic_token_expires_at :: "micros option"
  ic_updated_at :: micros

record import_job =
  ij_id :: uuid
  ij_company :: uuid
  ij_connection :: "uuid option"
  ij_provider :: string
  ij_type :: import_type
  ij_status :: import_status
  ij_progress_pct :: pyfloat
  ij_total_records :: nat
  ij_imported_count :: nat
  ij_skipped_count :: nat
  ij_failed_count :: nat
  ij_error_message :: "string option"
  ij_started_at :: "micros option"
  ij_finished_at :: "micros option"
  ij_rolled_back_at :: "micros option"
  ij_created_at :: micros
  ij_updated_at :: micros

record import_log =
  il_company :: uuid
  il_job :: uuid
  il_system :: string
  il_external_id :: string
  il_type :: import_type
  il_result :: import_result
  il_error_message :: "string option"

record mapping_rule =
  mr_id :: uuid
  mr_company :: uuid
  mr_provider :: string
  mr_source_field :: string
  mr_destination_field :: string
  mr_type :: import_type
  mr_transformation :: "string option"

record import_db =
  im_connections :: "integration_connection list"
  im_jobs :: "import_job list"
  im_logs :: "import_log list"
  im_rules :: "mapping_rule list"
  im_next :: uuid  \<comment> \<open>identifiers not used before\<close>

definition log_key :: "import_log \<Rightarrow> uuid \<times> string \<times> string \<times> import_type" where
  \<comment> \<open>\<open>uq_import_logs_dedup\<close>; the result is not part of it\<close>
  "log_key l = (il_company l, il_system l, il_external_id l, il_type l)"

definition rule_key :: "mapping_rule \<Rightarrow> uuid \<times> string \<times> string \<times> string \<times> import_type" where
  "rule_key r = (mr_company r, mr_provider r, mr_source_field r, mr_destination_field r, mr_type r)"

definition connection_key :: "integration_connection \<Rightarrow> uuid \<times> string \<times> string" where
  "connection_key c = (ic_company c, ic_provider c, ic_tenant c)"

section \<open>A session\<close>

record import_session =
  is_db :: import_db
  is_dead :: bool

type_synonym 'a imp = "import_session \<Rightarrow> (string + 'a) \<times> import_session"

definition ret :: "'a \<Rightarrow> 'a imp" where "ret a s = (Inr a, s)"

definition then_do :: "'a imp \<Rightarrow> ('a \<Rightarrow> 'b imp) \<Rightarrow> 'b imp" where
  "then_do m f s = and_then (m s) f"

definition catching :: "'a imp \<Rightarrow> (string \<Rightarrow> 'a imp) \<Rightarrow> 'a imp" where
  "catching m h s = (case m s of (Inl e, s1) \<Rightarrow> h e s1 | (Inr a, s1) \<Rightarrow> (Inr a, s1))"

definition select_rows :: "(import_db \<Rightarrow> string + 'a) \<Rightarrow> 'a imp" where
  "select_rows q s = (if is_dead s then (Inl ''PendingRollbackError'', s) else (q (is_db s), s))"

definition flush_change :: "(import_db \<Rightarrow> import_db option) \<Rightarrow> unit imp" where
  \<comment> \<open>\<open>None\<close>: a constraint, a policy or a type refuses the change\<close>
  "flush_change f s =
     (if is_dead s then (Inl ''PendingRollbackError'', s)
      else case f (is_db s) of
        Some d \<Rightarrow> (Inr (), s\<lparr>is_db := d\<rparr>)
      | None \<Rightarrow> (Inl ''IntegrityError'', s\<lparr>is_dead := True\<rparr>))"

record import_env =
  ie_company :: uuid  \<comment> \<open>of the service, and the tenant of the context: the routes take the one from the other\<close>
  ie_sees :: "uuid \<Rightarrow> bool"  \<comment> \<open>the companies whose rows the session sees and may write\<close>
  ie_now :: micros

definition scoped :: "import_env \<Rightarrow> ('r \<Rightarrow> uuid) \<Rightarrow> ('r \<Rightarrow> bool) \<Rightarrow> 'r list \<Rightarrow> 'r list" where
  \<comment> \<open>a select without a condition on the company. The listener adds a condition on \<open>clause.columns\<close>: on the column of a
      sub-query that repeats the select, which becomes a second, unrelated item of the \<open>FROM\<close> clause. So every row comes as often as the
      sub-query has rows of the tenant\<close>
  "scoped env company P rows =
     (let selected = filter (\<lambda>r. ie_sees env (company r) \<and> P r) rows;
          own = filter (\<lambda>r. company r = ie_company env) selected
      in concat (map (\<lambda>r. replicate (length own) r) selected))"

definition by_id :: "import_env \<Rightarrow> ('r \<Rightarrow> uuid) \<Rightarrow> ('r \<Rightarrow> uuid) \<Rightarrow> uuid \<Rightarrow> 'r list \<Rightarrow> 'r option" where
  \<comment> \<open>\<open>db.get\<close> of a row that the session has not loaded\<close>
  "by_id env company key i rows = (case scoped env company (\<lambda>r. key r = i) rows of [] \<Rightarrow> None | r # _ \<Rightarrow> Some r)"

section \<open>Connections and mapping rules\<close>

definition create_connection ::
    "import_env \<Rightarrow> string \<Rightarrow> string \<Rightarrow> string option \<Rightarrow> string option \<Rightarrow> uuid imp" where
  "create_connection env provider tenant access refresh s =
     (let i = im_next (is_db s);
          conn = \<lparr>ic_id = i, ic_company = ie_company env, ic_provider = provider, ic_tenant = tenant,
                  ic_status = (if truthy_str access then C_connected else C_pending), ic_access_token = access,
                  ic_refresh_token = refresh, ic_token_expires_at = None, ic_updated_at = ie_now env\<rparr>
      in then_do (flush_change (\<lambda>d. if ie_sees env (ie_company env) \<and> connection_key conn \<notin> connection_key ` set (im_connections d)
            then Some (d\<lparr>im_connections := im_connections d @ [conn], im_next := i + 1\<rparr>) else None)) (\<lambda>_. ret i) s)"

definition get_connection :: "import_env \<Rightarrow> string \<Rightarrow> string \<Rightarrow> integration_connection option imp" where
  "get_connection env provider tenant =
     select_rows (\<lambda>d. Inr (find (\<lambda>c. ie_sees env (ic_company c) \<and> connection_key c = (ie_company env, provider, tenant)) (im_connections d)))"

definition update_connection_tokens :: "import_env \<Rightarrow> uuid \<Rightarrow> string option \<Rightarrow> string option \<Rightarrow> unit imp" where
  "update_connection_tokens env i access refresh =
     flush_change (\<lambda>d. Some (d\<lparr>im_connections := update_where (\<lambda>c. ie_sees env (ic_company c) \<and> ic_id c = i)
       (\<lambda>c. c\<lparr>ic_access_token := access, ic_refresh_token := (if truthy_str refresh then refresh else ic_refresh_token c),
              ic_status := C_connected, ic_updated_at := ie_now env\<rparr>) (im_connections d)\<rparr>))"

definition connect :: "import_env \<Rightarrow> string \<Rightarrow> string \<Rightarrow> string option \<Rightarrow> string option \<Rightarrow> (uuid \<times> connection_status) imp" where
  \<comment> \<open>the route \<open>POST /connections\<close>, once the provider is accepted\<close>
  "connect env provider tenant access refresh =
     then_do (get_connection env provider tenant) (\<lambda>existing.
       case existing of
         Some c \<Rightarrow> then_do (update_connection_tokens env (ic_id c) access refresh) (\<lambda>_. ret (ic_id c, C_connected))
       | None \<Rightarrow> then_do (create_connection env provider tenant access refresh)
                   (\<lambda>i. ret (i, if truthy_str access then C_connected else C_pending)))"

definition delete_connection :: "import_env \<Rightarrow> uuid \<Rightarrow> unit imp" where
  "delete_connection env i =
     then_do (select_rows (\<lambda>d. Inr (by_id env ic_company ic_id i (im_connections d)))) (\<lambda>conn.
       if (case conn of Some c \<Rightarrow> ic_company c \<noteq> ie_company env | None \<Rightarrow> True) then (\<lambda>s. (Inl ''404'', s))
       else flush_change (\<lambda>d. Some (d\<lparr>im_connections := filter (\<lambda>c. ic_id c \<noteq> i) (im_connections d),
              im_jobs := update_where (\<lambda>j. ij_connection j = Some i) (\<lambda>j. j\<lparr>ij_connection := None\<rparr>) (im_jobs d)\<rparr>)))"

definition save_mapping_rule ::
    "import_env \<Rightarrow> string \<Rightarrow> string \<Rightarrow> string \<Rightarrow> import_type \<Rightarrow> string option \<Rightarrow> uuid imp" where
  "save_mapping_rule env provider source destination ty transformation s =
     (let i = im_next (is_db s);
          rule = \<lparr>mr_id = i, mr_company = ie_company env, mr_provider = provider, mr_source_field = source,
                  mr_destination_field = destination, mr_type = ty, mr_transformation = transformation\<rparr>
      in then_do (flush_change (\<lambda>d. if ie_sees env (ie_company env) \<and> rule_key rule \<notin> rule_key ` set (im_rules d)
            then Some (d\<lparr>im_rules := im_rules d @ [rule], im_next := i + 1\<rparr>) else None)) (\<lambda>_. ret i) s)"

definition get_mapping_rules :: "import_env \<Rightarrow> string \<Rightarrow> import_type option \<Rightarrow> mapping_rule list imp" where
  "get_mapping_rules env provider ty =
     select_rows (\<lambda>d. Inr (filter (\<lambda>r. ie_sees env (mr_company r) \<and> mr_company r = ie_company env \<and> mr_provider r = provider \<and>
       (case ty of Some t \<Rightarrow> mr_type r = t | None \<Rightarrow> True)) (im_rules d)))"

definition delete_mapping_rule :: "import_env \<Rightarrow> uuid \<Rightarrow> unit imp" where
  "delete_mapping_rule env i =
     then_do (select_rows (\<lambda>d. Inr (by_id env mr_company mr_id i (im_rules d)))) (\<lambda>rule.
       if rule = None then ret ()
       else flush_change (\<lambda>d. Some (d\<lparr>im_rules := filter (\<lambda>r. mr_id r \<noteq> i) (im_rules d)\<rparr>)))"

section \<open>Import jobs and their log\<close>

definition create_import_job :: "import_env \<Rightarrow> string \<Rightarrow> import_type \<Rightarrow> uuid option \<Rightarrow> uuid imp" where
  "create_import_job env provider ty conn s =
     (let i = im_next (is_db s);
          job = \<lparr>ij_id = i, ij_company = ie_company env, ij_connection = conn, ij_provider = provider, ij_type = ty,
                 ij_status = I_pending, ij_progress_pct = 0, ij_total_records = 0, ij_imported_count = 0, ij_skipped_count = 0,
                 ij_failed_count = 0, ij_error_message = None, ij_started_at = None, ij_finished_at = None,
                 ij_rolled_back_at = None, ij_created_at = ie_now env, ij_updated_at = ie_now env\<rparr>
      in then_do (flush_change (\<lambda>d. if ie_sees env (ie_company env)
            then Some (d\<lparr>im_jobs := im_jobs d @ [job], im_next := i + 1\<rparr>) else None)) (\<lambda>_. ret i) s)"

definition change_import_job :: "import_env \<Rightarrow> uuid \<Rightarrow> (import_job \<Rightarrow> import_job) \<Rightarrow> unit imp" where
  \<comment> \<open>of a job that the session has created, which \<open>db.get\<close> finds without a statement\<close>
  "change_import_job env i f =
     flush_change (\<lambda>d. Some (d\<lparr>im_jobs := update_where (\<lambda>j. ie_sees env (ij_company j) \<and> ij_id j = i) f (im_jobs d)\<rparr>))"

definition finished :: "import_status \<Rightarrow> bool" where
  "finished st \<longleftrightarrow> st \<in> {I_completed, I_partial, I_failed}"

definition update_import_progress ::
    "import_env \<Rightarrow> uuid \<Rightarrow> import_status \<Rightarrow> pyfloat option \<Rightarrow> (nat \<times> nat \<times> nat) option \<Rightarrow> string option \<Rightarrow> unit imp" where
  \<comment> \<open>the counts of imported, skipped and failed records are given together or not at all\<close>
  "update_import_progress env i st progress counts err =
     change_import_job env i (\<lambda>j.
       let j1 = j\<lparr>ij_status := st, ij_progress_pct := (case progress of Some p \<Rightarrow> p | None \<Rightarrow> ij_progress_pct j),
                  ij_error_message := (if truthy_str err then err else ij_error_message j), ij_updated_at := ie_now env,
                  ij_finished_at := (if finished st then Some (ie_now env) else ij_finished_at j)\<rparr>
       in case counts of
            Some (imported, skipped, failed) \<Rightarrow>
              j1\<lparr>ij_imported_count := imported, ij_skipped_count := skipped, ij_failed_count := failed\<rparr>
          | None \<Rightarrow> j1)"

definition log_import_result ::
    "import_env \<Rightarrow> uuid \<Rightarrow> string \<Rightarrow> string \<Rightarrow> import_type \<Rightarrow> import_result \<Rightarrow> string option \<Rightarrow> bool \<Rightarrow> unit imp" where
  \<comment> \<open>\<open>storable\<close>: the raw data is missing or can be written as JSON\<close>
  "log_import_result env i system ext ty result err storable =
     (let l = \<lparr>il_company = ie_company env, il_job = i, il_system = system, il_external_id = ext, il_type = ty,
               il_result = result, il_error_message = err\<rparr>
      in flush_change (\<lambda>d. if ie_sees env (ie_company env) \<and> storable \<and> log_key l \<notin> log_key ` set (im_logs d)
           then Some (d\<lparr>im_logs := im_logs d @ [l]\<rparr>) else None))"

definition already_imported :: "import_env \<Rightarrow> string \<Rightarrow> string \<Rightarrow> import_type \<Rightarrow> bool imp" where
  "already_imported env system ext ty =
     select_rows (\<lambda>d.
       case filter (\<lambda>l. ie_sees env (il_company l) \<and> log_key l = (ie_company env, system, ext, ty) \<and> il_result l = R_success) (im_logs d) of
         [] \<Rightarrow> Inr False
       | [_] \<Rightarrow> Inr True
       | _ \<Rightarrow> Inl ''MultipleResultsFound'')"

section \<open>Providers and connectors\<close>

datatype connector_status = STUB | BETA | PRODUCTION | INTERNAL

definition PROVIDERS :: "(string \<times> connector_status) list" where
  "PROVIDERS = [(''quickbooks'', PRODUCTION), (''jobber'', PRODUCTION), (''housecall_pro'', PRODUCTION), (''stripe'', PRODUCTION),
     (''xero'', STUB), (''lmn'', STUB), (''hubspot'', STUB), (''gusto'', STUB), (''servicetitan'', STUB), (''aspire'', STUB)]"

definition get_connector :: "string \<Rightarrow> string + connector_status" where
  "get_connector provider = (case map_of PROVIDERS provider of Some st \<Rightarrow> Inr st | None \<Rightarrow> Inl ''ValueError: Unknown provider'')"

record external_record =
  er_id :: string
  er_storable :: bool  \<comment> \<open>what \<open>model_dump\<close> gives can be written as JSON: it holds no date and no decimal\<close>

record connector =
  cn_authenticate :: "string + bool"
  cn_fetch :: "import_type \<Rightarrow> (string + external_record list) option"  \<comment> \<open>\<open>None\<close>: there is no such method\<close>

section \<open>Running an import\<close>

type_synonym counts = "nat \<times> nat \<times> nat"  \<comment> \<open>imported, skipped, failed\<close>

definition progress_of :: "nat \<Rightarrow> nat \<Rightarrow> pyfloat" where
  "progress_of idx n = fmul (fdiv (of_nat (idx + 1)) (of_nat n)) 100"

definition import_record ::
    "import_env \<Rightarrow> uuid \<Rightarrow> string \<Rightarrow> import_type \<Rightarrow> nat \<Rightarrow> nat \<Rightarrow> external_record \<Rightarrow> counts \<Rightarrow> counts imp" where
  "import_record env job system ty n idx r = (\<lambda>(imported, skipped, failed).
     then_do
       (catching
         (then_do (already_imported env system (er_id r) ty) (\<lambda>known.
            if known
            then then_do (log_import_result env job system (er_id r) ty R_duplicate None True) (\<lambda>_. ret (imported, skipped + 1, failed))
            else then_do (log_import_result env job system (er_id r) ty R_success None (er_storable r))
                   (\<lambda>_. ret (imported + 1, skipped, failed))))
         (\<lambda>e. then_do (log_import_result env job system (er_id r) ty R_failed (Some e) True) (\<lambda>_. ret (imported, skipped, failed + 1))))
       (\<lambda>counts. then_do (update_import_progress env job I_in_progress (Some (progress_of idx n)) (Some counts) None) (\<lambda>_. ret counts)))"

fun import_rows ::
    "import_env \<Rightarrow> uuid \<Rightarrow> string \<Rightarrow> import_type \<Rightarrow> nat \<Rightarrow> nat \<Rightarrow> external_record list \<Rightarrow> counts \<Rightarrow> counts imp" where
  "import_rows env job system ty n idx [] c = ret c"
| "import_rows env job system ty n idx (r # rs) c =
     then_do (import_record env job system ty n idx r c) (\<lambda>c1. import_rows env job system ty n (idx + 1) rs c1)"

function import_batches ::
    "nat \<Rightarrow> import_env \<Rightarrow> uuid \<Rightarrow> string \<Rightarrow> import_type \<Rightarrow> nat \<Rightarrow> nat \<Rightarrow> external_record list \<Rightarrow> counts \<Rightarrow> counts imp" where
  \<comment> \<open>a flush between the batches finds nothing to write\<close>
  "import_batches bs env job system ty n idx rs c =
     (if bs = 0 then (\<lambda>s. (Inl ''ValueError: range() arg 3 must not be zero'', s))
      else if rs = [] then ret c
      else then_do (import_rows env job system ty n idx (take bs rs) c)
             (\<lambda>c1. import_batches bs env job system ty n (idx + bs) (drop bs rs) c1))"
  by pat_completeness auto
termination by (relation "measure (\<lambda>(bs, env, job, system, ty, n, idx, rs, c). length rs)") auto

declare import_batches.simps [simp del]

definition final_status :: "counts \<Rightarrow> import_status" where
  "final_status = (\<lambda>(imported, skipped, failed).
     if 0 < failed \<and> 0 < imported then I_partial else if 0 < failed \<and> imported = 0 then I_failed else I_completed)"

fun count_existing :: "import_env \<Rightarrow> string \<Rightarrow> import_type \<Rightarrow> external_record list \<Rightarrow> nat imp" where
  "count_existing env system ty [] = ret 0"
| "count_existing env system ty (r # rs) =
     then_do (already_imported env system (er_id r) ty) (\<lambda>known.
     then_do (count_existing env system ty rs) (\<lambda>n. ret (if known then n + 1 else n)))"

definition fetch_records :: "connector \<Rightarrow> import_type \<Rightarrow> external_record list imp" where
  "fetch_records con ty s = (case cn_fetch con ty of Some res \<Rightarrow> (res, s) | None \<Rightarrow> (Inl ''AttributeError'', s))"

definition process_records ::
    "nat \<Rightarrow> bool \<Rightarrow> import_env \<Rightarrow> uuid \<Rightarrow> string \<Rightarrow> import_type \<Rightarrow> external_record list \<Rightarrow> unit imp" where
  "process_records bs dry_run env job system ty rs =
     then_do (change_import_job env job (\<lambda>j. j\<lparr>ij_total_records := length rs\<rparr>)) (\<lambda>_.
     if dry_run
     then then_do (count_existing env system ty rs) (\<lambda>_. update_import_progress env job I_completed (Some 100) (Some (0, 0, 0)) None)
     else then_do (update_import_progress env job I_in_progress (Some 0) None None) (\<lambda>_.
          then_do (import_batches bs env job system ty (length rs) 0 rs (0, 0, 0)) (\<lambda>c.
          update_import_progress env job (final_status c) (Some 100) (Some c) None)))"

definition import_one_type ::
    "nat \<Rightarrow> bool \<Rightarrow> import_env \<Rightarrow> connector \<Rightarrow> string \<Rightarrow> uuid option \<Rightarrow> import_type \<Rightarrow> uuid imp" where
  "import_one_type bs dry_run env con system conn ty =
     then_do (create_import_job env system ty conn) (\<lambda>job.
     then_do (if dry_run then update_import_progress env job I_scanning (Some 0) None None else ret ()) (\<lambda>_.
     then_do
       (if cn_fetch con ty = None then update_import_progress env job I_failed None None (Some ''No fetcher'')
        else catching (then_do (fetch_records con ty) (process_records bs dry_run env job system ty))
               (\<lambda>e. update_import_progress env job I_failed None None (Some e)))
       (\<lambda>_. ret job)))"

fun import_types ::
    "nat \<Rightarrow> bool \<Rightarrow> import_env \<Rightarrow> connector \<Rightarrow> string \<Rightarrow> uuid option \<Rightarrow> import_type list \<Rightarrow> uuid list imp" where
  "import_types bs dry_run env con system conn [] = ret []"
| "import_types bs dry_run env con system conn (ty # tys) =
     then_do (import_one_type bs dry_run env con system conn ty) (\<lambda>job.
     then_do (import_types bs dry_run env con system conn tys) (\<lambda>jobs. ret (job # jobs)))"

definition connection_row :: "import_env \<Rightarrow> uuid option \<Rightarrow> import_db \<Rightarrow> integration_connection option" where
  "connection_row env conn d = (case conn of
     None \<Rightarrow> None | Some i \<Rightarrow> by_id env ic_company ic_id i (im_connections d))"

definition run_import ::
    "nat \<Rightarrow> bool \<Rightarrow> import_env \<Rightarrow> (integration_connection option \<Rightarrow> connector) \<Rightarrow> string \<Rightarrow> import_type list \<Rightarrow> uuid option \<Rightarrow> uuid list imp" where
  \<comment> \<open>what the log-in answers is not looked at, only whether it raises\<close>
  "run_import bs dry_run env connect_to system tys conn =
     (case get_connector system of
        Inl e \<Rightarrow> (\<lambda>s. (Inl e, s))
      | Inr STUB \<Rightarrow> (\<lambda>s. (Inl ''ValueError: not yet available'', s))
      | Inr _ \<Rightarrow>
          then_do (select_rows (\<lambda>d. Inr (connection_row env conn d))) (\<lambda>row.
          case cn_authenticate (connect_to row) of
            Inl e \<Rightarrow> (\<lambda>s. (Inl e, s))
          | Inr _ \<Rightarrow> import_types bs dry_run env (connect_to row) system conn tys))"

definition background_import ::
    "bool \<Rightarrow> import_env \<Rightarrow> (integration_connection option \<Rightarrow> connector) \<Rightarrow> string \<Rightarrow> import_type list \<Rightarrow> uuid option \<Rightarrow> import_db \<Rightarrow> import_db" where
  \<comment> \<open>the task of the route: one transaction, taken back if the import raises\<close>
  "background_import dry_run env connect_to system tys conn d =
     (case run_import 500 dry_run env connect_to system tys conn \<lparr>is_db = d, is_dead = False\<rparr> of
        (Inr _, s) \<Rightarrow> is_db s
      | (Inl _, _) \<Rightarrow> d)"

definition dry_run_type :: "import_env \<Rightarrow> connector \<Rightarrow> string \<Rightarrow> import_type \<Rightarrow> (int \<times> nat \<times> nat) imp" where
  \<comment> \<open>one entry of \<open>dry_run_scan\<close>: the records in all, the new ones and the known ones\<close>
  "dry_run_type env con system ty =
     (if cn_fetch con ty = None then ret (0, 0, 0)
      else catching
        (then_do (fetch_records con ty) (\<lambda>rs.
         then_do (count_existing env system ty rs) (\<lambda>n. ret (int (length rs), length rs - n, n))))
        (\<lambda>e. ret (-1, 0, 0)))"

fun dry_run_types :: "import_env \<Rightarrow> connector \<Rightarrow> string \<Rightarrow> import_type list \<Rightarrow> (import_type \<times> int \<times> nat \<times> nat) list imp" where
  "dry_run_types env con system [] = ret []"
| "dry_run_types env con system (ty # tys) =
     then_do (dry_run_type env con system ty) (\<lambda>r. then_do (dry_run_types env con system tys) (\<lambda>rs. ret ((ty, r) # rs)))"

section \<open>Rollback, reports and metrics\<close>

definition get_import_job :: "import_env \<Rightarrow> uuid \<Rightarrow> import_job option imp" where
  "get_import_job env i = select_rows (\<lambda>d. Inr (by_id env ij_company ij_id i (im_jobs d)))"

definition get_import_jobs :: "import_env \<Rightarrow> nat \<Rightarrow> import_job list imp" where
  \<comment> \<open>the latest first\<close>
  "get_import_jobs env limit = select_rows (\<lambda>d. Inr (take limit (rev (sort_key ij_created_at
     (filter (\<lambda>j. ie_sees env (ij_company j) \<and> ij_company j = ie_company env) (im_jobs d))))))"

definition success_log :: "uuid \<Rightarrow> import_log \<Rightarrow> bool" where
  "success_log i l \<longleftrightarrow> il_job l = i \<and> il_result l = R_success"

definition rollback_import :: "import_env \<Rightarrow> uuid \<Rightarrow> nat imp" where
  \<comment> \<open>the number of records taken back, as the loop counts them: once for every row of the result\<close>
  "rollback_import env i =
     then_do (get_import_job env i) (\<lambda>job.
     case job of
       None \<Rightarrow> (\<lambda>s. (Inl ''ValueError: not found'', s))
     | Some j \<Rightarrow>
         if ij_rolled_back_at j \<noteq> None then (\<lambda>s. (Inl ''ValueError: already rolled back'', s))
         else then_do (select_rows (\<lambda>d. Inr (scoped env il_company (success_log i) (im_logs d)))) (\<lambda>success_logs.
              then_do (flush_change (\<lambda>d. Some (d\<lparr>
                  im_logs := update_where (\<lambda>l. l \<in> set success_logs) (\<lambda>l. l\<lparr>il_result := R_rolled_back\<rparr>) (im_logs d),
                  im_jobs := update_where (\<lambda>j. ie_sees env (ij_company j) \<and> ij_id j = i) (\<lambda>j. j\<lparr>ij_rolled_back_at := Some (ie_now env),
                    ij_status := I_failed, ij_imported_count := ij_imported_count j - length success_logs,
                    ij_skipped_count := ij_skipped_count j + length success_logs\<rparr>) (im_jobs d)\<rparr>))) (\<lambda>_. ret (length success_logs))))"

definition import_report :: "import_env \<Rightarrow> uuid \<Rightarrow> (import_job \<times> import_log list) imp" where
  "import_report env i =
     then_do (get_import_job env i) (\<lambda>job.
     case job of
       None \<Rightarrow> (\<lambda>s. (Inl ''ValueError: not found'', s))
     | Some j \<Rightarrow> then_do (select_rows (\<lambda>d. Inr (scoped env il_company (\<lambda>l. il_job l = i) (im_logs d)))) (\<lambda>ls. ret (j, ls)))"

record migration_metrics =
  mm_total :: nat
  mm_completed :: nat
  mm_failed :: nat
  mm_in_progress :: nat
  mm_rolled_back :: nat
  mm_success_rate_pct :: pyfloat
  mm_avg_duration :: pyfloat
  mm_total_imported :: nat
  mm_total_skipped :: nat
  mm_total_failed_records :: nat

definition duration :: "import_job \<Rightarrow> pyfloat option" where
  "duration j = (case (ij_started_at j, ij_finished_at j) of
       (Some a, Some b) \<Rightarrow> Some (fdiv (of_int (b - a)) 1000000) | _ \<Rightarrow> None)"

definition get_migration_metrics :: "(pyfloat list \<Rightarrow> pyfloat) \<Rightarrow> import_env \<Rightarrow> migration_metrics imp" where
  \<comment> \<open>\<open>py_sum\<close>: the built-in \<open>sum\<close> of floats, whose rounding depends on the version of Python\<close>
  "get_migration_metrics py_sum env =
     select_rows (\<lambda>d. Inr (
       let jobs = filter (\<lambda>j. ie_sees env (ij_company j) \<and> ij_company j = ie_company env) (im_jobs d);
           completed = filter (\<lambda>j. ij_status j \<in> {I_completed, I_partial}) jobs;
           durations = List.map_filter duration completed
       in \<lparr>mm_total = length jobs, mm_completed = length completed, mm_failed = length (filter (\<lambda>j. ij_status j = I_failed) jobs),
           mm_in_progress = length (filter (\<lambda>j. ij_status j = I_in_progress) jobs),
           mm_rolled_back = length (filter (\<lambda>j. ij_rolled_back_at j \<noteq> None) jobs),
           mm_success_rate_pct = (if jobs = [] then 0
              else py_round 1 (fmul (fdiv (of_nat (length completed)) (of_nat (length jobs))) 100)),
           mm_avg_duration = (if durations = [] then 0
              else py_round 1 (fdiv (py_sum durations) (of_nat (length durations)))),
           mm_total_imported = sum_list (map ij_imported_count jobs), mm_total_skipped = sum_list (map ij_skipped_count jobs),
           mm_total_failed_records = sum_list (map ij_failed_count jobs)\<rparr>))"

section \<open>Sessions that are lost\<close>

definition aborted :: "(string + 'a) \<times> import_session \<Rightarrow> bool" where
  "aborted r \<longleftrightarrow> (\<exists>e. fst r = Inl e) \<and> is_dead (snd r)"

definition hopeless :: "'a imp \<Rightarrow> bool" where
  "hopeless m \<longleftrightarrow> (\<forall>s. is_dead s \<longrightarrow> aborted (m s))"

abbreviation live_session :: "import_db \<Rightarrow> import_session" where
  "live_session d \<equiv> \<lparr>is_db = d, is_dead = False\<rparr>"

named_theorems hopeless_intros

lemma then_do_Inr: "m s = (Inr a, s1) \<Longrightarrow> then_do m f s = f a s1"
  by (simp add: then_do_def)

lemma ret_simp [simp]: "ret a s = (Inr a, s)"
  by (simp add: ret_def)

lemma then_do_ret [simp]: "then_do (ret a) f = f a"
  by (simp add: then_do_def fun_eq_iff)

lemma aborted_then_do [intro]: "aborted (m s) \<Longrightarrow> aborted (then_do m f s)"
  by (cases "m s"; cases "fst (m s)") (auto simp: aborted_def then_do_def)

lemma aborted_step: "m s = (Inr a, s1) \<Longrightarrow> aborted (f a s1) \<Longrightarrow> aborted (then_do m f s)"
  by (simp add: then_do_def)

lemma aborted_catching [intro]: "aborted (m s) \<Longrightarrow> (\<And>e. hopeless (h e)) \<Longrightarrow> aborted (catching m h s)"
  by (cases "m s"; cases "fst (m s)") (auto simp: aborted_def catching_def hopeless_def)

lemma hopeless_flush [hopeless_intros]: "hopeless (flush_change f)"
  by (simp add: hopeless_def flush_change_def aborted_def)

lemma hopeless_select [hopeless_intros]: "hopeless (select_rows q)"
  by (simp add: hopeless_def select_rows_def aborted_def)

lemma hopeless_then_do [hopeless_intros]: "hopeless m \<Longrightarrow> hopeless (then_do m f)"
  by (auto simp: hopeless_def)

lemma hopeless_progress [hopeless_intros]: "hopeless (update_import_progress env i st p c e)"
  by (simp add: update_import_progress_def change_import_job_def hopeless_intros)

lemma hopeless_log [hopeless_intros]: "hopeless (log_import_result env i system ext ty res e ok)"
  by (simp add: log_import_result_def Let_def hopeless_intros)

lemma live_flush: "flush_change f (live_session d) =
    (case f d of Some d' \<Rightarrow> (Inr (), live_session d') | None \<Rightarrow> (Inl ''IntegrityError'', \<lparr>is_db = d, is_dead = True\<rparr>))"
  by (simp add: flush_change_def split: option.splits)

lemma live_select: "select_rows q (live_session d) = (q d, live_session d)"
  by (simp add: select_rows_def)

section \<open>One record\<close>

definition record_key :: "import_env \<Rightarrow> string \<Rightarrow> import_type \<Rightarrow> external_record \<Rightarrow> uuid \<times> string \<times> string \<times> import_type" where
  "record_key env system ty r = (ie_company env, system, er_id r, ty)"

definition imported_log :: "import_env \<Rightarrow> uuid \<Rightarrow> string \<Rightarrow> import_type \<Rightarrow> external_record \<Rightarrow> import_log" where
  "imported_log env job system ty r = \<lparr>il_company = ie_company env, il_job = job, il_system = system, il_external_id = er_id r,
     il_type = ty, il_result = R_success, il_error_message = None\<rparr>"

lemma log_key_imported [simp]: "log_key (imported_log env job system ty r) = record_key env system ty r"
  by (simp add: log_key_def imported_log_def record_key_def)

definition change_job_row :: "import_env \<Rightarrow> uuid \<Rightarrow> (import_job \<Rightarrow> import_job) \<Rightarrow> import_db \<Rightarrow> import_db" where
  "change_job_row env i f d = d\<lparr>im_jobs := update_where (\<lambda>j. ie_sees env (ij_company j) \<and> ij_id j = i) f (im_jobs d)\<rparr>"

lemma live_change_job: "change_import_job env i f (live_session d) = (Inr (), live_session (change_job_row env i f d))"
  by (simp add: change_import_job_def live_flush change_job_row_def)

definition progress_row :: "import_env \<Rightarrow> import_status \<Rightarrow> pyfloat option \<Rightarrow> (nat \<times> nat \<times> nat) option \<Rightarrow> string option \<Rightarrow> import_job \<Rightarrow> import_job" where
  "progress_row env st progress counts err j =
     (let j1 = j\<lparr>ij_status := st, ij_progress_pct := (case progress of Some p \<Rightarrow> p | None \<Rightarrow> ij_progress_pct j),
                  ij_error_message := (if truthy_str err then err else ij_error_message j), ij_updated_at := ie_now env,
                  ij_finished_at := (if finished st then Some (ie_now env) else ij_finished_at j)\<rparr>
      in case counts of
           Some (imported, skipped, failed) \<Rightarrow>
             j1\<lparr>ij_imported_count := imported, ij_skipped_count := skipped, ij_failed_count := failed\<rparr>
         | None \<Rightarrow> j1)"

lemma live_progress:
  "update_import_progress env i st p c e (live_session d) = (Inr (), live_session (change_job_row env i (progress_row env st p c e) d))"
  by (simp add: update_import_progress_def live_change_job progress_row_def [abs_def])

definition add_logs :: "import_log list \<Rightarrow> import_db \<Rightarrow> import_db" where
  "add_logs ls d = d\<lparr>im_logs := im_logs d @ ls\<rparr>"

lemma log_refused:
  "log_key l \<in> log_key ` set (im_logs d) \<Longrightarrow> il_company l = ie_company env \<Longrightarrow> il_system l = system \<Longrightarrow> il_external_id l = ext \<Longrightarrow>
     il_type l = ty \<Longrightarrow> aborted (log_import_result env job system ext ty res err ok (live_session d))"
  by (simp add: log_import_result_def live_flush aborted_def log_key_def)

lemma import_record_new:
  assumes "ie_sees env (ie_company env)" "er_storable r" "record_key env system ty r \<notin> log_key ` set (im_logs d)"
  shows "import_record env job system ty n idx r (i, k, f) (live_session d) =
    (Inr (i + 1, k, f), live_session (change_job_row env job
       (progress_row env I_in_progress (Some (progress_of idx n)) (Some (i + 1, k, f)) None)
       (add_logs [imported_log env job system ty r] d)))"
proof -
  have none: "filter (\<lambda>l. ie_sees env (il_company l) \<and> log_key l = (ie_company env, system, er_id r, ty) \<and> il_result l = R_success) (im_logs d) = []"
    using assms(3) by (force simp: filter_empty_conv record_key_def)
  have known: "already_imported env system (er_id r) ty (live_session d) = (Inr False, live_session d)"
    unfolding already_imported_def live_select none by simp
  have logged: "log_import_result env job system (er_id r) ty R_success None (er_storable r) (live_session d) =
      (Inr (), live_session (add_logs [imported_log env job system ty r] d))"
    using assms log_key_imported [of env job system ty r]
    by (simp add: log_import_result_def live_flush add_logs_def imported_log_def)
  show ?thesis by (simp add: import_record_def then_do_def catching_def known logged live_progress)
qed

lemma import_record_refused:
  assumes "\<not> er_storable r \<or> record_key env system ty r \<in> log_key ` set (im_logs d)"
  shows "aborted (import_record env job system ty n idx r c (live_session d))"
proof -
  obtain i k f where c: "c = (i, k, f)" by (cases c) auto
  let ?logged = "\<lambda>res err ok. log_import_result env job system (er_id r) ty res err ok (live_session d)"
  have known: "already_imported env system (er_id r) ty (live_session d) = (fst (already_imported env system (er_id r) ty (live_session d)), live_session d)"
    by (simp add: already_imported_def live_select)
  have clash: "aborted (?logged res err ok)" if "record_key env system ty r \<in> log_key ` set (im_logs d)" for res err ok
    using that by (simp add: log_import_result_def live_flush aborted_def log_key_def record_key_def)
  have empty: "fst (already_imported env system (er_id r) ty (live_session d)) = Inr False"
    if "record_key env system ty r \<notin> log_key ` set (im_logs d)"
  proof -
    have "filter (\<lambda>l. ie_sees env (il_company l) \<and> log_key l = (ie_company env, system, er_id r, ty) \<and> il_result l = R_success) (im_logs d) = []"
      using that by (force simp: filter_empty_conv record_key_def)
    then show ?thesis unfolding already_imported_def live_select by simp
  qed
  have unstorable: "aborted (?logged R_success None (er_storable r))" if "\<not> er_storable r"
    using that by (simp add: log_import_result_def live_flush aborted_def)
  let ?body = "then_do (already_imported env system (er_id r) ty) (\<lambda>known.
      if known
      then then_do (log_import_result env job system (er_id r) ty R_duplicate None True) (\<lambda>_. ret (i, k + 1, f))
      else then_do (log_import_result env job system (er_id r) ty R_success None (er_storable r)) (\<lambda>_. ret (i + 1, k, f)))"
  let ?handler = "\<lambda>e. then_do (log_import_result env job system (er_id r) ty R_failed (Some e) True) (\<lambda>_. ret (i, k, f + 1))"
  have "aborted (catching ?body ?handler (live_session d))"
  proof (cases "fst (already_imported env system (er_id r) ty (live_session d))")
    case (Inl e)
    with empty have "record_key env system ty r \<in> log_key ` set (im_logs d)" by force
    moreover have "?body (live_session d) = (Inl e, live_session d)" using known Inl by (simp add: then_do_def)
    ultimately show ?thesis by (simp add: catching_def) (intro aborted_then_do clash)
  next
    case (Inr b)
    then have step: "already_imported env system (er_id r) ty (live_session d) = (Inr b, live_session d)" using known by simp
    have "aborted (?body (live_session d))"
    proof (cases b)
      case True
      then have "record_key env system ty r \<in> log_key ` set (im_logs d)" using Inr empty by force
      with True show ?thesis unfolding then_do_Inr [of "already_imported env system (er_id r) ty", OF step] by (auto intro: clash)
    next
      case False
      with assms show ?thesis
        unfolding then_do_Inr [of "already_imported env system (er_id r) ty", OF step] by (auto intro: clash unstorable)
    qed
    then show ?thesis by (intro aborted_catching hopeless_intros)
  qed
  then show ?thesis unfolding c import_record_def prod.case by (rule aborted_then_do)
qed

section \<open>All records of a type\<close>

definition importable :: "import_env \<Rightarrow> string \<Rightarrow> import_type \<Rightarrow> import_db \<Rightarrow> external_record list \<Rightarrow> bool" where
  "importable env system ty d rs \<longleftrightarrow> list_all er_storable rs \<and> distinct (map er_id rs) \<and>
     (\<forall>r \<in> set rs. record_key env system ty r \<notin> log_key ` set (im_logs d))"

definition absorbed :: "import_env \<Rightarrow> (import_job \<Rightarrow> import_job) \<Rightarrow> bool" where
  \<comment> \<open>a change of a job row that a last report of the progress overwrites\<close>
  "absorbed env g \<longleftrightarrow> (\<forall>j. ij_company (g j) = ij_company j \<and> ij_id (g j) = ij_id j \<and>
     (\<forall>st p c. progress_row env st (Some p) (Some c) None (g j) = progress_row env st (Some p) (Some c) None j))"

lemma absorbed_id: "absorbed env (\<lambda>j. j)"
  by (simp add: absorbed_def)

lemma absorbed_comp: "absorbed env f \<Longrightarrow> absorbed env g \<Longrightarrow> absorbed env (\<lambda>j. f (g j))"
  by (simp add: absorbed_def)

lemma absorbed_progress: "absorbed env (progress_row env I_in_progress p c None)"
  by (simp add: absorbed_def progress_row_def finished_def Let_def split: option.splits prod.splits)

lemma change_job_comp:
  "absorbed env g \<Longrightarrow> change_job_row env i f (change_job_row env i g d) = change_job_row env i (\<lambda>j. f (g j)) d"
  by (auto simp: change_job_row_def update_where_def absorbed_def intro!: import_db.equality)

lemma change_job_ident: "change_job_row env i (\<lambda>j. j) d = d"
  by (simp add: change_job_row_def)

lemma add_change_logs: "add_logs ls (change_job_row env i f d) = change_job_row env i f (add_logs ls d)"
  by (simp add: add_logs_def change_job_row_def)

lemma add_add_logs [simp]: "add_logs ls (add_logs ks d) = add_logs (ks @ ls) d" "add_logs [] d = d"
  by (simp_all add: add_logs_def)

lemma logs_change_job [simp]: "im_logs (change_job_row env i f d) = im_logs d" "im_logs (add_logs ls d) = im_logs d @ ls"
  by (simp_all add: change_job_row_def add_logs_def)

lemma import_rows_new:
  assumes "ie_sees env (ie_company env)" "importable env system ty d rs"
  shows "\<exists>g. absorbed env g \<and> import_rows env job system ty n idx rs (i, k, f) (live_session d) =
    (Inr (i + length rs, k, f), live_session (change_job_row env job g (add_logs (map (imported_log env job system ty) rs) d)))"
  using assms(2)
proof (induction rs arbitrary: idx i d)
  case Nil
  then show ?case using absorbed_id [of env] by (auto simp: change_job_ident intro!: exI [of _ "\<lambda>j. j"])
next
  case (Cons r rs)
  let ?g = "progress_row env I_in_progress (Some (progress_of idx n)) (Some (i + 1, k, f)) None"
  let ?d = "change_job_row env job ?g (add_logs [imported_log env job system ty r] d)"
  have "er_storable r" "record_key env system ty r \<notin> log_key ` set (im_logs d)" using Cons.prems by (simp_all add: importable_def)
  from import_record_new [OF assms(1) this]
  have step: "import_record env job system ty n idx r (i, k, f) (live_session d) = (Inr (i + 1, k, f), live_session ?d)" .
  have "importable env system ty ?d rs"
    using Cons.prems by (auto simp: importable_def record_key_def) (metis imageI)
  from Cons.IH [OF this, of "idx + 1" "i + 1"] obtain g where g: "absorbed env g"
    "import_rows env job system ty n (idx + 1) rs (i + 1, k, f) (live_session ?d) = (Inr (i + 1 + length rs, k, f),
       live_session (change_job_row env job g (add_logs (map (imported_log env job system ty) rs) ?d)))" by blast
  have "change_job_row env job g (add_logs (map (imported_log env job system ty) rs) ?d) =
      change_job_row env job (\<lambda>j. g (?g j)) (add_logs (map (imported_log env job system ty) (r # rs)) d)"
    by (simp add: add_change_logs change_job_comp absorbed_progress)
  with g absorbed_comp [OF g(1) absorbed_progress] show ?case by (auto simp: then_do_def step)
qed

lemma import_rows_refused:
  assumes "ie_sees env (ie_company env)" "\<not> importable env system ty d rs"
  shows "aborted (import_rows env job system ty n idx rs c (live_session d))"
  using assms(2)
proof (induction rs arbitrary: idx c d)
  case (Cons r rs)
  show ?case
  proof (cases "er_storable r \<and> record_key env system ty r \<notin> log_key ` set (im_logs d)")
    case True
    obtain i k f where c: "c = (i, k, f)" by (cases c) auto
    note step = import_record_new [OF assms(1) conjunct1 [OF True] conjunct2 [OF True], of job n idx i k f]
    have "\<not> importable env system ty (change_job_row env job
        (progress_row env I_in_progress (Some (progress_of idx n)) (Some (i + 1, k, f)) None)
        (add_logs [imported_log env job system ty r] d)) rs"
      using Cons.prems True by (auto simp: importable_def record_key_def)
    with Cons.IH True show ?thesis by (simp add: c then_do_def step)
  next
    case False
    then show ?thesis using import_record_refused [of r env system ty d job n idx c] by auto
  qed
qed (simp add: importable_def)

lemma then_do_assoc: "then_do (then_do m f) g = then_do m (\<lambda>a. then_do (f a) g)"
  by (simp add: fun_eq_iff then_do_def and_then_def split: prod.split sum.split)

lemma then_do_cong:
  assumes "\<And>a. f a = g a"
  shows "then_do m f = then_do m g"
proof -
  from assms have "f = g" by (rule ext)
  then show ?thesis by simp
qed

lemma then_do_ret_right [simp]: "then_do m ret = m"
  by (simp add: fun_eq_iff then_do_def and_then_def split: prod.split sum.split)

lemma import_rows_append:
  "import_rows env job system ty n idx (xs @ ys) c =
     then_do (import_rows env job system ty n idx xs c) (\<lambda>c1. import_rows env job system ty n (idx + length xs) ys c1)"
proof (induction xs arbitrary: idx c)
  case (Cons x xs)
  show ?case unfolding append_Cons import_rows.simps then_do_assoc by (rule then_do_cong) (simp add: Cons)
qed simp

lemma import_batches_Nil: "0 < bs \<Longrightarrow> import_batches bs env job system ty n idx [] = ret"
  by (rule ext) (simp add: import_batches.simps)

lemma import_batches_rows: "0 < bs \<Longrightarrow> import_batches bs env job system ty n idx rs c = import_rows env job system ty n idx rs c"
proof (induction bs env job system ty n idx rs c rule: import_batches.induct)
  case (1 bs env job system ty n idx rs c)
  show ?case
  proof (cases "length rs \<le> bs")
    case True
    then have "import_batches bs env job system ty n idx rs c = (if rs = [] then ret c else then_do (import_rows env job system ty n idx rs c) ret)"
      using 1(2) by (subst import_batches.simps) (auto simp: import_batches_Nil)
    then show ?thesis by (cases rs) (simp_all add: fun_eq_iff)
  next
    case False
    then have "rs \<noteq> []" by auto
    with 1 False show ?thesis
      using import_rows_append [of env job system ty n idx "take bs rs" "drop bs rs" c]
      by (subst import_batches.simps) (auto intro!: then_do_cong)
  qed
qed

section \<open>What an import does\<close>

definition new_import_job :: "import_env \<Rightarrow> uuid \<Rightarrow> string \<Rightarrow> import_type \<Rightarrow> uuid option \<Rightarrow> import_job" where
  "new_import_job env i system ty conn = \<lparr>ij_id = i, ij_company = ie_company env, ij_connection = conn, ij_provider = system,
     ij_type = ty, ij_status = I_pending, ij_progress_pct = 0, ij_total_records = 0, ij_imported_count = 0, ij_skipped_count = 0,
     ij_failed_count = 0, ij_error_message = None, ij_started_at = None, ij_finished_at = None, ij_rolled_back_at = None,
     ij_created_at = ie_now env, ij_updated_at = ie_now env\<rparr>"

definition add_job :: "import_job \<Rightarrow> import_db \<Rightarrow> import_db" where
  "add_job j d = d\<lparr>im_jobs := im_jobs d @ [j], im_next := im_next d + 1\<rparr>"

definition fresh_ids :: "import_db \<Rightarrow> bool" where
  "fresh_ids d \<longleftrightarrow> (\<forall>j \<in> set (im_jobs d). ij_id j < im_next d)"

definition failed_job :: "import_env \<Rightarrow> string \<Rightarrow> import_job \<Rightarrow> import_job" where
  "failed_job env e j = j\<lparr>ij_status := I_failed, ij_error_message := (if e = [] then None else Some e), ij_finished_at := Some (ie_now env)\<rparr>"

definition completed_job :: "import_env \<Rightarrow> nat \<Rightarrow> import_job \<Rightarrow> import_job" where
  "completed_job env n j = j\<lparr>ij_status := I_completed, ij_progress_pct := 100, ij_total_records := n, ij_imported_count := n,
     ij_finished_at := Some (ie_now env)\<rparr>"

definition expected_type ::
    "import_env \<Rightarrow> connector \<Rightarrow> string \<Rightarrow> uuid option \<Rightarrow> import_type \<Rightarrow> import_db \<Rightarrow> import_db option" where
  "expected_type env con system conn ty d =
     (let i = im_next d; j = new_import_job env i system ty conn in
      case cn_fetch con ty of
        None \<Rightarrow> Some (add_job (failed_job env ''No fetcher'' j) d)
      | Some (Inl e) \<Rightarrow> Some (add_job (failed_job env e j) d)
      | Some (Inr rs) \<Rightarrow>
          if importable env system ty d rs
          then Some (add_logs (map (imported_log env i system ty) rs) (add_job (completed_job env (length rs) j) d)) else None)"

fun expected_import ::
    "import_env \<Rightarrow> connector \<Rightarrow> string \<Rightarrow> uuid option \<Rightarrow> import_type list \<Rightarrow> import_db \<Rightarrow> import_db option" where
  "expected_import env con system conn [] d = Some d"
| "expected_import env con system conn (ty # tys) d =
     (case expected_type env con system conn ty d of
        None \<Rightarrow> None
      | Some d1 \<Rightarrow> expected_import env con system conn tys d1)"

lemma create_job_live:
  assumes "ie_sees env (ie_company env)"
  shows "create_import_job env system ty conn (live_session d) =
    (Inr (im_next d), live_session (add_job (new_import_job env (im_next d) system ty conn) d))"
  using assms by (simp add: create_import_job_def then_do_def live_flush new_import_job_def add_job_def Let_def)

lemma change_new_job:
  assumes "ie_sees env (ij_company j)" "fresh_ids d" "ij_id j = im_next d"
  shows "change_job_row env (im_next d) f (add_job j d) = add_job (f j) d"
proof -
  have "update_where (\<lambda>j. ie_sees env (ij_company j) \<and> ij_id j = im_next d) f (im_jobs d) = im_jobs d"
    using assms(2) by (intro update_where_none) (auto simp: fresh_ids_def)
  with assms show ?thesis by (simp add: change_job_row_def add_job_def update_where_def)
qed

lemma import_one_type_live:
  assumes "ie_sees env (ie_company env)" "fresh_ids d" "0 < bs"
  shows "case expected_type env con system conn ty d of
      Some d' \<Rightarrow> import_one_type bs False env con system conn ty (live_session d) = (Inr (im_next d), live_session d')
    | None \<Rightarrow> aborted (import_one_type bs False env con system conn ty (live_session d))"
proof -
  let ?i = "im_next d" and ?j = "new_import_job env (im_next d) system ty conn"
  let ?d1 = "add_job ?j d"
  have j: "ie_sees env (ij_company ?j)" "ij_id ?j = im_next d" using assms(1) by (simp_all add: new_import_job_def)
  note created = create_job_live [OF assms(1), of system ty conn d]
  have row: "change_job_row env ?i f ?d1 = add_job (f ?j) d" for f using change_new_job [OF j(1) assms(2) j(2)] .
  have fail: "progress_row env I_failed None None (Some e) ?j = failed_job env e ?j" for e
    by (simp add: progress_row_def failed_job_def new_import_job_def finished_def)
  show ?thesis
  proof (cases "cn_fetch con ty")
    case None
    then show ?thesis
      by (simp add: expected_type_def import_one_type_def created
          then_do_def live_progress row fail Let_def)
  next
    case (Some res)
    show ?thesis
    proof (cases res)
      case (Inl e)
      with Some show ?thesis
        by (simp add: expected_type_def import_one_type_def created
            then_do_def catching_def fetch_records_def live_progress row fail Let_def)
    next
      case (Inr rs)
      let ?d2 = "change_job_row env ?i (progress_row env I_in_progress (Some 0) None None)
        (change_job_row env ?i (\<lambda>j. j\<lparr>ij_total_records := length rs\<rparr>) ?d1)"
      have logs: "importable env system ty ?d2 rs = importable env system ty d rs" by (simp add: importable_def add_job_def)
      have fetched: "fetch_records con ty s = (Inr rs, s)" for s using Some Inr by (simp add: fetch_records_def)
      have start: "process_records bs False env ?i system ty rs (live_session ?d1) =
          then_do (import_rows env ?i system ty (length rs) 0 rs (0, 0, 0)) (\<lambda>c.
            update_import_progress env ?i (final_status c) (Some 100) (Some c) None) (live_session ?d2)"
        using assms(3) by (simp add: process_records_def then_do_def live_change_job live_progress import_batches_rows)
      show ?thesis
      proof (cases "importable env system ty d rs")
        case True
        with logs obtain g where g: "absorbed env g"
          "import_rows env ?i system ty (length rs) 0 rs (0, 0, 0) (live_session ?d2) = (Inr (length rs, 0, 0),
             live_session (change_job_row env ?i g (add_logs (map (imported_log env ?i system ty) rs) ?d2)))"
          using import_rows_new [OF assms(1), of system ty ?d2 rs ?i "length rs" 0 0 0 0] by auto
        have final: "change_job_row env ?i (progress_row env I_completed (Some 100) (Some (length rs, 0, 0)) None)
            (change_job_row env ?i g (add_logs (map (imported_log env ?i system ty) rs) ?d2)) =
            add_logs (map (imported_log env ?i system ty) rs) (add_job (completed_job env (length rs) ?j) d)"
        proof -
          let ?F = "progress_row env I_completed (Some 100) (Some (length rs, 0, 0)) None"
            and ?G = "progress_row env I_in_progress (Some 0) None None" and ?L = "map (imported_log env ?i system ty) rs"
          have "(\<lambda>j. ?F (g j)) = ?F" using g(1) by (simp add: absorbed_def fun_eq_iff)
          then have "change_job_row env ?i ?F (change_job_row env ?i g (add_logs ?L ?d2)) = add_logs ?L (change_job_row env ?i ?F ?d2)"
            by (simp add: change_job_comp [OF g(1)] add_change_logs)
          also have "change_job_row env ?i ?F ?d2 = add_job (?F (?G (?j\<lparr>ij_total_records := length rs\<rparr>))) d"
          proof -
            have "?d2 = add_job (?G (?j\<lparr>ij_total_records := length rs\<rparr>)) d"
              using change_new_job [of env "?j\<lparr>ij_total_records := length rs\<rparr>" d] j assms(2) by (simp add: row)
            then show ?thesis
              using change_new_job [of env "?G (?j\<lparr>ij_total_records := length rs\<rparr>)" d] j assms(2) by (simp add: progress_row_def)
          qed
          also have "?F (?G (?j\<lparr>ij_total_records := length rs\<rparr>)) = completed_job env (length rs) ?j"
            by (simp add: progress_row_def completed_job_def new_import_job_def finished_def)
          finally show ?thesis .
        qed
        have "process_records bs False env ?i system ty rs (live_session ?d1) =
            (Inr (), live_session (add_logs (map (imported_log env ?i system ty) rs) (add_job (completed_job env (length rs) ?j) d)))"
          unfolding start using final by (simp add: then_do_def g(2) final_status_def live_progress)
        with True Some Inr show ?thesis
          by (simp add: expected_type_def import_one_type_def created
              then_do_def catching_def fetched Let_def)
      next
        case False
        with logs have "aborted (import_rows env ?i system ty (length rs) 0 rs (0, 0, 0) (live_session ?d2))"
          using import_rows_refused [OF assms(1)] by blast
        then have "aborted (process_records bs False env ?i system ty rs (live_session ?d1))" unfolding start by (rule aborted_then_do)
        then have "aborted (catching (then_do (fetch_records con ty) (process_records bs False env ?i system ty))
            (\<lambda>e. update_import_progress env ?i I_failed None None (Some e)) (live_session ?d1))"
          by (intro aborted_catching hopeless_intros) (simp add: then_do_def fetched)
        with False Some Inr show ?thesis
          by (simp add: expected_type_def import_one_type_def Let_def) (rule aborted_step [of "create_import_job env system ty conn", OF created], simp add: aborted_then_do)
      qed
    qed
  qed
qed

lemma fresh_expected_type:
  assumes "expected_type env con system conn ty d = Some d'" "fresh_ids d"
  shows "fresh_ids d'"
proof -
  obtain j ls where d': "d' = add_logs ls (add_job j d)" "ij_id j = im_next d"
  proof -
    note exp = assms(1) [unfolded expected_type_def Let_def]
    show thesis
    proof (cases "cn_fetch con ty")
      case None
      with exp show thesis
        by (intro that [of "[]" "failed_job env ''No fetcher'' (new_import_job env (im_next d) system ty conn)"])
          (auto simp: failed_job_def new_import_job_def)
    next
      case (Some res)
      with exp show thesis
        by (cases res) (auto split: if_splits simp: failed_job_def completed_job_def new_import_job_def
            intro: that [of "[]" "failed_job env e (new_import_job env (im_next d) system ty conn)" for e]
              that [of "map (imported_log env (im_next d) system ty) rs" "completed_job env (length rs) (new_import_job env (im_next d) system ty conn)" for rs])
    qed
  qed
  with assms(2) show ?thesis by (auto simp: fresh_ids_def add_logs_def add_job_def intro: less_SucI)
qed

lemma import_types_live:
  assumes "ie_sees env (ie_company env)" "fresh_ids d" "0 < bs"
  shows "case expected_import env con system conn tys d of
      Some d' \<Rightarrow> \<exists>ids. import_types bs False env con system conn tys (live_session d) = (Inr ids, live_session d')
    | None \<Rightarrow> aborted (import_types bs False env con system conn tys (live_session d))"
  using assms(2)
proof (induction tys arbitrary: d)
  case (Cons ty tys)
  note one = import_one_type_live [OF assms(1) Cons.prems assms(3), of con system conn ty]
  show ?case
  proof (cases "expected_type env con system conn ty d")
    case None
    with one show ?thesis by (auto intro: aborted_then_do)
  next
    case (Some d1)
    with one have step: "import_one_type bs False env con system conn ty (live_session d) = (Inr (im_next d), live_session d1)" by simp
    then have whole: "import_types bs False env con system conn (ty # tys) (live_session d) =
        then_do (import_types bs False env con system conn tys) (\<lambda>jobs. ret (im_next d # jobs)) (live_session d1)"
      by (simp add: then_do_def)
    note rest = Cons.IH [OF fresh_expected_type [OF Some Cons.prems]]
    show ?thesis
    proof (cases "expected_import env con system conn tys d1")
      case None
      with rest show ?thesis using Some whole by (simp add: aborted_then_do del: import_types.simps)
    next
      case later: (Some d')
      with rest show ?thesis using Some whole by (auto simp: then_do_def simp del: import_types.simps)
    qed
  qed
qed simp

definition available :: "string \<Rightarrow> bool" where
  "available system \<longleftrightarrow> (\<exists>st. get_connector system = Inr st \<and> st \<noteq> STUB)"

lemma run_import_live:
  assumes "available system" "cn_authenticate (connect_to (connection_row env conn d)) = Inr b"
  shows "run_import bs dry_run env connect_to system tys conn (live_session d) =
    import_types bs dry_run env (connect_to (connection_row env conn d)) system conn tys (live_session d)"
  using assms by (auto simp: available_def run_import_def then_do_def live_select split: connector_status.splits)

lemma background_refines:
  assumes "available system" "cn_authenticate (connect_to (connection_row env conn d)) = Inr b"
    and "ie_sees env (ie_company env)" "fresh_ids d"
  shows "background_import False env connect_to system tys conn d =
    (case expected_import env (connect_to (connection_row env conn d)) system conn tys d of Some d' \<Rightarrow> d' | None \<Rightarrow> d)"
proof (cases "expected_import env (connect_to (connection_row env conn d)) system conn tys d")
  case None
  with import_types_live [OF assms(3,4), of 500 "connect_to (connection_row env conn d)" system conn tys]
  show ?thesis
    by (auto simp: background_import_def run_import_live [where connect_to = connect_to and conn = conn and d = d, OF assms(1,2)] aborted_def split: prod.splits sum.splits)
next
  case (Some d')
  with import_types_live [OF assms(3,4), of 500 "connect_to (connection_row env conn d)" system conn tys]
  show ?thesis by (auto simp: background_import_def run_import_live [where connect_to = connect_to and conn = conn and d = d, OF assms(1,2)])
qed

text \<open>
  C4. An import is all or nothing: the task of the route refines the specification that every type adds one finished job, with one
  entry of the log for each of its records, all of them counted as imported and none as skipped or failed; if one record of one type
  is already in the log with any result, occurs twice, or has a date or an amount in its data, then nothing at all
  is stored, of the other types neither, and not even a job that says it failed.
\<close>

theorem import_all_or_nothing:
  assumes "available system" "cn_authenticate (connect_to (connection_row env conn d)) = Inr b"
    and "ie_sees env (ie_company env)" "fresh_ids d"
  shows "background_import False env connect_to system tys conn d =
    (case expected_import env (connect_to (connection_row env conn d)) system conn tys d of Some d' \<Rightarrow> d' | None \<Rightarrow> d)"
  using assms by (rule background_refines)

lemma expected_keeps_keys:
  "expected_import env con system conn tys d = Some d' \<Longrightarrow> set (map log_key (im_logs d)) \<subseteq> set (map log_key (im_logs d'))"
proof (induction tys arbitrary: d)
  case (Cons ty tys)
  then obtain d1 where d1: "expected_type env con system conn ty d = Some d1" "expected_import env con system conn tys d1 = Some d'"
    by (auto split: option.splits)
  then have "set (map log_key (im_logs d)) \<subseteq> set (map log_key (im_logs d1))"
    by (auto simp: expected_type_def add_job_def Let_def split: option.splits sum.splits if_splits)
  with Cons.IH [OF d1(2)] show ?case by blast
qed simp

lemma expected_none:
  assumes "ty \<in> set tys" "cn_fetch con ty = Some (Inr rs)" "r \<in> set rs" "record_key env system ty r \<in> log_key ` set (im_logs d)"
  shows "expected_import env con system conn tys d = None"
proof -
  have "expected_import env con system conn tys d \<noteq> Some d'" for d'
    using assms(1,4)
  proof (induction tys arbitrary: d)
    case (Cons ty' tys)
    show ?case
    proof (cases "expected_type env con system conn ty' d")
      case (Some d1)
      have "\<not> importable env system ty d rs" using Cons.prems(2) assms(3) unfolding importable_def by blast
      then have "ty' \<noteq> ty" using Some assms(2) by (auto simp: expected_type_def Let_def)
      moreover have "record_key env system ty r \<in> log_key ` set (im_logs d1)"
        using expected_keeps_keys [of env con system conn "[ty']" d d1] Some Cons.prems(2) by auto
      ultimately show ?thesis using Cons Some by auto
    qed simp
  qed simp
  then show ?thesis by (cases "expected_import env con system conn tys d") auto
qed

text \<open>
  C12. What was imported once cannot be imported again, after a rollback neither: if the log of the company holds a record that a fetcher
  of one of the types returns, with whatever result, and the job to which it belonged may have been taken back in
  between, then the import changes nothing, for this record and for all that are new.
\<close>

theorem known_record_stops_import:
  assumes "available system" "cn_authenticate (connect_to (connection_row env conn d)) = Inr b"
    and "ie_sees env (ie_company env)" "fresh_ids d" "ty \<in> set tys" "cn_fetch (connect_to (connection_row env conn d)) ty = Some (Inr rs)"
    and "r \<in> set rs" "l \<in> set (im_logs d)" "log_key l = record_key env system ty r"
  shows "background_import False env connect_to system tys conn d = d"
  proof -
  have "expected_import env (connect_to (connection_row env conn d)) system conn tys d = None"
    using assms(8,9) by (intro expected_none [OF assms(5-7)]) (simp add: rev_image_eqI)
  then show ?thesis using background_refines [where connect_to = connect_to and conn = conn and d = d, OF assms(1-4), of tys] by simp
qed

section \<open>The books of the imports\<close>

definition rollback_route :: "import_env \<Rightarrow> uuid \<Rightarrow> import_db \<Rightarrow> (string + nat) \<times> import_db" where
  \<comment> \<open>the route commits what the service returns\<close>
  "rollback_route env i d = (case rollback_import env i (live_session d) of
     (Inr n, s) \<Rightarrow> (Inr n, is_db s) | (Inl e, _) \<Rightarrow> (Inl e, d))"

definition logs_of :: "uuid \<Rightarrow> import_result \<Rightarrow> import_db \<Rightarrow> import_log list" where
  "logs_of i res d = filter (\<lambda>l. il_job l = i \<and> il_result l = res) (im_logs d)"

definition books :: "import_db \<Rightarrow> import_job \<Rightarrow> bool" where
  "books d j \<longleftrightarrow> ij_imported_count j = length (logs_of (ij_id j) R_success d) \<and> ij_failed_count j = 0 \<and> ij_started_at j = None \<and>
     (if ij_rolled_back_at j = None
      then ij_imported_count j \<in> {0, ij_total_records j} \<and> ij_skipped_count j = 0 \<and> logs_of (ij_id j) R_rolled_back d = []
      else ij_imported_count j = 0 \<and> ij_skipped_count j = length (logs_of (ij_id j) R_rolled_back d) ^ 2)"

definition import_inv :: "import_db \<Rightarrow> bool" where
  "import_inv d \<longleftrightarrow> fresh_ids d \<and> distinct (map ij_id (im_jobs d)) \<and> distinct (map log_key (im_logs d)) \<and>
     (\<forall>l \<in> set (im_logs d). il_result l \<in> {R_success, R_rolled_back} \<and>
        (\<exists>j \<in> set (im_jobs d). ij_id j = il_job l \<and> ij_company j = il_company l)) \<and>
     (\<forall>j \<in> set (im_jobs d). books d j)"

lemma logs_of_add [simp]:
  "logs_of i res (add_logs ls d) = logs_of i res d @ filter (\<lambda>l. il_job l = i \<and> il_result l = res) ls"
  "logs_of i res (add_job j d) = logs_of i res d"
  by (simp_all add: logs_of_def add_logs_def add_job_def)

lemma logs_of_fresh: "import_inv d \<Longrightarrow> logs_of (im_next d) res d = []"
  by (auto simp: import_inv_def fresh_ids_def logs_of_def filter_empty_conv) (metis less_irrefl)

lemma filter_imported [simp]:
  "filter (\<lambda>l. il_job l = i \<and> il_result l = res) (map (imported_log env job system ty) rs) =
    (if i = job \<and> res = R_success then map (imported_log env job system ty) rs else [])"
  by (induction rs) (auto simp: imported_log_def)

lemma inv_add:
  assumes inv: "import_inv d" and j: "ij_id j = im_next d" "ij_imported_count j = length ls" "ij_skipped_count j = 0"
      "ij_failed_count j = 0" "ls = [] \<or> ij_total_records j = length ls" "ij_started_at j = None" "ij_rolled_back_at j = None"
    and ls: "\<And>l. l \<in> set ls \<Longrightarrow> il_job l = im_next d \<and> il_result l = R_success \<and> il_company l = ij_company j"
    and keys: "distinct (map log_key ls)" "log_key ` set ls \<inter> log_key ` set (im_logs d) = {}"
  shows "import_inv (add_logs ls (add_job j d))"
proof -
  have old: "ij_id k < im_next d" if "k \<in> set (im_jobs d)" for k using inv that by (simp add: import_inv_def fresh_ids_def)
  have none: "filter (\<lambda>l. il_job l = i \<and> il_result l = res) ls = (if i = im_next d \<and> res = R_success then ls else [])" for i res
    using ls by (auto simp: filter_id_conv filter_empty_conv)
  have books: "books (add_logs ls (add_job j d)) k" if "k \<in> set (im_jobs d)" for k
    using inv that old [OF that] by (auto simp: import_inv_def books_def none)
  have new: "books (add_logs ls (add_job j d)) j"
    using j by (auto simp: books_def none logs_of_fresh [OF inv])
  have ids: "im_next d \<notin> ij_id ` set (im_jobs d)" using old by force
  show ?thesis
    using inv books new ls keys ids old j(1)
    by (auto simp: import_inv_def fresh_ids_def add_logs_def add_job_def less_Suc_eq Int_commute)
qed

lemma inv_expected_type:
  assumes inv: "import_inv d" and exp: "expected_type env con system conn ty d = Some d'"
  shows "import_inv d'"
proof (cases "cn_fetch con ty")
  case None
  with inv_add [OF inv, of "failed_job env ''No fetcher'' (new_import_job env (im_next d) system ty conn)" "[]"] exp
  show ?thesis by (simp add: expected_type_def failed_job_def new_import_job_def Let_def)
next
  case (Some res)
  show ?thesis
  proof (cases res)
    case (Inl e)
    with Some inv_add [OF inv, of "failed_job env e (new_import_job env (im_next d) system ty conn)" "[]"] exp
    show ?thesis by (simp add: expected_type_def failed_job_def new_import_job_def Let_def)
  next
    case (Inr rs)
    let ?ls = "map (imported_log env (im_next d) system ty) rs"
    have ok: "importable env system ty d rs"
      "d' = add_logs ?ls (add_job (completed_job env (length rs) (new_import_job env (im_next d) system ty conn)) d)"
      using exp Some Inr by (auto simp: expected_type_def Let_def split: if_splits)
    have "distinct (map log_key ?ls)"
      using ok(1) by (auto simp: importable_def comp_def distinct_map inj_on_def record_key_def)
    moreover have "log_key ` set ?ls \<inter> log_key ` set (im_logs d) = {}" 
      using ok(1) by (simp add: importable_def image_image) blast
    ultimately show ?thesis
      unfolding ok(2) by (intro inv_add [OF inv]) (auto simp: completed_job_def new_import_job_def imported_log_def)
  qed
qed

lemma inv_expected: "import_inv d \<Longrightarrow> expected_import env con system conn tys d = Some d' \<Longrightarrow> import_inv d'"
  by (induction tys arbitrary: d) (auto split: option.splits dest: inv_expected_type)

lemma background_cases:
  assumes "fresh_ids d"
  shows "background_import False env connect_to system tys conn d = d \<or>
    (\<exists>con. expected_import env con system conn tys d = Some (background_import False env connect_to system tys conn d))"
proof (cases "available system \<and> (\<exists>b. cn_authenticate (connect_to (connection_row env conn d)) = Inr b)")
  case True
  then obtain b where ok: "available system" "cn_authenticate (connect_to (connection_row env conn d)) = Inr b" by blast
  show ?thesis
  proof (cases "ie_sees env (ie_company env)")
    case True
    from background_refines [where connect_to = connect_to and conn = conn and d = d, OF ok True assms, of tys]
    show ?thesis by (auto split: option.splits)
  next
    case False
    have "aborted (import_one_type 500 False env con system conn ty (live_session d))" for con ty
      unfolding import_one_type_def using False
      by (intro aborted_then_do) (simp add: create_import_job_def then_do_def live_flush aborted_def Let_def)
    then have lost: "aborted (import_types 500 False env con system conn (ty # tys') (live_session d))" for con ty tys'
      by (auto intro: aborted_then_do)
    note run = run_import_live [where connect_to = connect_to and conn = conn and d = d, OF ok]
    show ?thesis
    proof (cases tys)
      case Nil
      then show ?thesis by (simp add: background_import_def run)
    next
      case (Cons ty tys')
      then show ?thesis
        using lost [of "connect_to (connection_row env conn d)" ty tys']
        by (auto simp: background_import_def run aborted_def simp del: import_types.simps split: prod.splits)
    qed
  qed
next
  case False
  then have "\<exists>e. fst (run_import 500 False env connect_to system tys conn (live_session d)) = Inl e"
    by (cases "get_connector system"; cases "cn_authenticate (connect_to (connection_row env conn d))")
      (auto simp: available_def run_import_def then_do_def live_select split: connector_status.splits)
  then show ?thesis by (auto simp: background_import_def split: prod.splits)
qed

lemma scoped_own:
  assumes "\<And>r. r \<in> set rows \<Longrightarrow> P r \<Longrightarrow> ie_sees env (company r) \<and> company r = ie_company env"
  shows "length (scoped env company P rows) = length (filter P rows) ^ 2"
    and "r \<in> set (scoped env company P rows) \<longleftrightarrow> r \<in> set rows \<and> P r"
proof -
  have sel: "filter (\<lambda>r. ie_sees env (company r) \<and> P r) rows = filter P rows" using assms by (intro filter_cong) auto
  have own: "filter (\<lambda>r. company r = ie_company env) (filter P rows) = filter P rows"
    by (rule filter_id_conv [THEN iffD2]) (use assms in auto)
  have all: "scoped env company P rows = concat (map (\<lambda>r. replicate (length (filter P rows)) r) (filter P rows))"
    unfolding scoped_def Let_def sel own ..
  have "length (concat (map (\<lambda>r. replicate n r) xs)) = length xs * n" for n and xs :: "'a list" by (induction xs) simp_all
  then show "length (scoped env company P rows) = length (filter P rows) ^ 2" by (simp add: all power2_eq_square)
  show "r \<in> set (scoped env company P rows) \<longleftrightarrow> r \<in> set rows \<and> P r"
    by (auto simp: all set_replicate_conv_if length_0_conv filter_empty_conv)
qed

lemma by_id_Some:
  assumes "by_id env company key i rows = Some r" "distinct (map key rows)"
  shows "r \<in> set rows \<and> key r = i \<and> ie_sees env (company r) \<and> company r = ie_company env"
proof -
  let ?sel = "filter (\<lambda>r. ie_sees env (company r) \<and> key r = i) rows"
  let ?own = "filter (\<lambda>r. company r = ie_company env) ?sel"
  from assms(1) obtain rest where rest: "concat (map (\<lambda>r. replicate (length ?own) r) ?sel) = r # rest"
    by (auto simp: by_id_def scoped_def Let_def split: list.splits)
  then have "r \<in> set (concat (map (\<lambda>r. replicate (length ?own) r) ?sel))" by simp
  then have r: "r \<in> set ?sel" "?own \<noteq> []" by (auto simp: set_replicate_conv_if simp del: filter_filter split: if_splits)
  obtain q where q: "q \<in> set ?own" using last_in_set [OF r(2)] by blast
  then have "q \<in> set rows" "key q = i" "company q = ie_company env" by auto
  moreover have "r \<in> set rows" "key r = i" "ie_sees env (company r)" using r by auto
  ultimately show ?thesis using assms(2) by (auto simp: distinct_map inj_on_def)
qed

lemma by_id_finds:
  "r \<in> set rows \<Longrightarrow> key r = i \<Longrightarrow> ie_sees env (company r) \<Longrightarrow> company r = ie_company env \<Longrightarrow> by_id env company key i rows \<noteq> None"
  by (force simp: by_id_def scoped_def Let_def filter_empty_conv split: list.split)

lemma rollback_live:
  "rollback_import env i (live_session d) =
    (case by_id env ij_company ij_id i (im_jobs d) of
       None \<Rightarrow> (Inl ''ValueError: not found'', live_session d)
     | Some j \<Rightarrow>
         if ij_rolled_back_at j \<noteq> None then (Inl ''ValueError: already rolled back'', live_session d)
         else let ls = scoped env il_company (success_log i) (im_logs d) in
           (Inr (length ls), live_session (change_job_row env i (\<lambda>j. j\<lparr>ij_rolled_back_at := Some (ie_now env), ij_status := I_failed,
              ij_imported_count := ij_imported_count j - length ls, ij_skipped_count := ij_skipped_count j + length ls\<rparr>)
              (d\<lparr>im_logs := update_where (\<lambda>l. l \<in> set ls) (\<lambda>l. l\<lparr>il_result := R_rolled_back\<rparr>) (im_logs d)\<rparr>))))"
  by (simp add: rollback_import_def get_import_job_def then_do_def live_select live_flush change_job_row_def Let_def
      split: option.split)

definition rolled_back_row :: "import_env \<Rightarrow> import_job \<Rightarrow> import_job" where
  "rolled_back_row env j = j\<lparr>ij_rolled_back_at := Some (ie_now env), ij_status := I_failed, ij_imported_count := 0,
     ij_skipped_count := ij_imported_count j ^ 2\<rparr>"

lemma rollback_exact:
  assumes inv: "import_inv d" and run: "rollback_route env i d = (Inr n, d')"
  obtains j where "j \<in> set (im_jobs d)" "ij_id j = i" "ij_rolled_back_at j = None" "ie_sees env (ij_company j)"
    "ij_company j = ie_company env" "n = ij_imported_count j ^ 2"
    "d' = d\<lparr>im_logs := map (\<lambda>l. if il_job l = i then l\<lparr>il_result := R_rolled_back\<rparr> else l) (im_logs d),
            im_jobs := map (\<lambda>k. if ij_id k = i then rolled_back_row env k else k) (im_jobs d)\<rparr>"
proof -
  let ?sel = "\<lambda>j. ie_sees env (ij_company j) \<and> ij_id j = i" and ?ls = "scoped env il_company (success_log i) (im_logs d)"
  have ids: "distinct (map ij_id (im_jobs d))" using inv by (simp add: import_inv_def)
  from run obtain j where found: "by_id env ij_company ij_id i (im_jobs d) = Some j" and unrolled: "ij_rolled_back_at j = None"
    and n: "n = length ?ls"
    and d': "d' = change_job_row env i (\<lambda>j. j\<lparr>ij_rolled_back_at := Some (ie_now env), ij_status := I_failed,
        ij_imported_count := ij_imported_count j - n, ij_skipped_count := ij_skipped_count j + n\<rparr>)
        (d\<lparr>im_logs := update_where (\<lambda>l. l \<in> set ?ls) (\<lambda>l. l\<lparr>il_result := R_rolled_back\<rparr>) (im_logs d)\<rparr>)"
    by (auto simp: rollback_route_def rollback_live Let_def split: option.splits if_splits)
  from by_id_Some [OF found ids] have j: "j \<in> set (im_jobs d)" "ij_id j = i" "ie_sees env (ij_company j)" "ij_company j = ie_company env"
    by auto
  have only: "k = j" if "k \<in> set (im_jobs d)" "ij_id k = i" for k
    using ids that j by (auto simp: distinct_map inj_on_def)
  have company: "il_company l = ij_company j" if "l \<in> set (im_logs d)" "il_job l = i" for l
    using inv that only by (auto simp: import_inv_def)
  have mine: "ie_sees env (il_company l) \<and> il_company l = ie_company env" if "l \<in> set (im_logs d)" "success_log i l" for l
    using company that j by (simp add: success_log_def)
  note logs = scoped_own [of "im_logs d" "success_log i" env il_company, OF mine]
  have books: "books d j" using inv j(1) by (simp add: import_inv_def)
  have "filter (success_log i) (im_logs d) = logs_of i R_success d" by (simp add: logs_of_def success_log_def [abs_def])
  with n logs(1) books j(2) have count: "n = ij_imported_count j ^ 2" by (simp add: books_def)
  have results: "il_result l \<in> {R_success, R_rolled_back}" if "l \<in> set (im_logs d)" for l using inv that by (simp add: import_inv_def)
  have "update_where (\<lambda>l. l \<in> set ?ls) (\<lambda>l. l\<lparr>il_result := R_rolled_back\<rparr>) (im_logs d) =
      map (\<lambda>l. if il_job l = i then l\<lparr>il_result := R_rolled_back\<rparr> else l) (im_logs d)"
    unfolding update_where_def
  proof (rule map_cong [OF refl])
    fix l assume l: "l \<in> set (im_logs d)"
    have "l \<in> set ?ls \<longleftrightarrow> success_log i l" using logs(2) [of l] l by blast
    then show "(if l \<in> set ?ls then l\<lparr>il_result := R_rolled_back\<rparr> else l) =
        (if il_job l = i then l\<lparr>il_result := R_rolled_back\<rparr> else l)"
      using results [OF l] by (cases "il_result l = R_success") (auto simp: success_log_def)
  qed
  moreover have "update_where ?sel (\<lambda>j. j\<lparr>ij_rolled_back_at := Some (ie_now env), ij_status := I_failed,
        ij_imported_count := ij_imported_count j - n, ij_skipped_count := ij_skipped_count j + n\<rparr>) (im_jobs d) =
      map (\<lambda>k. if ij_id k = i then rolled_back_row env k else k) (im_jobs d)"
    unfolding update_where_def
  proof (rule map_cong [OF refl])
    fix k assume k: "k \<in> set (im_jobs d)"
    have "ij_imported_count j - n = 0" by (simp add: count power2_eq_square)
    moreover have "ij_skipped_count j = 0" using books unrolled by (simp add: books_def)
    ultimately show "(if ?sel k then k\<lparr>ij_rolled_back_at := Some (ie_now env), ij_status := I_failed,
        ij_imported_count := ij_imported_count k - n, ij_skipped_count := ij_skipped_count k + n\<rparr> else k) =
        (if ij_id k = i then rolled_back_row env k else k)"
      using only [OF k] j(3) count by (auto simp: rolled_back_row_def)
  qed
  ultimately show thesis using that [OF j(1,2) unrolled j(3,4) count] by (simp add: d' change_job_row_def)
qed

lemma inv_rollback:
  assumes inv: "import_inv d" and run: "rollback_route env i d = (Inr n, d')"
  shows "import_inv d'"
proof -
  from rollback_exact [OF assms] obtain j where j: "j \<in> set (im_jobs d)" "ij_id j = i" "ij_rolled_back_at j = None"
    and d': "d' = d\<lparr>im_logs := map (\<lambda>l. if il_job l = i then l\<lparr>il_result := R_rolled_back\<rparr> else l) (im_logs d),
            im_jobs := map (\<lambda>k. if ij_id k = i then rolled_back_row env k else k) (im_jobs d)\<rparr>" by blast
  have results: "il_result l \<in> {R_success, R_rolled_back}" if "l \<in> set (im_logs d)" for l using inv that by (simp add: import_inv_def)
  have keys: "map log_key (im_logs d') = map log_key (im_logs d)" by (simp add: d' log_key_def)
  have ids: "map ij_id (im_jobs d') = map ij_id (im_jobs d)" by (simp add: d' rolled_back_row_def)
  have others: "logs_of k res d' = logs_of k res d" if "k \<noteq> i" for k res
  proof -
    have "filter (\<lambda>l. il_job l = k \<and> il_result l = res) (map (\<lambda>l. if il_job l = i then l\<lparr>il_result := R_rolled_back\<rparr> else l) ls) =
        filter (\<lambda>l. il_job l = k \<and> il_result l = res) ls" for ls using that by (induction ls) auto
    then show ?thesis by (simp add: logs_of_def d')
  qed
  have none: "logs_of i R_success d' = []"
  proof -
    have "filter (\<lambda>l. il_job l = i \<and> il_result l = R_success) (map (\<lambda>l. if il_job l = i then l\<lparr>il_result := R_rolled_back\<rparr> else l) ls) = []" for ls
      by (induction ls) simp_all
    then show ?thesis by (simp add: logs_of_def d')
  qed
  have all: "length (logs_of i R_rolled_back d') = length (logs_of i R_success d) + length (logs_of i R_rolled_back d)"
  proof -
    have marked: "length (filter (\<lambda>l. il_job l = i \<and> il_result l = R_rolled_back)
        (map (\<lambda>l. if il_job l = i then l\<lparr>il_result := R_rolled_back\<rparr> else l) ls)) =
      length (filter (\<lambda>l. il_job l = i \<and> il_result l = R_success) ls) + length (filter (\<lambda>l. il_job l = i \<and> il_result l = R_rolled_back) ls)"
      if "\<And>l. l \<in> set ls \<Longrightarrow> il_result l \<in> {R_success, R_rolled_back}" for ls
      using that by (induction ls) auto
    from marked [OF results] show ?thesis by (simp add: logs_of_def d' del: filter_map)
  qed
  have "books d' k" if "k \<in> set (im_jobs d')" for k
  proof -
    from that obtain k0 where k0: "k0 \<in> set (im_jobs d)" "k = (if ij_id k0 = i then rolled_back_row env k0 else k0)" by (auto simp: d')
    have b: "books d k0" using inv k0(1) by (simp add: import_inv_def)
    show ?thesis
    proof (cases "ij_id k0 = i")
      case True
      then have "k0 = j" using inv k0(1) j by (auto simp: import_inv_def distinct_map inj_on_def)
      with True b none all k0(2) j(3) show ?thesis by (simp add: books_def rolled_back_row_def)
    next
      case False
      with b k0(2) others show ?thesis by (auto simp: books_def split: if_splits)
    qed
  qed
  moreover have "\<exists>k \<in> set (im_jobs d'). ij_id k = il_job l \<and> ij_company k = il_company l" if "l \<in> set (im_logs d')" for l
  proof -
    from that obtain l0 where l0: "l0 \<in> set (im_logs d)" "il_job l = il_job l0" "il_company l = il_company l0"
      by (auto simp: d' split: if_splits)
    then obtain k0 where "k0 \<in> set (im_jobs d)" "ij_id k0 = il_job l0" "ij_company k0 = il_company l0"
      using inv by (auto simp: import_inv_def)
    with l0 show ?thesis
      by (intro bexI [of _ "if ij_id k0 = i then rolled_back_row env k0 else k0"]) (simp_all add: d' rolled_back_row_def)
  qed
  moreover have "il_result l \<in> {R_success, R_rolled_back}" if "l \<in> set (im_logs d')" for l
    using that results by (auto simp: d' split: if_splits)
  moreover have "fresh_ids d'" using inv by (auto simp: import_inv_def fresh_ids_def d' rolled_back_row_def)
  ultimately show ?thesis using inv keys ids by (simp add: import_inv_def)
qed

text \<open>A dry run adds jobs without an entry of the log.\<close>

lemma count_existing_live: "\<exists>r. count_existing env system ty rs (live_session d) = (r, live_session d)"
proof (induction rs)
  case (Cons x rs)
  obtain k where k: "already_imported env system (er_id x) ty (live_session d) = (k, live_session d)"
    by (simp add: already_imported_def live_select)
  with Cons show ?case by (cases k) (auto simp: then_do_def and_then_def split: sum.split prod.split)
qed simp

definition dry_job :: "import_db \<Rightarrow> import_job \<Rightarrow> bool" where
  "dry_job d j \<longleftrightarrow> ij_id j = im_next d \<and> ij_imported_count j = 0 \<and> ij_skipped_count j = 0 \<and> ij_failed_count j = 0 \<and>
     ij_started_at j = None \<and> ij_rolled_back_at j = None"

lemma inv_dry: "import_inv d \<Longrightarrow> dry_job d j \<Longrightarrow> import_inv (add_job j d)"
  using inv_add [of d j "[]"] by (simp add: dry_job_def)

lemma dry_type:
  assumes "ie_sees env (ie_company env)" "fresh_ids d"
  shows "\<exists>j. dry_job d j \<and> import_one_type bs True env con system conn ty (live_session d) = (Inr (im_next d), live_session (add_job j d))"
proof -
  let ?i = "im_next d" and ?scan = "progress_row env I_scanning (Some 0) None None"
  let ?j = "?scan (new_import_job env (im_next d) system ty conn)"
  have keep: "ij_company (progress_row env st p c e j) = ij_company j \<and> ij_id (progress_row env st p c e j) = ij_id j" for st p c e j
    by (simp add: progress_row_def Let_def split: option.split prod.split)
  have ij: "ie_sees env (ij_company ?j)" "ij_id ?j = ?i" using assms(1) by (simp_all add: keep new_import_job_def)
  note create = create_job_live [OF assms(1), of system ty conn d]
  have row0: "change_job_row env ?i f (add_job (new_import_job env ?i system ty conn) d) = add_job (f (new_import_job env ?i system ty conn)) d" for f
    using change_new_job [of env "new_import_job env ?i system ty conn" d f] assms by (simp add: new_import_job_def)
  have row: "change_job_row env ?i f (add_job ?j d) = add_job (f ?j) d" for f
    using change_new_job [OF ij(1) assms(2) ij(2)] .
  have dry: "dry_job d (progress_row env st p None e ?j)" "dry_job d (progress_row env st p None e (?j\<lparr>ij_total_records := n\<rparr>))"
    "dry_job d (progress_row env st p (Some (0, 0, 0)) e (?j\<lparr>ij_total_records := n\<rparr>))" for st p e n
    by (simp_all add: dry_job_def progress_row_def new_import_job_def Let_def)
  note open_it = import_one_type_def create then_do_def live_progress row0 row
  let ?failed = "\<lambda>j e. progress_row env I_failed None None (Some e) j"
  show ?thesis
  proof (cases "cn_fetch con ty")
    case None
    then have "import_one_type bs True env con system conn ty (live_session d) = (Inr ?i, live_session (add_job (?failed ?j ''No fetcher'') d))"
      by (simp add: open_it)
    with dry(1) show ?thesis by blast
  next
    case (Some res)
    show ?thesis
    proof (cases res)
      case (Inl e)
      with Some have "import_one_type bs True env con system conn ty (live_session d) = (Inr ?i, live_session (add_job (?failed ?j e) d))"
        by (simp add: open_it catching_def fetch_records_def)
      with dry(1) show ?thesis by blast
    next
      case (Inr rs)
      let ?t = "?j\<lparr>ij_total_records := length rs\<rparr>"
      have rowt: "change_job_row env ?i f (add_job ?t d) = add_job (f ?t) d" for f
        using change_new_job [of env ?t d f] ij assms(2) by simp
      obtain r where r: "count_existing env system ty rs (live_session (add_job ?t d)) = (r, live_session (add_job ?t d))"
        using count_existing_live by blast
      have fetched: "fetch_records con ty s = (Inr rs, s)" for s using Some Inr by (simp add: fetch_records_def)
      note open_it = open_it catching_def fetched process_records_def live_change_job rowt
      show ?thesis
      proof (cases r)
        case (Inl e)
        with r Some have "import_one_type bs True env con system conn ty (live_session d) = (Inr ?i, live_session (add_job (?failed ?t e) d))"
          by (simp add: open_it)
        with dry(2) show ?thesis by blast
      next
        case (Inr k)
        with r Some have "import_one_type bs True env con system conn ty (live_session d) =
            (Inr ?i, live_session (add_job (progress_row env I_completed (Some 100) (Some (0, 0, 0)) None ?t) d))"
          by (simp add: open_it)
        with dry(3) show ?thesis by blast
      qed
    qed
  qed
qed

lemma dry_types:
  assumes "ie_sees env (ie_company env)" "import_inv d"
  shows "\<exists>ids d'. import_types bs True env con system conn tys (live_session d) = (Inr ids, live_session d') \<and> import_inv d'"
  using assms(2)
proof (induction tys arbitrary: d)
  case (Cons ty tys)
  then have "fresh_ids d" by (simp add: import_inv_def)
  from dry_type [OF assms(1) this, of bs con system conn ty] obtain j where j: "dry_job d j"
    "import_one_type bs True env con system conn ty (live_session d) = (Inr (im_next d), live_session (add_job j d))" by blast
  from Cons.IH [OF inv_dry [OF Cons.prems j(1)]] j(2) show ?case by (auto simp: then_do_def)
qed simp

lemma dry_import_inv: "import_inv d \<Longrightarrow> import_inv (background_import True env connect_to system tys conn d)"
proof (cases "available system \<and> (\<exists>b. cn_authenticate (connect_to (connection_row env conn d)) = Inr b)")
  case True
  assume inv: "import_inv d"
  from True obtain b where ok: "available system" "cn_authenticate (connect_to (connection_row env conn d)) = Inr b" by blast
  note run = run_import_live [where connect_to = connect_to and conn = conn and d = d, OF ok]
  show ?thesis
  proof (cases "ie_sees env (ie_company env)")
    case True
    with dry_types [OF True inv, of 500 "connect_to (connection_row env conn d)" system conn tys] show ?thesis
      by (auto simp: background_import_def run)
  next
    case False
    have "aborted (import_one_type 500 True env con system conn ty (live_session d))" for con ty
      unfolding import_one_type_def using False
      by (intro aborted_then_do) (simp add: create_import_job_def then_do_def live_flush aborted_def Let_def)
    then have "aborted (import_types 500 True env con system conn (ty # tys') (live_session d))" for con ty tys'
      by (auto intro: aborted_then_do)
    from this [of "connect_to (connection_row env conn d)" "hd tys" "tl tys"] inv show ?thesis
      by (cases tys) (auto simp: background_import_def run aborted_def simp del: import_types.simps(2) split: prod.splits sum.splits)
  qed
next
  case False
  assume inv: "import_inv d"
  from False have "\<exists>e. fst (run_import 500 True env connect_to system tys conn (live_session d)) = Inl e"
    by (cases "get_connector system"; cases "cn_authenticate (connect_to (connection_row env conn d))")
      (auto simp: available_def run_import_def then_do_def live_select split: connector_status.splits)
  with inv show ?thesis by (auto simp: background_import_def split: prod.splits)
qed

datatype import_op = Import bool import_env "integration_connection option \<Rightarrow> connector" string "import_type list" "uuid option"
  | Rollback import_env uuid

fun apply_import_op :: "import_op \<Rightarrow> import_db \<Rightarrow> import_db" where
  \<comment> \<open>the requests \<open>POST /{provider}/import\<close>, with or without \<open>dry_run\<close>, and \<open>POST /imports/{id}/rollback\<close>\<close>
  "apply_import_op (Import dry_run env connect_to system tys conn) d = background_import dry_run env connect_to system tys conn d"
| "apply_import_op (Rollback env i) d = snd (rollback_route env i d)"

lemma inv_op: "import_inv d \<Longrightarrow> import_inv (apply_import_op op d)"
proof (induction op d rule: apply_import_op.induct)
  case (1 dry_run env connect_to system tys conn d)
  then have "fresh_ids d" by (simp add: import_inv_def)
  from background_cases [OF this, of env connect_to system tys conn] 1 show ?case
    by (cases dry_run) (auto simp: dry_import_inv dest: inv_expected)
next
  case (2 env i d)
  show ?case
  proof (cases "rollback_route env i d")
    case (Pair res d')
    with 2 inv_rollback show ?thesis by (cases res) (auto simp: rollback_route_def split: prod.splits sum.splits)
  qed
qed

text \<open>
  C5. The books of the imports after any sequence of imports, dry runs and rollbacks of all companies: a job that was not
  taken back has imported as many records as its log has successes, which are all of its records or (after a dry run or a failed fetch) none, and
  has skipped none; a job that was taken back has none imported and counts as skipped the square of the number of entries taken back; no
  job has failed records; no record of a company, product and type is in the log twice; and no job ever has a
  time at which it started, so that the average duration in the metrics is always zero.
\<close>

theorem import_books_balance:
  "let d = fold apply_import_op ops \<lparr>im_connections = [], im_jobs = [], im_logs = [], im_rules = [], im_next = 0\<rparr>
   in import_inv d \<and> (\<forall>py_sum env. case fst (get_migration_metrics py_sum env (live_session d)) of
        Inl e \<Rightarrow> True | Inr m \<Rightarrow> mm_avg_duration m = 0)"
proof -
  have inv: "import_inv (fold apply_import_op ops d)" if "import_inv d" for d
    using that by (induction ops arbitrary: d) (auto intro: inv_op)
  have empty: "import_inv \<lparr>im_connections = [], im_jobs = [], im_logs = [], im_rules = [], im_next = 0\<rparr>"
    by (simp add: import_inv_def fresh_ids_def)
  have duration: "mm_avg_duration m = 0"
    if "import_inv d" "get_migration_metrics py_sum env (live_session d) = (Inr m, s)" for d py_sum env m s
  proof -
    have "duration j = None" if "j \<in> set (im_jobs d)" for j
      using that \<open>import_inv d\<close> by (simp add: import_inv_def books_def duration_def)
    then have "List.map_filter duration (filter P (filter Q (im_jobs d))) = []" for P Q
      by (auto simp: map_filter_def filter_empty_conv)
    with that(2) show ?thesis by (auto simp: get_migration_metrics_def live_select Let_def)
  qed
  show ?thesis unfolding Let_def using inv [OF empty] duration
    by (auto split: sum.split) (metis prod.collapse)
qed

text \<open>
  The select on the log of a job and the one on a job by its identifier are changed by the listener.
\<close>

lemma rollback_selects_filtered:
  "filter_added (Some t) \<lparr>sq_text = ''SELECT import_logs.id, import_logs.company_id, import_logs.import_job_id FROM import_logs'' @
       '' WHERE import_logs.import_job_id = :import_job_id_1 AND import_logs.result = :result_1'',
     sq_table = Some ''import_logs'', sq_dml = False, sq_select = True, sq_has_company = True\<rparr>"
  "filter_added (Some t) \<lparr>sq_text = ''SELECT import_jobs.id, import_jobs.company_id FROM import_jobs WHERE import_jobs.id = :pk_1'',
     sq_table = Some ''import_jobs'', sq_dml = False, sq_select = True, sq_has_company = True\<rparr>"
  by code_simp+

text \<open>
  C13. A rollback takes back a job of the caller's company, and only such a job: every entry of its log is marked as taken back, the
  job has none imported any more, and nothing else changes; a second rollback is refused. But the number of records that it reports, and that the
  job counts as skipped, is the square of the number that the job had imported, because the tenant filter joins the select on the log with itself.
\<close>

theorem rollback_takes_back:
  assumes "import_inv d" "rollback_route env i d = (Inr n, d')"
  shows "\<exists>j \<in> set (im_jobs d). ij_id j = i \<and> ij_company j = ie_company env \<and> ij_rolled_back_at j = None \<and> n = ij_imported_count j ^ 2 \<and>
    d' = d\<lparr>im_logs := map (\<lambda>l. if il_job l = i then l\<lparr>il_result := R_rolled_back\<rparr> else l) (im_logs d),
           im_jobs := map (\<lambda>k. if ij_id k = i then rolled_back_row env k else k) (im_jobs d)\<rparr> \<and>
    rollback_route env i d' = (Inl ''ValueError: already rolled back'', d')"
proof -
  from rollback_exact [OF assms] obtain j where j: "j \<in> set (im_jobs d)" "ij_id j = i" "ij_rolled_back_at j = None"
      "ie_sees env (ij_company j)" "ij_company j = ie_company env" "n = ij_imported_count j ^ 2"
    and d': "d' = d\<lparr>im_logs := map (\<lambda>l. if il_job l = i then l\<lparr>il_result := R_rolled_back\<rparr> else l) (im_logs d),
            im_jobs := map (\<lambda>k. if ij_id k = i then rolled_back_row env k else k) (im_jobs d)\<rparr>" by blast
  have ids: "distinct (map ij_id (im_jobs d'))" using inv_rollback [OF assms] by (simp add: import_inv_def)
  have "rolled_back_row env j \<in> set (im_jobs d')" using j(1,2) by (force simp: d')
  then have "by_id env ij_company ij_id i (im_jobs d') \<noteq> None"
    by (rule by_id_finds) (use j in \<open>simp_all add: rolled_back_row_def\<close>)
  then obtain k where k: "by_id env ij_company ij_id i (im_jobs d') = Some k" by blast
  from by_id_Some [OF k ids] have "k \<in> set (im_jobs d')" "ij_id k = i" by auto
  moreover have "im_jobs d' = map (\<lambda>k. if ij_id k = i then rolled_back_row env k else k) (im_jobs d)" unfolding d' by simp
  ultimately obtain x where x: "k = (if ij_id x = i then rolled_back_row env x else x)" by force
  have "ij_rolled_back_at k \<noteq> None"
  proof (cases "ij_id x = i")
    case False
    with x \<open>ij_id k = i\<close> show ?thesis by simp
  qed (simp add: x rolled_back_row_def)
  with k have again: "rollback_route env i d' = (Inl ''ValueError: already rolled back'', d')"
    by (simp add: rollback_route_def rollback_live)
  show ?thesis by (rule bexI [OF _ j(1)]) (intro conjI j(2,3,5,6) d' again)
qed

section \<open>Concrete imports\<close>

definition sample_import_env :: import_env where
  "sample_import_env = \<lparr>ie_company = 7, ie_sees = (\<lambda>c. c = 7), ie_now = 5\<rparr>"

definition sample_connector :: connector where
  "sample_connector = \<lparr>cn_authenticate = Inr True, cn_fetch = (\<lambda>ty. Some (Inr
     (if ty = CUSTOMERS then [\<lparr>er_id = ''c1'', er_storable = True\<rparr>, \<lparr>er_id = ''c2'', er_storable = True\<rparr>] else [])))\<rparr>"

definition sample_import_db :: "import_log list \<Rightarrow> import_job list \<Rightarrow> import_db" where
  "sample_import_db logs jobs = \<lparr>im_connections = [], im_jobs = jobs, im_logs = logs, im_rules = [], im_next = length jobs\<rparr>"

definition sample_log :: "import_result \<Rightarrow> import_log" where
  "sample_log res = \<lparr>il_company = 7, il_job = 0, il_system = ''stripe'', il_external_id = ''c2'', il_type = CUSTOMERS,
     il_result = res, il_error_message = None\<rparr>"

definition sample_job :: import_job where
  "sample_job = completed_job sample_import_env 1 (new_import_job sample_import_env 0 ''stripe'' CUSTOMERS None)"

lemma stripe_available [simp]: "available ''stripe''"
  by (simp add: available_def get_connector_def PROVIDERS_def)

theorem import_all_or_nothing_witness:
  "map il_external_id (im_logs (background_import False sample_import_env (\<lambda>_. sample_connector) ''stripe'' [CUSTOMERS, JOBS] None
     (sample_import_db [] []))) = [''c1'', ''c2'']"
proof -
  have "background_import False sample_import_env (\<lambda>_. sample_connector) ''stripe'' [CUSTOMERS, JOBS] None (sample_import_db [] []) =
    (case expected_import sample_import_env sample_connector ''stripe'' None [CUSTOMERS, JOBS] (sample_import_db [] []) of
       Some d' \<Rightarrow> d' | None \<Rightarrow> sample_import_db [] [])"
    by (rule import_all_or_nothing) (simp_all add: sample_connector_def sample_import_env_def sample_import_db_def fresh_ids_def)
  then show ?thesis
    by (simp add: expected_type_def sample_connector_def sample_import_env_def sample_import_db_def importable_def imported_log_def
        add_logs_def add_job_def Let_def)
qed

theorem known_record_stops_import_witness:
  "background_import False sample_import_env (\<lambda>_. sample_connector) ''stripe'' [JOBS, CUSTOMERS] None
     (sample_import_db [sample_log R_rolled_back] [sample_job]) = sample_import_db [sample_log R_rolled_back] [sample_job]"
  by (rule known_record_stops_import [where ty = CUSTOMERS and r = "\<lparr>er_id = ''c2'', er_storable = True\<rparr>" and l = "sample_log R_rolled_back"
      and rs = "[\<lparr>er_id = ''c1'', er_storable = True\<rparr>, \<lparr>er_id = ''c2'', er_storable = True\<rparr>]"])
    (simp_all add: sample_connector_def sample_import_env_def sample_import_db_def fresh_ids_def sample_log_def sample_job_def
      completed_job_def new_import_job_def record_key_def log_key_def)

definition imported_db :: import_db where
  \<comment> \<open>two customers have been imported\<close>
  "imported_db = sample_import_db [(sample_log R_success)\<lparr>il_external_id := ''c1''\<rparr>, sample_log R_success]
     [completed_job sample_import_env 2 (new_import_job sample_import_env 0 ''stripe'' CUSTOMERS None)]"

theorem rollback_takes_back_witness:
  "fst (rollback_route sample_import_env 0 imported_db) = Inr 4 \<and>
   fst (rollback_route sample_import_env 0 (snd (rollback_route sample_import_env 0 imported_db))) = Inl ''ValueError: already rolled back''"
proof -
  let ?j = "completed_job sample_import_env 2 (new_import_job sample_import_env 0 ''stripe'' CUSTOMERS None)"
  have job: "ij_id ?j = 0" "ij_company ?j = 7" "ij_rolled_back_at ?j = None" "ij_imported_count ?j = 2" "books imported_db ?j"
    by (simp_all add: completed_job_def new_import_job_def sample_import_env_def books_def logs_of_def sample_import_db_def sample_log_def imported_db_def)
  have inv: "import_inv imported_db"
    using job by (simp add: import_inv_def fresh_ids_def sample_import_db_def sample_log_def imported_db_def log_key_def)
  obtain n where n: "fst (rollback_route sample_import_env 0 imported_db) = Inr n"
    using job by (simp add: rollback_route_def rollback_live sample_import_db_def sample_import_env_def imported_db_def by_id_def scoped_def Let_def)
  then have "rollback_route sample_import_env 0 imported_db = (Inr n, snd (rollback_route sample_import_env 0 imported_db))" by (metis prod.collapse)
  from rollback_takes_back [OF inv this] n show ?thesis using job by (auto simp: imported_db_def sample_import_db_def)
qed

text \<open>Connecting again without a token marks the connection as connected and forgets the token it had.\<close>

lemma reconnect_without_token:
  assumes "im_connections d = [c]" "ie_sees env (ic_company c)" "connection_key c = (ie_company env, provider, tenant)"
  shows "connect env provider tenant None None (live_session d) =
    (Inr (ic_id c, C_connected), live_session (d\<lparr>im_connections := [c\<lparr>ic_access_token := None, ic_status := C_connected,
       ic_updated_at := ie_now env\<rparr>]\<rparr>))"
  using assms by (simp add: connect_def get_connection_def update_connection_tokens_def then_do_def live_select live_flush update_where_def)

end
