(* ===== verification/Spec2Isabelle.thy ===== *)
theory Spec2Isabelle
  imports Pricing Plans EstimateFlow EstimateAudit EstimateRoutes JobState Quota Ledger Idempotency Abuse
    CircuitBreaker RateLimit Retries StaleJobs Concurrency OutputChecks Canary TaskQueue JobPipeline JobRuns
    PyRegex Addresses TextGuard AIServices AIAudit Gateway StripeIps StripeCache StripeWebhook BillingTasks DbCircuit DbSession ImportService
begin

text \<open>
  WorkTicket is a backend for field-service companies: technicians open jobs, media and text of a
  job are sent through AI models, the result becomes a priced estimate, and the use of AI is metered
  against each company's quota. This development models the core of \<open>src/backend/app\<close> and states what
  makes it correct. File names below are relative to that directory.

  \<^bold>\<open>The program.\<close> A request to process a job passes the rate limiters and the circuit breaker, is
  estimated and routed by the plan of the company, and reserves quota. The job then moves through its
  AI states while the reservation is kept alive by a heartbeat; when it ends, its cost is reconciled
  with the reservation and written to the usage ledger, or the reservation is released. Periodic tasks
  repair what was left behind. Estimates are recomputed by the pricing engine and move through their own
  life cycle, recorded by snapshots. All state is in PostgreSQL and Redis; a database transaction is a
  function on the record \<open>database\<close>, a Redis structure is a field of the state of its component.

  \<^bold>\<open>Foundations.\<close>
  \<open>Prelude\<close>: collections of theorems, list lemmas, and the locales \<open>leaky_bucket\<close>, \<open>table_machine\<close> and
  \<open>frozen_machine\<close>. \<open>PyNum\<close>: Python's \<open>float\<close> (binary64 by rounding of rationals to 53 bits), \<open>Decimal\<close>
  (28 digits, half even), \<open>round\<close>, \<open>quantize\<close> and \<open>repr\<close>. \<open>PyValue\<close>: dynamically typed values with the
  exceptions of \<open>float()\<close> and of item access. \<open>PyTime\<close>: calendar text of a time stamp. \<open>DataModel\<close>: the
  tables of \<open>jobs/models.py\<close> and \<open>billing/*.py\<close> as records, the unique constraints, rows read and
  changed by key.

  \<^bold>\<open>Components.\<close>
  \<open>Pricing\<close> (\<open>pricing/engine.py\<close>): line totals, sums, recomputation and validation of an AI answer;
  recomputed answers validate, totals are exact to the cent.
  \<open>Plans\<close> (\<open>billing/cost_estimator.py\<close>, \<open>policy_engine.py\<close>, \<open>routing_engine.py\<close>): tiers, estimate,
  decisions.
  \<open>EstimateFlow\<close> (\<open>estimates/state_machine.py\<close>): the table of estimate states and the dates it sets.
  \<open>EstimateAudit\<close> (\<open>estimates/audit.py\<close>): snapshots, and differences from which the later snapshot can
  be read back. \<open>EstimateRoutes\<close> (\<open>estimates/router.py\<close>, \<open>schemas.py\<close>, \<open>auth/authorize.py\<close>): the routes; they
  refine an abstract life cycle in which only drafts and estimates in review change content; with the JSON encoder of the
  program every route but edit and delete fails.
  \<open>JobState\<close> (\<open>billing/state_machine.py\<close>): the AI state of a job, its guarded transitions, the re-queue
  backoff, reconciliation and stale reservations.
  \<open>Quota\<close> (\<open>billing/quota_engine.py\<close>): optimistic reservation, release, and the settlement \<open>finalize_usage\<close>, which no code of
  the repository calls.
  \<open>Ledger\<close> (\<open>billing/credits.py\<close>, \<open>reconciliation.py\<close>): credits and cost reconciliation.
  \<open>Idempotency\<close> (\<open>billing/idempotency_service.py\<close>): the life of a request key.
  \<open>Abuse\<close> (\<open>billing/abuse.py\<close>): request windows and risk scores.
  \<open>CircuitBreaker\<close> (\<open>ai/circuit_breaker.py\<close>), \<open>RateLimit\<close> (\<open>ai/local_rate_limiter.py\<close>,
  \<open>ai/rate_limiter.py\<close>), \<open>Retries\<close> (\<open>tasks/retry_guard.py\<close>, \<open>tasks/retry_budget.py\<close>), \<open>Concurrency\<close>
  (\<open>ai/concurrency.py\<close>): what is admitted, how much in a window, and how many at once.
  \<open>OutputChecks\<close> (\<open>ai/validator.py\<close>, \<open>ai/schemas.py\<close>, \<open>ai/failure_classifier.py\<close>): what is checked of a
  model's answer.
  \<open>StaleJobs\<close> (\<open>tasks/heartbeat.py\<close>): the periodic repair, composed of \<open>JobState\<close>, \<open>Quota\<close> and
  \<open>Idempotency\<close>.
  \<open>TaskQueue\<close> (\<open>src/backend/celery_config/broker.py\<close>): broker health, signed tasks, dead letters.
  \<open>JobPipeline\<close> (\<open>src/backend/tasks/job_tasks.py\<close>): the worker task, composed of \<open>TaskQueue\<close>, \<open>JobState\<close>,
  \<open>Quota\<close>, \<open>OutputChecks\<close> and \<open>Ledger\<close>; \<open>JobRuns\<close>: what its runs guarantee (a run that goes well moves exactly
  the reservation and the cost, every run keeps the unique constraints, a task ends after at most four
  deliveries) and where it fails to (a refused reservation, an unusable answer, a retry).
  \<open>Canary\<close> (\<open>deploy/canary.py\<close>, \<open>monitoring/slo.py\<close>): stages of a deployment and the health score.
  \<open>TextGuard\<close> (the input and output guards of \<open>ai/gateway.py\<close>, over the regular expressions of \<open>PyRegex\<close>): what is removed from the text a
  model reads and writes. \<open>AIServices\<close> (\<open>ai/ollama_service.py\<close>, \<open>ai/whisper_service.py\<close>, with
  the addresses of \<open>Addresses\<close>, \<open>ai/ssrf_validator.py\<close>): what is fetched, how the three model servers are called and what is made of their
  answers. \<open>AIAudit\<close> (\<open>ai/audit.py\<close>): the record of a run. \<open>Gateway\<close> (\<open>ai/gateway.py\<close>,
  \<open>ai/orchestrator.py\<close>): routing, the steps of a run and what is recorded of its outcome, composed of the former.
  \<open>StripeIps\<close>, \<open>StripeCache\<close>, \<open>StripeWebhook\<close> (\<open>billing/stripe_ips.py\<close>, \<open>stripe_cache.py\<close>, \<open>invoice_routes.py\<close>): who may send an
  event, what is cached of a subscription, and how an event is deduplicated and applied to a company.
  \<open>BillingTasks\<close> (\<open>src/backend/tasks/billing_tasks.py\<close>): the monthly reset of the accounts, the collection of debt, and the lock
  of the scheduler.
  \<open>DbCircuit\<close>, \<open>DbSession\<close> (\<open>database.py\<close>, \<open>db/rls.py\<close>, \<open>db/transactional.py\<close>, \<open>auth/dependencies.py\<close> and the policies of
  migration 033): the circuit breaker of the database, and the sessions, whose tenant decides which rows a request sees.
  \<open>ImportService\<close> (\<open>integrations/services/import_service.py\<close>): imports from other systems, their log, their rollback and their metrics;
  a run refines a specification that writes all records or none.

  \<^bold>\<open>Interfaces.\<close> \<open>keyed_table\<close> (a change is seen under its key and nowhere else) is provided by the account
  and the job table; \<open>versioned_cell\<close> (compare and set) by the account row; \<open>leaky_bucket\<close> (tokens between two
  bounds, refilled at a rate) by both rate limiters and the retry budget; \<open>table_machine\<close> and
  \<open>frozen_machine\<close> (a status that moves by a table; content that does not change where it is frozen) by
  the job states and the estimate routes. Their lemmas are proved once and used through the interpretations.

  \<^bold>\<open>Parameters.\<close> Clock readings, generated identifiers, lock outcomes, rows skipped by \<open>SKIP LOCKED\<close>, the
  commits of other transactions between a read and a compare-and-set, what an ORM session shows of a row,
  whether Redis answers, and environment settings are arguments. So are the model servers and the bytes they answer with, the
  database of Unicode, the JSON and HMAC of the library, the Stripe client, the constructors of pydantic, the connectors of other systems and the
  pool of connections. Loops of the code are bounded by constants
  of the source (three attempts of an optimistic update, three of the account lock, three of
  a release or of a dead letter) and are recursions over the list of attempts; redelivery of a task is a recursion
  whose termination is proved. No fuel is used. A transaction of the worker is applied whole or rolled back;
  what others commit between its two transactions is an argument.

  \<^bold>\<open>Limits.\<close> Floats are finite: NaN, infinities and overflow to them are outside the model, as is the
  sign of zero. Text is a list of characters, and case conversion and word classes are those of ASCII.
  Columns that the database maintains by itself (\<open>updated_at\<close> on update) keep their value, and the length of a text column is
  not checked. A setting made by \<open>SET\<close> outlives a commit and is undone by a rollback; a session in which a flush failed answers nothing more
  until it is rolled back. Logging, traces, metrics and analytics events are left out.

  \<^bold>\<open>Not modelled.\<close> HTTP wiring, the inside of the model servers, of Stripe, of Clerk, of e-mail and of SMS, encryption,
  reporting queries, dashboards and some of the worker tasks; the table of components of the manifest lists them.
  Four files do not parse (\<open>billing/concurrency.py\<close>, \<open>billing/tasks.py\<close>, \<open>tasks/beat_lock.py\<close>,
  \<open>middleware/priority.py\<close>) and have no meaning to model.
\<close>

end
